(* ===== verification/Prelude.thy ===== *)
theory Prelude
  imports Main "HOL-Library.Word"
begin

text \<open>
  Shared vocabulary of the development: machine integers, the constants of
  \<^verbatim>\<open>param.h\<close>, \<^verbatim>\<open>memlayout.h\<close> and \<^verbatim>\<open>mmu.h\<close>, the outcome type of kernel code, the
  table scan that most kernel loops are, and byte-addressed memory with 32-bit
  little-endian loads and stores.
\<close>

unbundle bit_operations_syntax

named_theorems kernel_defs \<open>constants of the headers, to be unfolded for arithmetic\<close>

section \<open>Machine integers\<close>

type_synonym u8 = "8 word"
type_synonym u16 = "16 word"
type_synonym u32 = "32 word"

section \<open>Arithmetic of 32-bit words\<close>

lemma u32_bound: "unat (x :: u32) < 2 ^ 32"
  using unsigned_less [of x, where 'a = nat] by simp

lemma unat_pred:
  fixes x :: u32
  assumes "x \<noteq> 0"
  shows "unat (x - 1) = unat x - 1"
proof -
  have "1 \<le> x" using assms by (simp add: word_le_nat_alt unat_gt_0 Suc_le_eq)
  then show ?thesis by (simp add: unat_sub)
qed

lemma unat_of_nat_u32: "i < 2 ^ 32 \<Longrightarrow> unat (of_nat i :: u32) = i"
  by (simp add: unsigned_of_nat take_bit_nat_eq_self)

lemma unat_less_iff: "unat x < unat y \<longleftrightarrow> x < (y :: u32)"
  by (simp add: word_less_nat_alt)

lemma dist_of_le:
  fixes a d :: u32
  assumes "d \<le> a" shows "unat (a - d) = unat a - unat d"
  using assms by (simp add: unat_sub)

lemma unat_plus_nowrap:
  fixes a n :: u32
  assumes "unat a + unat n < 2 ^ 32" shows "unat (a + n) = unat a + unat n"
  using assms by (simp add: unat_word_ariths)

lemma unat_dist_gt:
  fixes a d :: u32
  assumes "a < d" shows "unat (a - d) = 2 ^ 32 + unat a - unat d"
  using assms by (simp add: unat_sub_if' word_less_nat_alt)

section \<open>Constants of the headers\<close>

definition NPROC :: nat where [kernel_defs]: "NPROC = 64"
definition KSTACKSIZE :: u32 where [kernel_defs]: "KSTACKSIZE = 4096"
definition NOFILE :: nat where [kernel_defs]: "NOFILE = 16"
definition NFILE :: nat where [kernel_defs]: "NFILE = 100"
definition NINODE :: nat where [kernel_defs]: "NINODE = 50"
definition NDEV :: nat where [kernel_defs]: "NDEV = 10"
definition ROOTDEV :: u32 where [kernel_defs]: "ROOTDEV = 1"
definition MAXARG :: nat where [kernel_defs]: "MAXARG = 32"
definition MAXOPBLOCKS :: nat where [kernel_defs]: "MAXOPBLOCKS = 10"
definition LOGSIZE :: nat where [kernel_defs]: "LOGSIZE = MAXOPBLOCKS * 3"
definition NBUF :: nat where [kernel_defs]: "NBUF = MAXOPBLOCKS * 3"
definition FSSIZE :: u32 where [kernel_defs]: "FSSIZE = 1000"
definition QUANTA :: u32 where [kernel_defs]: "QUANTA = 5"

definition EXTMEM :: u32 where [kernel_defs]: "EXTMEM = 0x100000"
definition PHYSTOP :: u32 where [kernel_defs]: "PHYSTOP = 0xE000000"
definition DEVSPACE :: u32 where [kernel_defs]: "DEVSPACE = 0xFE000000"
definition KERNBASE :: u32 where [kernel_defs]: "KERNBASE = 0x80000000"
definition KERNLINK :: u32 where [kernel_defs]: "KERNLINK = KERNBASE + EXTMEM"

definition V2P :: "u32 \<Rightarrow> u32" where [kernel_defs]: "V2P a = a - KERNBASE"
definition P2V :: "u32 \<Rightarrow> u32" where [kernel_defs]: "P2V a = a + KERNBASE"

definition PGSIZE :: u32 where [kernel_defs]: "PGSIZE = 4096"

definition PGROUNDUP :: "u32 \<Rightarrow> u32" where
  "PGROUNDUP sz = (sz + PGSIZE - 1) AND NOT (PGSIZE - 1)"

definition PGROUNDDOWN :: "u32 \<Rightarrow> u32" where
  "PGROUNDDOWN a = a AND NOT (PGSIZE - 1)"

lemma unat_PGROUNDDOWN: "unat (PGROUNDDOWN a) = unat a div 4096 * 4096"
proof -
  have m: "PGSIZE - 1 = (mask 12 :: u32)" by (simp add: PGSIZE_def mask_eq_exp_minus_1)
  have "a AND NOT (mask 12) = push_bit 12 (drop_bit 12 a)"
    by (rule bit_word_eqI) (auto simp: bit_simps)
  also have "\<dots> = a - take_bit 12 a"
    using bits_ident [of 12 a] by (simp add: algebra_simps)
  also have "take_bit 12 a = a mod 4096"
    by (simp add: take_bit_eq_mod)
  finally have "unat (PGROUNDDOWN a) = unat (a - a mod 4096)"
    by (simp add: PGROUNDDOWN_def m)
  also have "\<dots> = unat a - unat a mod 4096"
    by (subst dist_of_le) (simp_all add: word_le_nat_alt unat_mod)
  finally show ?thesis
    by (simp add: minus_mod_eq_div_mult)
qed

lemma PGROUNDDOWN_aligned: "PGROUNDDOWN a mod PGSIZE = 0"
proof -
  have "unat (PGROUNDDOWN a mod PGSIZE) = 0"
    by (simp add: unat_mod unat_PGROUNDDOWN PGSIZE_def)
  then show ?thesis by (simp only: unat_eq_0)
qed

lemma PGROUNDUP_eq: "PGROUNDUP a = PGROUNDDOWN (a + (PGSIZE - 1))"
  by (simp add: PGROUNDUP_def PGROUNDDOWN_def algebra_simps)

lemma PGROUNDUP_aligned: "PGROUNDUP a mod PGSIZE = 0"
  unfolding PGROUNDUP_eq by (rule PGROUNDDOWN_aligned)

lemma unat_PGROUNDUP:
  assumes "unat a + 4095 < 2 ^ 32"
  shows "unat (PGROUNDUP a) = (unat a + 4095) div 4096 * 4096"
  unfolding PGROUNDUP_eq unat_PGROUNDDOWN using assms
  by (subst unat_plus_nowrap) (simp_all add: PGSIZE_def)
section \<open>Outcomes of kernel code\<close>

text \<open>
  A piece of kernel code, run on a state, ends in one of five ways: it returns a
  value and a new state; it calls \<^verbatim>\<open>panic\<close>, which never returns; it spins forever
  on a lock that another CPU holds; it leaves the CPU through \<^verbatim>\<open>swtch\<close> with the
  machine in the given state (\<^verbatim>\<open>sched\<close>, and hence \<^verbatim>\<open>sleep\<close> and \<^verbatim>\<open>yield\<close>); or it
  touches an address that is not mapped.
\<close>

datatype ('a, 's) res =
    Ok 'a 's
  | Panic string
  | Spin
  | Switched 's
  | Fault

text \<open>Sequential composition: only a returned value reaches the rest of the code.\<close>

fun bind :: "('a, 's) res \<Rightarrow> ('a \<Rightarrow> 's \<Rightarrow> ('b, 's) res) \<Rightarrow> ('b, 's) res" where
  "bind (Ok a s) f = f a s"
| "bind (Panic m) f = Panic m"
| "bind Spin f = Spin"
| "bind (Switched s) f = Switched s"
| "bind Fault f = Fault"

lemma bind_eq_Ok [simp]:
  "bind r f = Ok b t \<longleftrightarrow> (\<exists>a s. r = Ok a s \<and> f a s = Ok b t)"
  by (cases r) auto

lemma bind_assoc: "bind (bind r f) g = bind r (\<lambda>a s. bind (f a s) g)"
  by (cases r) auto

lemma bind_cong [fundef_cong]:
  "\<lbrakk>r = r'; \<And>a s. r' = Ok a s \<Longrightarrow> f a s = f' a s\<rbrakk> \<Longrightarrow> bind r f = bind r' f'"
  by (cases r') auto

text \<open>Code that does not panic, spin or fault.\<close>

fun returns :: "('a, 's) res \<Rightarrow> bool" where
  "returns (Ok a s) = True"
| "returns r = False"

lemma returns_iff: "returns r \<longleftrightarrow> (\<exists>a s. r = Ok a s)"
  by (cases r) auto

section \<open>Table scans\<close>

text \<open>
  \<^verbatim>\<open>for(p = table; p < &table[N]; p++) if(P(p)) goto found;\<close>: the index of the
  first entry that satisfies the test.
\<close>

fun scan :: "('a \<Rightarrow> bool) \<Rightarrow> 'a list \<Rightarrow> nat option" where
  "scan P [] = None"
| "scan P (x # xs) = (if P x then Some 0 else map_option Suc (scan P xs))"

lemma scan_None_iff: "scan P xs = None \<longleftrightarrow> (\<forall>x \<in> set xs. \<not> P x)"
  by (induction xs) auto

lemma scan_SomeD:
  "scan P xs = Some i \<Longrightarrow> i < length xs \<and> P (xs ! i) \<and> (\<forall>j < i. \<not> P (xs ! j))"
proof (induction xs arbitrary: i)
  case (Cons x xs)
  show ?case
  proof (cases "P x")
    case False
    with Cons.prems obtain i' where i': "scan P xs = Some i'" "i = Suc i'"
      by auto
    from Cons.IH [OF i'(1)] False i'(2) show ?thesis
      by (auto simp: less_Suc_eq_0_disj)
  qed (use Cons.prems in auto)
qed simp

lemma scan_SomeI:
  assumes "i < length xs" "P (xs ! i)" "\<And>j. j < i \<Longrightarrow> \<not> P (xs ! j)"
  shows "scan P xs = Some i"
  using assms
proof (induction xs arbitrary: i)
  case (Cons x xs)
  show ?case
  proof (cases i)
    case (Suc i')
    from Cons.prems(3) [of 0] Suc have "\<not> P x" by simp
    moreover have "scan P xs = Some i'"
    proof (rule Cons.IH)
      show "i' < length xs" "P (xs ! i')"
        using Cons.prems Suc by simp_all
      show "\<not> P (xs ! j)" if "j < i'" for j
        using Cons.prems(3) [of "Suc j"] that Suc by simp
    qed
    ultimately show ?thesis using Suc by simp
  qed (use Cons.prems in simp)
qed simp

lemma scan_Some_iff:
  "scan P xs = Some i \<longleftrightarrow> i < length xs \<and> P (xs ! i) \<and> (\<forall>j < i. \<not> P (xs ! j))"
  by (auto dest: scan_SomeD intro: scan_SomeI)

lemma scan_exists: "x \<in> set xs \<Longrightarrow> P x \<Longrightarrow> \<exists>i. scan P xs = Some i"
  using scan_None_iff [of P xs] by fastforce

section \<open>Byte-addressed memory\<close>

type_synonym memory = "u32 \<Rightarrow> u8"

definition ld32 :: "memory \<Rightarrow> u32 \<Rightarrow> u32" where
  "ld32 m a = ucast (m a) OR push_bit 8 (ucast (m (a + 1)))
     OR push_bit 16 (ucast (m (a + 2))) OR push_bit 24 (ucast (m (a + 3)))"

definition st32 :: "memory \<Rightarrow> u32 \<Rightarrow> u32 \<Rightarrow> memory" where
  "st32 m a v = m(a := ucast v, a + 1 := ucast (drop_bit 8 v),
     a + 2 := ucast (drop_bit 16 v), a + 3 := ucast (drop_bit 24 v))"

lemma ld32_cong:
  "\<lbrakk>m a = m' a; m (a + 1) = m' (a + 1); m (a + 2) = m' (a + 2); m (a + 3) = m' (a + 3)\<rbrakk>
    \<Longrightarrow> ld32 m a = ld32 m' a"
  by (simp add: ld32_def)

lemma bytes_of_u32:
  fixes v :: u32
  shows "ucast (ucast v :: u8) OR push_bit 8 (ucast (ucast (drop_bit 8 v) :: u8))
    OR push_bit 16 (ucast (ucast (drop_bit 16 v) :: u8))
    OR push_bit 24 (ucast (ucast (drop_bit 24 v) :: u8)) = v" (is "?w = v")
proof (rule bit_word_eqI)
  fix n :: nat
  assume "n < LENGTH(32)"
  then consider "n < 8" | "8 \<le> n" "n < 16" | "16 \<le> n" "n < 24" | "24 \<le> n" "n < 32"
    by fastforce
  then show "bit ?w n = bit v n"
    by cases (auto simp: bit_simps)
qed

lemma ld32_st32_same [simp]: "ld32 (st32 m a v) a = v"
  by (simp add: ld32_def st32_def bytes_of_u32)

lemma st32_other:
  "\<lbrakk>b \<noteq> a; b \<noteq> a + 1; b \<noteq> a + 2; b \<noteq> a + 3\<rbrakk> \<Longrightarrow> st32 m a v b = m b"
  by (simp add: st32_def)

end
