(* ===== verification/Spinlock.thy ===== *)
theory Spinlock
  imports Prelude
begin

text \<open>
  Spin locks and interrupt nesting (\<^verbatim>\<open>spinlock.c\<close>, \<^verbatim>\<open>spinlock.h\<close>, the CPU part of
  \<^verbatim>\<open>proc.h\<close>). A state holds the per-CPU structures, the CPU that runs the code and
  every spin lock of the kernel, named by the object it is embedded in. The
  debugging field \<^verbatim>\<open>pcs\<close> of a lock is left out; the routine that fills it,
  \<^verbatim>\<open>getcallerpcs\<close>, is modelled over the stack memory it walks.
  The second half is the protocol the CPUs run on one lock, at the granularity of
  its single memory operations, and its mutual exclusion.
\<close>

section \<open>Locks and CPUs\<close>

datatype sleeplock_id = BufLock nat | InodeLock nat

datatype lock_id =
    PtableLock | TicksLock | KmemLock | ConsLock | FtableLock | IcacheLock
  | BcacheLock | LogLock | IdeLock | PipeLock u32 | SleepLk sleeplock_id

record spinlock =
  locked :: u32
  lname :: string
  lcpu :: "nat option"

record cpu =
  ncli :: int
  intena :: bool
  iflag :: bool
  cpu_proc :: "nat option"
  cr3 :: u32
  ts_esp0 :: u32

record machine =
  cpus :: "nat \<Rightarrow> cpu"
  cur :: nat
  locks :: "lock_id \<Rightarrow> spinlock"

definition cpu :: "'z machine_scheme \<Rightarrow> cpu" where
  "cpu s = cpus s (cur s)"

definition set_cpu :: "(cpu \<Rightarrow> cpu) \<Rightarrow> 'z machine_scheme \<Rightarrow> 'z machine_scheme" where
  "set_cpu f s = s\<lparr>cpus := (cpus s)(cur s := f (cpu s))\<rparr>"

definition set_lock :: "lock_id \<Rightarrow> (spinlock \<Rightarrow> spinlock) \<Rightarrow> 'z machine_scheme \<Rightarrow> 'z machine_scheme" where
  "set_lock L f s = s\<lparr>locks := (locks s)(L := f (locks s L))\<rparr>"

section \<open>Operations\<close>

definition initlock :: "lock_id \<Rightarrow> string \<Rightarrow> 'z machine_scheme \<Rightarrow> 'z machine_scheme" where
  "initlock L nm = set_lock L (\<lambda>l. l\<lparr>lname := nm, locked := 0, lcpu := None\<rparr>)"

definition holding :: "lock_id \<Rightarrow> 'z machine_scheme \<Rightarrow> bool" where
  "holding L s \<longleftrightarrow> locked (locks s L) \<noteq> 0 \<and> lcpu (locks s L) = Some (cur s)"

definition pushcli :: "'z machine_scheme \<Rightarrow> 'z machine_scheme" where
  "pushcli s = set_cpu (\<lambda>c.
     let eflags = iflag c;
         c = c\<lparr>iflag := False\<rparr>;
         c = (if ncli c = 0 then c\<lparr>intena := eflags\<rparr> else c)
     in c\<lparr>ncli := ncli c + 1\<rparr>) s"

definition popcli :: "'z machine_scheme \<Rightarrow> (unit, 'z machine_scheme) res" where
  "popcli s =
     (if iflag (cpu s) then Panic ''popcli - interruptible''
      else let s = set_cpu (\<lambda>c. c\<lparr>ncli := ncli c - 1\<rparr>) s in
        if ncli (cpu s) < 0 then Panic ''popcli''
        else if ncli (cpu s) = 0 \<and> intena (cpu s)
          then Ok () (set_cpu (\<lambda>c. c\<lparr>iflag := True\<rparr>) s)
          else Ok () s)"

text \<open>
  \<^verbatim>\<open>acquire\<close> is cut at its memory operations: the interrupt bookkeeping with the
  recursion check, one \<^verbatim>\<open>xchg\<close>, the record of the owner. A failed \<^verbatim>\<open>xchg\<close> is
  repeated; run alone, the loop does not end.
\<close>

definition acquire_begin :: "lock_id \<Rightarrow> 'z machine_scheme \<Rightarrow> (unit, 'z machine_scheme) res" where
  "acquire_begin L s =
     (let s = pushcli s in if holding L s then Panic ''acquire'' else Ok () s)"

definition xchg_lock :: "lock_id \<Rightarrow> u32 \<Rightarrow> 'z machine_scheme \<Rightarrow> u32 \<times> 'z machine_scheme" where
  "xchg_lock L v s = (locked (locks s L), set_lock L (\<lambda>l. l\<lparr>locked := v\<rparr>) s)"

definition acquire_end :: "lock_id \<Rightarrow> 'z machine_scheme \<Rightarrow> 'z machine_scheme" where
  "acquire_end L s = set_lock L (\<lambda>l. l\<lparr>lcpu := Some (cur s)\<rparr>) s"

definition acquire :: "lock_id \<Rightarrow> 'z machine_scheme \<Rightarrow> (unit, 'z machine_scheme) res" where
  "acquire L s = bind (acquire_begin L s) (\<lambda>_ s.
     let (old, s) = xchg_lock L 1 s in
     if old \<noteq> 0 then Spin else Ok () (acquire_end L s))"

definition release_begin :: "lock_id \<Rightarrow> 'z machine_scheme \<Rightarrow> (unit, 'z machine_scheme) res" where
  "release_begin L s =
     (if \<not> holding L s then Panic ''release''
      else Ok () (set_lock L (\<lambda>l. l\<lparr>lcpu := None\<rparr>) s))"

definition release_unlock :: "lock_id \<Rightarrow> 'z machine_scheme \<Rightarrow> 'z machine_scheme" where
  "release_unlock L = set_lock L (\<lambda>l. l\<lparr>locked := 0\<rparr>)"

definition release :: "lock_id \<Rightarrow> 'z machine_scheme \<Rightarrow> (unit, 'z machine_scheme) res" where
  "release L s = bind (release_begin L s) (\<lambda>_ s. popcli (release_unlock L s))"

text \<open>
  \<^verbatim>\<open>getcallerpcs\<close> follows the chain of saved frame pointers, at most ten of them, and
  pads the rest of the array with zeroes.
\<close>

fun callerpcs :: "nat \<Rightarrow> memory \<Rightarrow> u32 \<Rightarrow> u32 list" where
  "callerpcs 0 m ebp = []"
| "callerpcs (Suc i) m ebp =
     (if ebp = 0 \<or> ebp < KERNBASE \<or> ebp = 0xffffffff then replicate (Suc i) 0
      else ld32 m (ebp + 4) # callerpcs i m (ld32 m ebp))"

definition getcallerpcs :: "memory \<Rightarrow> u32 \<Rightarrow> u32 list" where
  "getcallerpcs m v = callerpcs 10 m (v - 8)"

section \<open>What one critical section does to the machine\<close>

definition free_lock :: "spinlock \<Rightarrow> bool" where
  "free_lock l \<longleftrightarrow> locked l = 0 \<and> lcpu l = None"

definition acq :: "lock_id \<Rightarrow> 'z machine_scheme \<Rightarrow> 'z machine_scheme" where
  "acq L s = set_lock L (\<lambda>l. l\<lparr>locked := 1, lcpu := Some (cur s)\<rparr>) (pushcli s)"

definition rel :: "lock_id \<Rightarrow> 'z machine_scheme \<Rightarrow> 'z machine_scheme" where
  "rel L s = set_cpu (\<lambda>c. c\<lparr>ncli := ncli c - 1, iflag := ncli c = 1 \<and> intena c\<rparr>)
     (set_lock L (\<lambda>l. l\<lparr>locked := 0, lcpu := None\<rparr>) s)"

text \<open>
  The one trace a finished critical section leaves: \<^verbatim>\<open>intena\<close> now records the
  interrupt flag of the outermost \<^verbatim>\<open>pushcli\<close>.
\<close>

definition settle :: "'z machine_scheme \<Rightarrow> 'z machine_scheme" where
  "settle s = set_cpu (\<lambda>c. if ncli c = 0 then c\<lparr>intena := iflag c\<rparr> else c) s"

lemmas machine_defs = cpu_def set_cpu_def set_lock_def

lemma acquire_free:
  "locked (locks s L) = 0 \<Longrightarrow> acquire L s = Ok () (acq L s)"
  by (simp add: acquire_def acquire_begin_def xchg_lock_def acquire_end_def acq_def holding_def
      pushcli_def machine_defs Let_def)

lemma acquire_held_self:
  "holding L s \<Longrightarrow> acquire L s = Panic ''acquire''"
  by (simp add: acquire_def acquire_begin_def holding_def pushcli_def machine_defs Let_def)

lemma acquire_held_other:
  "\<lbrakk>locked (locks s L) \<noteq> 0; lcpu (locks s L) \<noteq> Some (cur s)\<rbrakk> \<Longrightarrow> acquire L s = Spin"
  by (simp add: acquire_def acquire_begin_def xchg_lock_def holding_def pushcli_def
      machine_defs Let_def)

lemma release_held:
  assumes "holding L s" "\<not> iflag (cpu s)" "1 \<le> ncli (cpu s)"
  shows "release L s = Ok () (rel L s)"
  using assms
  by (auto simp: release_def release_begin_def release_unlock_def rel_def popcli_def holding_def
      machine_defs Let_def intro!: machine.equality cpu.equality ext split: if_splits)

lemma release_not_held: "\<not> holding L s \<Longrightarrow> release L s = Panic ''release''"
  by (simp add: release_def release_begin_def)

lemma holding_acq [simp]: "holding L (acq L s)"
  by (simp add: holding_def acq_def pushcli_def machine_defs Let_def)

lemma acq_cpu [simp]:
  "iflag (cpu (acq L s)) = False"
  "ncli (cpu (acq L s)) = ncli (cpu s) + 1"
  "intena (cpu (acq L s)) = (if ncli (cpu s) = 0 then iflag (cpu s) else intena (cpu s))"
  "cpu_proc (cpu (acq L s)) = cpu_proc (cpu s)"
  "cur (acq L s) = cur s"
  by (simp_all add: acq_def pushcli_def machine_defs Let_def)

lemma locks_acq [simp]:
  "locks (acq L s) = (locks s)(L := (locks s L)\<lparr>locked := 1, lcpu := Some (cur s)\<rparr>)"
  by (simp add: acq_def pushcli_def machine_defs Let_def)

lemma settle_locks [simp]: "locks (settle s) = locks s" "cur (settle s) = cur s"
  by (simp_all add: settle_def machine_defs)

lemma settle_cpu [simp]:
  "ncli (cpu (settle s)) = ncli (cpu s)"
  "iflag (cpu (settle s)) = iflag (cpu s)"
  "cpu_proc (cpu (settle s)) = cpu_proc (cpu s)"
  by (simp_all add: settle_def machine_defs)

lemma settle_settle [simp]: "settle (settle s) = settle s"
  by (simp add: settle_def machine_defs)

lemma rel_acq:
  assumes "free_lock (locks s L)" "iflag (cpu s) \<longrightarrow> ncli (cpu s) = 0" "0 \<le> ncli (cpu s)"
  shows "rel L (acq L s) = settle s"
  using assms
  by (auto simp: rel_def acq_def settle_def pushcli_def machine_defs free_lock_def Let_def
      intro!: machine.equality cpu.equality spinlock.equality ext split: if_splits)

text \<open>
  The lock is free and the interrupt bookkeeping consistent: a critical section on the lock
  will be entered at once and left without panicking, whatever it does to the rest of the state.
\<close>

definition ready :: "lock_id \<Rightarrow> 'z machine_scheme \<Rightarrow> bool" where
  "ready L s \<longleftrightarrow> free_lock (locks s L) \<and> 0 \<le> ncli (cpu s) \<and> (iflag (cpu s) \<longrightarrow> ncli (cpu s) = 0)"

lemma acquire_ready: "ready L s \<Longrightarrow> acquire L s = Ok () (acq L s)"
  by (simp add: acquire_free ready_def free_lock_def)

lemmas acq_defs = acq_def pushcli_def set_cpu_def set_lock_def Let_def

lemma acq_upd: obtains c l where "acq L s = s\<lparr>cpus := c, locks := l\<rparr>"
  by (simp add: acq_defs)

text \<open>The state \<^term>\<open>t\<close> after leaving a critical section that was entered in \<^term>\<open>s\<close>.\<close>

definition settled :: "'z machine_scheme \<Rightarrow> 'z machine_scheme \<Rightarrow> 'z machine_scheme" where
  "settled s t = t\<lparr>cpus := cpus (settle s), locks := locks s\<rparr>"

lemma release_section:
  assumes "ready L s" "locks t = locks (acq L s)" "cpus t = cpus (acq L s)" "cur t = cur s"
  shows "release L t = Ok () (settled s t)"
proof -
  have c: "cpu t = cpu (acq L s)" using assms acq_cpu(5) [of L s] by (simp add: cpu_def)
  have "release L t = Ok () (rel L t)"
    using assms holding_acq [of L s] by (intro release_held) (simp_all add: c holding_def ready_def)
  moreover have "rel L t = t\<lparr>cpus := cpus (rel L (acq L s)), locks := locks (rel L (acq L s))\<rparr>"
    using assms acq_cpu(5) [of L s] by (simp add: rel_def machine_defs)
  moreover have "rel L (acq L s) = settle s"
    using assms(1) by (intro rel_acq) (simp_all add: ready_def)
  ultimately show ?thesis by (simp add: settled_def)
qed

lemma ready_settled [simp]: "cur t = cur s \<Longrightarrow> ready L (settled s t) = ready L s"
  using settle_cpu [of s] settle_locks [of s] by (simp add: ready_def cpu_def settled_def)

lemma settled_sel [simp]:
  "locks (settled s t) = locks s" "cur (settled s t) = cur t"
  "cur t = cur s \<Longrightarrow> cpu_proc (cpu (settled s t)) = cpu_proc (cpu s)"
  using settle_cpu(3) [of s] by (simp_all add: settled_def cpu_def)

section \<open>Nesting of interrupt disabling\<close>

fun popn :: "nat \<Rightarrow> 'z machine_scheme \<Rightarrow> (unit, 'z machine_scheme) res" where
  "popn 0 s = Ok () s"
| "popn (Suc n) s = bind (popcli s) (\<lambda>_. popn n)"

lemma pushcli_iterate:
  assumes "0 \<le> ncli (cpu s)"
  shows "(pushcli ^^ Suc n) s = set_cpu (\<lambda>c. c\<lparr>iflag := False,
     intena := (if ncli c = 0 then iflag c else intena c), ncli := ncli c + 1 + int n\<rparr>) s"
proof (induction n)
  case 0
  show ?case
    by (auto simp: pushcli_def machine_defs Let_def intro!: machine.equality cpu.equality ext)
next
  case (Suc n)
  have "(pushcli ^^ Suc (Suc n)) s = pushcli ((pushcli ^^ Suc n) s)"
    by simp
  also have "\<dots> = set_cpu (\<lambda>c. c\<lparr>iflag := False,
     intena := (if ncli c = 0 then iflag c else intena c), ncli := ncli c + 1 + int (Suc n)\<rparr>) s"
    unfolding Suc.IH using assms
    by (auto simp: pushcli_def machine_defs Let_def intro!: machine.equality cpu.equality ext)
  finally show ?case .
qed

lemma popn_lower:
  assumes "\<not> iflag (cpu s)" "int n \<le> ncli (cpu s)" "0 < n"
  shows "popn n s = Ok () (set_cpu (\<lambda>c. c\<lparr>ncli := ncli c - int n,
     iflag := ncli c = int n \<and> intena c\<rparr>) s)"
  using assms
proof (induction n arbitrary: s)
  case (Suc n)
  show ?case
  proof (cases "n = 0")
    case True
    with Suc.prems show ?thesis
      by (auto simp: popcli_def machine_defs Let_def intro!: machine.equality cpu.equality ext)
  next
    case False
    let ?s = "set_cpu (\<lambda>c. c\<lparr>ncli := ncli c - 1\<rparr>) s"
    from False Suc.prems have step: "popcli s = Ok () ?s"
      by (auto simp: popcli_def machine_defs Let_def)
    from False Suc.prems have "popn n ?s = Ok () (set_cpu (\<lambda>c. c\<lparr>ncli := ncli c - int n,
        iflag := ncli c = int n \<and> intena c\<rparr>) ?s)"
      by (intro Suc.IH) (auto simp: machine_defs)
    with step show ?thesis
      by (auto simp: machine_defs intro!: machine.equality cpu.equality ext)
  qed
qed simp

section \<open>The lock protocol of several CPUs\<close>

datatype lock_pc = Idle | Trying | Got | Critical | Releasing | Unlocked

record lock_sys =
  mach :: machine
  pcs :: "nat \<Rightarrow> lock_pc"

definition on :: "nat \<Rightarrow> 'z machine_scheme \<Rightarrow> 'z machine_scheme" where
  "on i s = s\<lparr>cur := i\<rparr>"

text \<open>
  One step is one memory operation of one CPU: \<^verbatim>\<open>acquire\<close> and \<^verbatim>\<open>release\<close> in the
  pieces above, or an interrupt flag change of a CPU that is outside both.
\<close>

inductive lock_step :: "lock_id \<Rightarrow> lock_sys \<Rightarrow> lock_sys \<Rightarrow> bool" for L where
  begin_acquire: "\<lbrakk>pcs S i = Idle; acquire_begin L (on i (mach S)) = Ok () m\<rbrakk>
    \<Longrightarrow> lock_step L S \<lparr>mach = m, pcs = (pcs S)(i := Trying)\<rparr>"
| spin: "\<lbrakk>pcs S i = Trying; xchg_lock L 1 (on i (mach S)) = (old, m); old \<noteq> 0\<rbrakk>
    \<Longrightarrow> lock_step L S \<lparr>mach = m, pcs = pcs S\<rparr>"
| win: "\<lbrakk>pcs S i = Trying; xchg_lock L 1 (on i (mach S)) = (0, m)\<rbrakk>
    \<Longrightarrow> lock_step L S \<lparr>mach = m, pcs = (pcs S)(i := Got)\<rparr>"
| record_owner: "pcs S i = Got
    \<Longrightarrow> lock_step L S \<lparr>mach = acquire_end L (on i (mach S)), pcs = (pcs S)(i := Critical)\<rparr>"
| begin_release: "\<lbrakk>pcs S i = Critical; release_begin L (on i (mach S)) = Ok () m\<rbrakk>
    \<Longrightarrow> lock_step L S \<lparr>mach = m, pcs = (pcs S)(i := Releasing)\<rparr>"
| unlock: "pcs S i = Releasing
    \<Longrightarrow> lock_step L S \<lparr>mach = release_unlock L (on i (mach S)), pcs = (pcs S)(i := Unlocked)\<rparr>"
| end_release: "\<lbrakk>pcs S i = Unlocked; popcli (on i (mach S)) = Ok () m\<rbrakk>
    \<Longrightarrow> lock_step L S \<lparr>mach = m, pcs = (pcs S)(i := Idle)\<rparr>"
| set_iflag: "\<lbrakk>pcs S i = Idle; ncli (cpus (mach S) i) = 0\<rbrakk>
    \<Longrightarrow> lock_step L S \<lparr>mach = set_cpu (\<lambda>c. c\<lparr>iflag := b\<rparr>) (on i (mach S)), pcs = pcs S\<rparr>"

definition lock_start :: "lock_id \<Rightarrow> lock_sys \<Rightarrow> bool" where
  "lock_start L S \<longleftrightarrow> free_lock (locks (mach S) L) \<and> (\<forall>i. pcs S i = Idle) \<and>
     (\<forall>i. 0 \<le> ncli (cpus (mach S) i) \<and> (iflag (cpus (mach S) i) \<longrightarrow> ncli (cpus (mach S) i) = 0))"

inductive lock_reachable :: "lock_id \<Rightarrow> lock_sys \<Rightarrow> bool" for L where
  start: "lock_start L S \<Longrightarrow> lock_reachable L S"
| step: "\<lbrakk>lock_reachable L S; lock_step L S S'\<rbrakk> \<Longrightarrow> lock_reachable L S'"

definition owns :: "lock_pc \<Rightarrow> bool" where
  "owns c \<longleftrightarrow> c = Got \<or> c = Critical \<or> c = Releasing"

text \<open>
  The invariant, with the owner as a witness: the lock word is set exactly while
  there is an owner, the owner is the one CPU between its successful \<^verbatim>\<open>xchg\<close> and its
  unlock, the recorded CPU is the one inside its critical section, and a CPU inside
  the protocol has interrupts off with its nesting depth counted.
\<close>

definition lock_inv :: "lock_id \<Rightarrow> lock_sys \<Rightarrow> nat option \<Rightarrow> bool" where
  "lock_inv L S h \<longleftrightarrow>
     (locked (locks (mach S) L) \<noteq> 0 \<longleftrightarrow> h \<noteq> None) \<and>
     (\<forall>i. owns (pcs S i) \<longleftrightarrow> h = Some i) \<and>
     (\<forall>i. lcpu (locks (mach S) L) = Some i \<longleftrightarrow> pcs S i = Critical) \<and>
     (\<forall>i. 0 \<le> ncli (cpus (mach S) i)) \<and>
     (\<forall>i. iflag (cpus (mach S) i) \<longrightarrow> ncli (cpus (mach S) i) = 0) \<and>
     (\<forall>i. pcs S i \<noteq> Idle \<longrightarrow> 1 \<le> ncli (cpus (mach S) i))"

lemma owns_simps [simp]:
  "\<not> owns Idle" "\<not> owns Trying" "owns Got" "owns Critical" "owns Releasing" "\<not> owns Unlocked"
  by (simp_all add: owns_def)

lemmas lock_step_defs = lock_inv_def acquire_begin_def xchg_lock_def acquire_end_def
  release_begin_def release_unlock_def popcli_def pushcli_def on_def machine_defs Let_def

lemma lock_start_inv: "lock_start L S \<Longrightarrow> lock_inv L S None"
  by (auto simp: lock_start_def lock_inv_def free_lock_def)

lemma lock_inv_owner: "lock_inv L S h \<Longrightarrow> h = Some i \<longleftrightarrow> owns (pcs S i)"
  by (simp add: lock_inv_def)

lemma lock_step_inv: "lock_step L S S' \<Longrightarrow> lock_inv L S h \<Longrightarrow> \<exists>h. lock_inv L S' h"
proof (induction rule: lock_step.induct)
  case (begin_acquire S i m)
  with lock_inv_owner [of L S h i] have "lock_inv L \<lparr>mach = m, pcs = (pcs S)(i := Trying)\<rparr> h"
    by (auto simp: lock_step_defs split: if_splits)
  then show ?case ..
next
  case (spin S i old m)
  with lock_inv_owner [of L S h i] have "lock_inv L \<lparr>mach = m, pcs = pcs S\<rparr> h"
    by (auto simp: lock_step_defs)
  then show ?case ..
next
  case (win S i m)
  with lock_inv_owner [of L S h i] have "lock_inv L \<lparr>mach = m, pcs = (pcs S)(i := Got)\<rparr> (Some i)"
    by (auto simp: lock_step_defs)
  then show ?case ..
next
  case (record_owner S i)
  with lock_inv_owner [of L S h i] have "lock_inv L \<lparr>mach = acquire_end L (on i (mach S)),
      pcs = (pcs S)(i := Critical)\<rparr> (Some i)"
    by (auto simp: lock_step_defs)
  then show ?case ..
next
  case (begin_release S i m)
  with lock_inv_owner [of L S h i] have "lock_inv L \<lparr>mach = m, pcs = (pcs S)(i := Releasing)\<rparr> (Some i)"
    by (auto simp: lock_step_defs split: if_splits)
  then show ?case ..
next
  case (unlock S i)
  with lock_inv_owner [of L S h i] have "lock_inv L \<lparr>mach = release_unlock L (on i (mach S)),
      pcs = (pcs S)(i := Unlocked)\<rparr> None"
    by (auto simp: lock_step_defs)
  then show ?case ..
next
  case (end_release S i m)
  with lock_inv_owner [of L S h i] have "lock_inv L \<lparr>mach = m, pcs = (pcs S)(i := Idle)\<rparr> h"
    by (auto simp: lock_step_defs split: if_splits)
  then show ?case ..
next
  case (set_iflag S i b)
  with lock_inv_owner [of L S h i] have "lock_inv L \<lparr>mach = set_cpu (\<lambda>c. c\<lparr>iflag := b\<rparr>) (on i (mach S)), pcs = pcs S\<rparr> h"
    by (auto simp: lock_step_defs)
  then show ?case ..
qed

lemma lock_reachable_inv: "lock_reachable L S \<Longrightarrow> \<exists>h. lock_inv L S h"
  by (induction rule: lock_reachable.induct) (auto intro: lock_start_inv lock_step_inv)

section \<open>Properties\<close>

text \<open>C11. Mutual exclusion: in every state that the CPUs can reach by interleaving the
  memory operations of \<^verbatim>\<open>acquire\<close> and \<^verbatim>\<open>release\<close> on one lock, at most one CPU is
  between its winning \<^verbatim>\<open>xchg\<close> and its unlocking store.\<close>

theorem lock_mutual_exclusion:
  assumes "lock_reachable L S" "owns (pcs S i)" "owns (pcs S j)"
  shows "i = j"
proof -
  obtain h where "lock_inv L S h"
    using lock_reachable_inv [OF assms(1)] ..
  with assms(2,3) have "h = Some i" "h = Some j"
    by (simp_all add: lock_inv_owner)
  then show ?thesis by simp
qed

definition idle_cpu :: cpu where
  "idle_cpu = \<lparr>ncli = 0, intena = False, iflag = True, cpu_proc = None, cr3 = 0, ts_esp0 = 0\<rparr>"

definition boot_machine :: machine where
  "boot_machine = \<lparr>cpus = (\<lambda>_. idle_cpu), cur = 0,
     locks = (\<lambda>_. \<lparr>locked = 0, lname = [], lcpu = None\<rparr>)\<rparr>"

definition one_owner :: lock_sys where
  "one_owner = \<lparr>mach = set_lock KmemLock (\<lambda>l. l\<lparr>locked := 1\<rparr>) (pushcli (on 2 boot_machine)),
     pcs = (\<lambda>_. Idle)(2 := Got)\<rparr>"

lemma one_owner_reachable: "lock_reachable KmemLock one_owner"
proof -
  let ?m = "pushcli (on 2 boot_machine)"
  let ?S = "\<lparr>mach = boot_machine, pcs = \<lambda>_. Idle\<rparr>"
  let ?T = "\<lparr>mach = ?m, pcs = (pcs ?S)(2 := Trying)\<rparr>"
  have "lock_reachable KmemLock ?S"
    by (rule lock_reachable.start)
       (simp add: lock_start_def boot_machine_def idle_cpu_def free_lock_def)
  moreover have "lock_step KmemLock ?S ?T"
    by (rule lock_step.begin_acquire [of ?S 2])
       (simp_all add: lock_step_defs holding_def boot_machine_def)
  moreover have "lock_step KmemLock ?T one_owner"
  proof -
    have "lock_step KmemLock ?T \<lparr>mach = set_lock KmemLock (\<lambda>l. l\<lparr>locked := 1\<rparr>) (on 2 ?m),
        pcs = (pcs ?T)(2 := Got)\<rparr>"
      by (rule lock_step.win)
         (simp_all add: lock_step_defs boot_machine_def idle_cpu_def)
    moreover have "on 2 ?m = ?m"
      by (simp add: on_def pushcli_def machine_defs)
    ultimately show ?thesis
      by (simp add: one_owner_def)
  qed
  ultimately show ?thesis
    by (meson lock_reachable.step)
qed

theorem lock_mutual_exclusion_witness:
  "owns (pcs one_owner 2) \<and> (2::nat) = 2"
  using lock_mutual_exclusion [OF one_owner_reachable, of 2 2] by (simp add: one_owner_def)

text \<open>C12. No panic inside the protocol: in a reachable state no CPU that is about to
  take the lock trips the recursion check, the CPU in its critical section passes the
  ownership check of \<^verbatim>\<open>release\<close>, and the matching \<^verbatim>\<open>popcli\<close> neither finds interrupts
  on nor underflows.\<close>

theorem lock_protocol_no_panic:
  assumes "lock_reachable L S"
  shows "(pcs S i = Idle \<longrightarrow> returns (acquire_begin L (on i (mach S)))) \<and>
    (pcs S i = Critical \<longrightarrow> returns (release_begin L (on i (mach S)))) \<and>
    (pcs S i = Unlocked \<longrightarrow> returns (popcli (on i (mach S))))"
proof -
  obtain h where inv: "lock_inv L S h"
    using lock_reachable_inv [OF assms] ..
  from inv lock_inv_owner [OF inv, of i] have
    "pcs S i = Idle \<Longrightarrow> \<not> holding L (pushcli (on i (mach S)))"
    by (auto simp: lock_step_defs holding_def)
  moreover from inv lock_inv_owner [OF inv, of i] have
    "pcs S i = Critical \<Longrightarrow> holding L (on i (mach S))"
    by (auto simp: lock_inv_def holding_def on_def)
  moreover have "returns (popcli (on i (mach S)))" if u: "pcs S i = Unlocked"
  proof -
    have "1 \<le> ncli (cpus (mach S) i)" "iflag (cpus (mach S) i) \<longrightarrow> ncli (cpus (mach S) i) = 0"
      using inv u by (simp_all add: lock_inv_def)
    then show ?thesis
      by (auto simp: popcli_def on_def machine_defs Let_def)
  qed
  ultimately show ?thesis
    by (simp add: acquire_begin_def release_begin_def Let_def)
qed

theorem lock_protocol_no_panic_witness:
  "returns (acquire_begin KmemLock (on 0 (mach one_owner)))"
  using lock_protocol_no_panic [OF one_owner_reachable, of 0] by (simp add: one_owner_def)



end
