(* ===== verification/Cstring.thy ===== *)
theory Cstring
  imports Prelude
begin

text \<open>
  The string library of the kernel (\<^verbatim>\<open>string.c\<close>). The memory routines work on
  byte-addressed memory and are compared with one-line specifications; overlapping
  moves and the word-filling fast path of \<^verbatim>\<open>memset\<close> are where they could go wrong.
  The string routines work on byte arrays: a \<^verbatim>\<open>char*\<close> is the rest of its array, and
  a read at the end of a list is the terminating NUL.
\<close>

section \<open>Memory routines\<close>

text \<open>The string instructions of \<^verbatim>\<open>x86.h\<close> that \<^verbatim>\<open>memset\<close> uses.\<close>

fun stosb :: "memory \<Rightarrow> u32 \<Rightarrow> u8 \<Rightarrow> nat \<Rightarrow> memory" where
  "stosb m d c 0 = m"
| "stosb m d c (Suc n) = stosb (m(d := c)) (d + 1) c n"

fun stosl :: "memory \<Rightarrow> u32 \<Rightarrow> u32 \<Rightarrow> nat \<Rightarrow> memory" where
  "stosl m d v 0 = m"
| "stosl m d v (Suc n) = stosl (st32 m d v) (d + 4) v n"

definition memset :: "memory \<Rightarrow> u32 \<Rightarrow> u32 \<Rightarrow> u32 \<Rightarrow> memory" where
  "memset m dst c n =
     (if dst mod 4 = 0 \<and> n mod 4 = 0 then
        let c = c AND 0xFF in
        stosl m dst (push_bit 24 c OR push_bit 16 c OR push_bit 8 c OR c) (unat (n div 4))
      else stosb m dst (ucast c) (unat n))"

fun memcmp :: "memory \<Rightarrow> u32 \<Rightarrow> u32 \<Rightarrow> nat \<Rightarrow> int" where
  "memcmp m s1 s2 0 = 0"
| "memcmp m s1 s2 (Suc n) =
     (if m s1 \<noteq> m s2 then uint (m s1) - uint (m s2) else memcmp m (s1 + 1) (s2 + 1) n)"

fun copy_up :: "memory \<Rightarrow> u32 \<Rightarrow> u32 \<Rightarrow> nat \<Rightarrow> memory" where
  "copy_up m d s 0 = m"
| "copy_up m d s (Suc n) = copy_up (m(d := m s)) (d + 1) (s + 1) n"

fun copy_down :: "memory \<Rightarrow> u32 \<Rightarrow> u32 \<Rightarrow> nat \<Rightarrow> memory" where
  "copy_down m d s 0 = m"
| "copy_down m d s (Suc n) = copy_down (m(d - 1 := m (s - 1))) (d - 1) (s - 1) n"

definition memmove :: "memory \<Rightarrow> u32 \<Rightarrow> u32 \<Rightarrow> u32 \<Rightarrow> memory" where
  "memmove m dst src n =
     (if src < dst \<and> src + n > dst then copy_down m (dst + n) (src + n) (unat n)
      else copy_up m dst src (unat n))"

text \<open>Whole byte arrays: what lies at an address, and storing an array there.\<close>

definition get :: "memory \<Rightarrow> u32 \<Rightarrow> nat \<Rightarrow> u8 list" where
  "get m a n = map (\<lambda>i. m (a + of_nat i)) [0..<n]"

fun put :: "memory \<Rightarrow> u32 \<Rightarrow> u8 list \<Rightarrow> memory" where
  "put m a [] = m"
| "put m a (b # bs) = put (m(a := b)) (a + 1) bs"

section \<open>String routines\<close>

definition deref :: "u8 list \<Rightarrow> u8" where
  "deref p = (case p of [] \<Rightarrow> 0 | c # _ \<Rightarrow> c)"

fun strncmp :: "u8 list \<Rightarrow> u8 list \<Rightarrow> nat \<Rightarrow> int" where
  "strncmp p q 0 = 0"
| "strncmp p q (Suc n) =
     (if deref p \<noteq> 0 \<and> deref p = deref q then strncmp (tl p) (tl q) n
      else uint (deref p) - uint (deref q))"

fun zero_fill :: "u8 list \<Rightarrow> nat \<Rightarrow> u8 list" where
  "zero_fill (x # s) (Suc n) = 0 # zero_fill s n"
| "zero_fill s n = s"

fun strncpy :: "u8 list \<Rightarrow> u8 list \<Rightarrow> nat \<Rightarrow> u8 list" where
  "strncpy (x # s) t (Suc n) =
     (let c = deref t in c # (if c \<noteq> 0 then strncpy s (tl t) n else zero_fill s n))"
| "strncpy s t n = s"

fun safestrcpy_loop :: "u8 list \<Rightarrow> u8 list \<Rightarrow> nat \<Rightarrow> u8 list" where
  "safestrcpy_loop s t 0 = zero_fill s 1"
| "safestrcpy_loop (x # s) t (Suc n) =
     (let c = deref t in
      c # (if c \<noteq> 0 then safestrcpy_loop s (tl t) n else zero_fill s 1))"
| "safestrcpy_loop [] t (Suc n) = []"

definition safestrcpy :: "u8 list \<Rightarrow> u8 list \<Rightarrow> nat \<Rightarrow> u8 list" where
  "safestrcpy s t n = (if n = 0 then s else safestrcpy_loop s t (n - 1))"

fun strlen :: "u8 list \<Rightarrow> nat" where
  "strlen [] = 0"
| "strlen (c # s) = (if c = 0 then 0 else Suc (strlen s))"

section \<open>Distances on the address ring\<close>

lemma dist_step:
  fixes a d :: u32
  assumes "n < 2 ^ 32"
  shows "unat (a - d) < Suc n \<longleftrightarrow> a = d \<or> unat (a - (d + 1)) < n"
proof (cases "a = d")
  case False
  then have "unat (a - d - 1) = unat (a - d) - 1" "0 < unat (a - d)"
    by (simp_all add: unat_pred unat_gt_0)
  moreover have eq: "a - (d + 1) = a - d - 1"
    by (simp add: algebra_simps)
  ultimately show ?thesis unfolding eq using False by auto
qed simp

lemma dist_end:
  fixes a d n :: u32
  shows "d + n - 1 - a < n \<longleftrightarrow> a - d < n"
proof -
  have *: "n - 1 - x < n" if "x < n" for x n :: u32
    using that by unat_arith
  have "d + n - 1 - a = n - 1 - (a - d)" "a - d = n - 1 - (d + n - 1 - a)"
    by (simp_all add: algebra_simps)
  then show ?thesis using * by metis
qed

section \<open>Filling\<close>

definition mem_fill :: "memory \<Rightarrow> u32 \<Rightarrow> u8 \<Rightarrow> u32 \<Rightarrow> memory" where
  "mem_fill m dst c n = (\<lambda>a. if a - dst < n then c else m a)"

lemma stosb_eq:
  "n < 2 ^ 32 \<Longrightarrow> stosb m d c n = (\<lambda>a. if unat (a - d) < n then c else m a)"
proof (induction n arbitrary: m d)
  case (Suc n)
  then have "stosb m d c (Suc n) =
      (\<lambda>a. if unat (a - (d + 1)) < n then c else (m(d := c)) a)"
    by simp
  also have "\<dots> = (\<lambda>a. if unat (a - d) < Suc n then c else m a)"
    using Suc.prems by (auto simp: dist_step fun_eq_iff)
  finally show ?case .
qed simp

lemma stosl_stosb:
  "stosl m d v n = stosb m d c (4 * n)" if "\<And>m a. st32 m a v = m(a := c, a + 1 := c, a + 2 := c, a + 3 := c)"
proof (induction n arbitrary: m d)
  case (Suc n)
  have "stosb m d c (4 * Suc n) = stosb (st32 m d v) (d + 4) c (4 * n)"
    by (simp add: that numeral_eq_Suc add.assoc)
  with Suc.IH show ?case by simp
qed simp

lemma st32_spread:
  fixes c :: u32
  defines "v \<equiv> push_bit 24 (c AND 0xFF) OR push_bit 16 (c AND 0xFF) OR push_bit 8 (c AND 0xFF) OR (c AND 0xFF)"
  shows "st32 m a v = m(a := ucast c, a + 1 := ucast c, a + 2 := ucast c, a + 3 := ucast c)"
proof -
  have mask: "(0xFF :: u32) = mask 8" by (simp add: mask_eq_exp_minus_1)
  have "ucast v = (ucast c :: u8)" "ucast (drop_bit 8 v) = (ucast c :: u8)"
    "ucast (drop_bit 16 v) = (ucast c :: u8)" "ucast (drop_bit 24 v) = (ucast c :: u8)"
    unfolding v_def mask by (auto intro!: bit_word_eqI simp: bit_simps)
  then show ?thesis by (simp add: st32_def)
qed

section \<open>Copying\<close>

lemma copy_up_eq:
  assumes "n < 2 ^ 32" "\<And>i. 0 < i \<Longrightarrow> i < n \<Longrightarrow> s + of_nat i \<noteq> d"
  shows "copy_up m d s n = (\<lambda>a. if unat (a - d) < n then m (s + (a - d)) else m a)"
  using assms
proof (induction n arbitrary: m d s)
  case (Suc n)
  have "s + 1 + of_nat i \<noteq> d + 1" if "0 < i" "i < n" for i
    using Suc.prems(2) [of i] that by (simp add: algebra_simps)
  with Suc have "copy_up m d s (Suc n) =
      (\<lambda>a. if unat (a - (d + 1)) < n then (m(d := m s)) (s + 1 + (a - (d + 1))) else (m(d := m s)) a)"
    by simp
  also have "\<dots> = (\<lambda>a. if unat (a - d) < Suc n then m (s + (a - d)) else m a)"
  proof (rule ext)
    fix a
    have shift: "s + 1 + (a - (d + 1)) = s + (a - d)"
      by (simp add: algebra_simps)
    have "s + (a - d) \<noteq> d" if "a \<noteq> d" "unat (a - d) < Suc n"
      using Suc.prems(2) [of "unat (a - d)"] that by (simp add: unat_gt_0)
    then show "(if unat (a - (d + 1)) < n then (m(d := m s)) (s + 1 + (a - (d + 1)))
        else (m(d := m s)) a) = (if unat (a - d) < Suc n then m (s + (a - d)) else m a)"
      using Suc.prems(1) dist_step [of n a d] unfolding shift by (cases "a = d") auto
  qed
  finally show ?case .
qed simp

lemma copy_down_eq:
  assumes "n < 2 ^ 32" "\<And>i. 0 < i \<Longrightarrow> i < n \<Longrightarrow> s - of_nat i \<noteq> d"
  shows "copy_down m d s n = (\<lambda>a. if unat (d - 1 - a) < n then m (s - (d - a)) else m a)"
  using assms
proof (induction n arbitrary: m d s)
  case (Suc n)
  have "s - 1 - of_nat i \<noteq> d - 1" if "0 < i" "i < n" for i
    using Suc.prems(2) [of i] that by (simp add: algebra_simps)
  with Suc have "copy_down m d s (Suc n) =
      (\<lambda>a. if unat (d - 1 - 1 - a) < n then (m(d - 1 := m (s - 1))) (s - 1 - (d - 1 - a))
         else (m(d - 1 := m (s - 1))) a)"
    by simp
  also have "\<dots> = (\<lambda>a. if unat (d - 1 - a) < Suc n then m (s - (d - a)) else m a)"
  proof (rule ext)
    fix a
    have shift: "s - 1 - (d - 1 - a) = s - (d - a)" "d - 1 - 1 - a = d - 1 - (a + 1)"
      by (simp_all add: algebra_simps)
    have "s - (d - a) \<noteq> d - 1" if "a \<noteq> d - 1" "unat (d - 1 - a) < Suc n"
    proof -
      have "0 < unat (d - 1 - a)" using that by (simp add: unat_gt_0)
      with Suc.prems(2) [of "unat (d - 1 - a)"] that show ?thesis
        by (auto simp: algebra_simps)
    qed
    then show "(if unat (d - 1 - 1 - a) < n then (m(d - 1 := m (s - 1))) (s - 1 - (d - 1 - a))
         else (m(d - 1 := m (s - 1))) a) = (if unat (d - 1 - a) < Suc n then m (s - (d - a)) else m a)"
      using Suc.prems(1) dist_step [of n "d - 1" a] unfolding shift by (cases "a = d - 1") auto
  qed
  finally show ?case .
qed simp

definition mem_copy :: "memory \<Rightarrow> u32 \<Rightarrow> u32 \<Rightarrow> u32 \<Rightarrow> memory" where
  "mem_copy m dst src n = (\<lambda>a. if a - dst < n then m (src + (a - dst)) else m a)"

text \<open>The descending copy never reads a byte it has already written, nor does the ascending one.\<close>

lemma copy_down_apart:
  fixes src :: u32
  assumes "unat src + unat n < 2 ^ 32" "unat dst + unat n < 2 ^ 32"
    and "src < dst" "src + n > dst" "0 < i" "i < unat n"
  shows "src + n - of_nat i \<noteq> dst + n"
proof
  assume "src + n - of_nat i = dst + n"
  then have "src - dst = of_nat i" by (simp add: algebra_simps)
  moreover have "unat (of_nat i :: u32) = i"
    using assms u32_bound [of n] by (simp add: unat_of_nat_u32)
  ultimately have "unat (src - dst) = i" by simp
  moreover have "unat src < unat dst" using assms by (simp add: word_less_nat_alt)
  ultimately show False using unat_dist_gt [of src dst] assms by simp
qed

lemma copy_up_apart:
  fixes src :: u32
  assumes "unat src + unat n < 2 ^ 32"
    and "\<not> (src < dst \<and> src + n > dst)" "0 < i" "i < unat n"
  shows "src + of_nat i \<noteq> dst"
proof
  assume "src + of_nat i = dst"
  then have d: "dst - src = of_nat i" by (simp add: algebra_simps)
  have oi: "unat (of_nat i :: u32) = i"
    using assms u32_bound [of n] by (simp add: unat_of_nat_u32)
  show False
  proof (cases "src < dst")
    case True
    then have "unat (dst - src) = unat dst - unat src" by (simp add: dist_of_le)
    moreover have "unat (src + n) \<le> unat dst"
      using assms(2) True by (simp add: word_le_nat_alt [symmetric] not_less)
    moreover have "unat (dst - src) = i" unfolding d by (rule oi)
    ultimately show False
      using assms by (simp add: unat_plus_nowrap)
  next
    case False
    with assms oi d have "dst < src" by (metis neqE order_less_irrefl right_minus_eq unat_0)
    then have "unat (dst - src) = 2 ^ 32 + unat dst - unat src" by (rule unat_dist_gt)
    moreover have "unat (dst - src) = i" unfolding d by (rule oi)
    ultimately show False using assms by simp
  qed
qed

lemma memmove_eq:
  assumes "unat src + unat n < 2 ^ 32" "unat dst + unat n < 2 ^ 32"
  shows "memmove m dst src n = mem_copy m dst src n"
proof (cases "src < dst \<and> src + n > dst")
  case True
  have "copy_down m (dst + n) (src + n) (unat n) =
      (\<lambda>a. if unat (dst + n - 1 - a) < unat n then m (src + n - (dst + n - a)) else m a)"
    using u32_bound [of n] copy_down_apart [OF assms] True by (intro copy_down_eq) simp_all
  also have "\<dots> = mem_copy m dst src n"
  proof -
    have eq: "src + n - (dst + n - a) = src + (a - dst)" for a
      by (simp add: algebra_simps)
    show ?thesis
      unfolding mem_copy_def unat_less_iff dist_end eq ..
  qed
  finally show ?thesis using True by (simp add: memmove_def)
next
  case False
  have "copy_up m dst src (unat n) =
      (\<lambda>a. if unat (a - dst) < unat n then m (src + (a - dst)) else m a)"
    using u32_bound [of n] copy_up_apart [OF assms(1) False] by (intro copy_up_eq) simp_all
  then show ?thesis
    unfolding memmove_def if_not_P [OF False] by (simp add: mem_copy_def unat_less_iff)
qed

text \<open>C14. \<^verbatim>\<open>memmove\<close> copies: when neither block wraps around the address space, every byte
  of the destination becomes the byte the source had before the call, also when the
  blocks overlap in either direction, and no other byte changes.\<close>

theorem memmove_copies:
  assumes "unat src + unat n < 2 ^ 32" "unat dst + unat n < 2 ^ 32"
  shows "memmove m dst src n a = (if a - dst < n then m (src + (a - dst)) else m a)"
  by (simp add: memmove_eq [OF assms] mem_copy_def)

theorem memmove_copies_witness:
  "memmove ucast 0x1002 0x1000 8 0x1006 = (4 :: u8)"
  using memmove_copies [where src = "0x1000" and n = 8 and dst = "0x1002" and m = ucast and a = "0x1006"] by simp

lemma memset_eq: "memset m dst c n = mem_fill m dst (ucast c) n"
proof (cases "dst mod 4 = 0 \<and> n mod 4 = 0")
  case True
  have "4 * unat (n div 4) = unat n"
  proof -
    have "unat (n mod 4) = 0" using True by simp
    then have "unat n mod 4 = 0" by (simp add: unat_mod)
    then show ?thesis by (auto simp: unat_div)
  qed
  then have "memset m dst c n = stosb m dst (ucast c) (unat n)"
    using True stosl_stosb [OF st32_spread, of m dst c "unat (n div 4)"]
    by (simp add: memset_def Let_def)
  then show ?thesis
    using u32_bound [of n] by (simp add: stosb_eq mem_fill_def unat_less_iff)
next
  case False
  then show ?thesis
    unfolding memset_def if_not_P [OF False]
    using u32_bound [of n] by (simp add: stosb_eq mem_fill_def unat_less_iff)
qed

text \<open>C15. \<^verbatim>\<open>memset\<close> fills: both its paths, word by word when address and length are
  multiples of four and byte by byte otherwise, set exactly the \<open>n\<close> bytes from \<open>dst\<close>
  to the low byte of \<open>c\<close>.\<close>

theorem memset_fills: "memset m dst c n a = (if a - dst < n then ucast c else m a)"
  by (simp add: memset_eq mem_fill_def)

section \<open>NUL-terminated strings\<close>

text \<open>The string a byte array holds: the bytes before the first NUL.\<close>

definition cstr :: "u8 list \<Rightarrow> u8 list" where
  "cstr p = takeWhile (\<lambda>c. c \<noteq> 0) p"

lemma cstr_simps [simp]: "cstr [] = []" "cstr (c # p) = (if c = 0 then [] else c # cstr p)"
  by (simp_all add: cstr_def)

lemma strlen_eq: "strlen s = length (cstr s)"
  by (induction s) auto

lemma cstr_Nil_iff: "cstr p = [] \<longleftrightarrow> deref p = 0"
  by (cases p) (auto simp: deref_def)

lemma strncmp_eq_0_iff: "strncmp p q n = 0 \<longleftrightarrow> take n (cstr p) = take n (cstr q)"
proof (induction n arbitrary: p q)
  case (Suc n)
  show ?case
    by (cases p; cases q) (auto simp: deref_def Suc.IH unsigned_eq_0_iff word_uint_eq_iff [symmetric])
qed simp

lemma zero_fill_length [simp]: "length (zero_fill s n) = length s"
  by (induction s n rule: zero_fill.induct) auto

lemma zero_fill_eq: "n \<le> length s \<Longrightarrow> zero_fill s n = replicate n 0 @ drop n s"
  by (induction s n rule: zero_fill.induct) auto

lemma strncpy_eq:
  "n \<le> length s \<Longrightarrow> strncpy s t n =
     take n (cstr t) @ replicate (n - length (cstr t)) 0 @ drop n s"
proof (induction s t n rule: strncpy.induct)
  case (1 x s t n)
  then show ?case
    by (cases t) (auto simp: deref_def Let_def zero_fill_eq)
qed auto

lemma safestrcpy_loop_length: "length (safestrcpy_loop s t n) = length s"
  by (induction s t n rule: safestrcpy_loop.induct) (auto simp: Let_def)

lemma safestrcpy_loop_cstr:
  "n < length s \<Longrightarrow> cstr (safestrcpy_loop s t n) = take n (cstr t)"
proof (induction s t n rule: safestrcpy_loop.induct)
  case (1 s t)
  then show ?case by (cases s) auto
next
  case (2 x s t n)
  then show ?case by (cases t) (auto simp: deref_def Let_def)
qed auto

lemma safestrcpy_loop_tail:
  "n < length s \<Longrightarrow> drop (Suc n) (safestrcpy_loop s t n) = drop (Suc n) s"
proof (induction s t n rule: safestrcpy_loop.induct)
  case (1 s t)
  then show ?case by (cases s) auto
next
  case (2 x s t n)
  then show ?case by (cases s; cases n) (auto simp: Let_def)
qed auto

text \<open>C16. \<^verbatim>\<open>safestrcpy\<close> always terminates its copy: into an array with room for \<open>n\<close> bytes it
  writes the first \<open>n - 1\<close> bytes of the source string and a NUL after them, keeps the
  array's length and touches nothing from position \<open>n\<close> on.\<close>

theorem safestrcpy_terminates_copy:
  assumes "0 < n" "n \<le> length s"
  shows "cstr (safestrcpy s t n) = take (n - 1) (cstr t) \<and>
    length (safestrcpy s t n) = length s \<and> drop n (safestrcpy s t n) = drop n s"
  using assms safestrcpy_loop_cstr [of "n - 1" s t] safestrcpy_loop_tail [of "n - 1" s t]
  by (auto simp: safestrcpy_def safestrcpy_loop_length)

theorem safestrcpy_terminates_copy_witness:
  "cstr (safestrcpy [9, 9, 9, 9] [1, 2, 3, 4, 5] 3) = [1, 2]"
  using safestrcpy_terminates_copy [of 3 "[9, 9, 9, 9]" "[1, 2, 3, 4, 5]"] by simp

end
