(* ===== verification/Kalloc.thy ===== *)
theory Kalloc
  imports Spinlock Cstring
begin

text \<open>
  The physical page allocator (\<^verbatim>\<open>kalloc.c\<close>). Free pages are chained through their
  first word; the state extends the machine by the memory that holds them, the head of
  the chain, the flag that says whether the lock is in use yet, and the link-time
  address \<^verbatim>\<open>end\<close> of the first byte after the kernel. The allocator is shown to be a
  stack of distinct pages.
\<close>

section \<open>State and operations\<close>

record kmem_state = machine +
  mem :: memory
  kend :: u32
  use_lock :: bool
  freelist :: u32

definition kmem_acquire :: "'z kmem_state_scheme \<Rightarrow> (unit, 'z kmem_state_scheme) res" where
  "kmem_acquire s = (if use_lock s then acquire KmemLock s else Ok () s)"

definition kmem_release :: "'z kmem_state_scheme \<Rightarrow> (unit, 'z kmem_state_scheme) res" where
  "kmem_release s = (if use_lock s then release KmemLock s else Ok () s)"

definition kfree :: "u32 \<Rightarrow> 'z kmem_state_scheme \<Rightarrow> (unit, 'z kmem_state_scheme) res" where
  "kfree v s =
     (if v mod PGSIZE \<noteq> 0 \<or> v < kend s \<or> V2P v \<ge> PHYSTOP then Panic ''kfree''
      else let s = s\<lparr>mem := memset (mem s) v 1 PGSIZE\<rparr> in
        bind (kmem_acquire s) (\<lambda>_ s.
        let s = s\<lparr>mem := st32 (mem s) v (freelist s)\<rparr>;
            s = s\<lparr>freelist := v\<rparr>
        in kmem_release s))"

definition kalloc :: "'z kmem_state_scheme \<Rightarrow> (u32, 'z kmem_state_scheme) res" where
  "kalloc s =
     bind (kmem_acquire s) (\<lambda>_ s.
     let r = freelist s;
         s = (if r \<noteq> 0 then s\<lparr>freelist := ld32 (mem s) r\<rparr> else s)
     in bind (kmem_release s) (\<lambda>_ s. Ok r s))"

text \<open>
  \<^verbatim>\<open>freerange\<close>: the loop ends because \<^verbatim>\<open>kfree\<close> refuses addresses at or above the top of
  physical memory, long before the pointer could wrap.
\<close>

lemma kfree_range:
  assumes "kfree v s = Ok u s'"
  shows "KERNBASE \<le> v \<and> v < KERNBASE + PHYSTOP"
proof -
  have "v - KERNBASE < PHYSTOP"
    using assms by (auto simp: kfree_def V2P_def not_le split: if_splits)
  then show ?thesis
    by (simp add: KERNBASE_def PHYSTOP_def) (unat_arith; simp)
qed

function freepages :: "u32 \<Rightarrow> u32 \<Rightarrow> 'z kmem_state_scheme \<Rightarrow> (unit, 'z kmem_state_scheme) res" where
  "freepages p vend s =
     (if p + PGSIZE \<le> vend then bind (kfree p s) (\<lambda>_ s. freepages (p + PGSIZE) vend s)
      else Ok () s)"
  by pat_completeness auto
termination
proof (relation "measure (\<lambda>(p, vend, s). unat (0xFFFFFFFF - p))", goal_cases)
  case (2 p vend s u s')
  then have "KERNBASE \<le> p" "p < KERNBASE + PHYSTOP"
    using kfree_range by blast+
  then show ?case
    by (simp add: KERNBASE_def PHYSTOP_def PGSIZE_def) (unat_arith; simp)
qed simp

declare freepages.simps [simp del]

definition freerange :: "u32 \<Rightarrow> u32 \<Rightarrow> 'z kmem_state_scheme \<Rightarrow> (unit, 'z kmem_state_scheme) res" where
  "freerange vstart vend s = freepages (PGROUNDUP vstart) vend s"

definition kinit1 :: "u32 \<Rightarrow> u32 \<Rightarrow> 'z kmem_state_scheme \<Rightarrow> (unit, 'z kmem_state_scheme) res" where
  "kinit1 vstart vend s =
     (let s = initlock KmemLock ''kmem'' s;
          s = s\<lparr>use_lock := False\<rparr>
      in freerange vstart vend s)"

definition kinit2 :: "u32 \<Rightarrow> u32 \<Rightarrow> 'z kmem_state_scheme \<Rightarrow> (unit, 'z kmem_state_scheme) res" where
  "kinit2 vstart vend s =
     bind (freerange vstart vend s) (\<lambda>_ s. Ok () (s\<lparr>use_lock := True\<rparr>))"

section \<open>The interface of a page allocator\<close>

text \<open>
  What clients rely on: a pool of pages, from which a page is taken when there is one
  and 0 returned when there is none, and to which a page outside the pool is given back.
\<close>

locale page_allocator =
  fixes alloc :: "'s \<Rightarrow> (u32, 's) res"
    and free :: "u32 \<Rightarrow> 's \<Rightarrow> (unit, 's) res"
    and pool :: "'s \<Rightarrow> u32 list \<Rightarrow> bool"
    and page :: "'s \<Rightarrow> u32 \<Rightarrow> bool"
  assumes pool_distinct: "pool s xs \<Longrightarrow> distinct xs"
    and pool_page: "pool s xs \<Longrightarrow> x \<in> set xs \<Longrightarrow> page s x"
    and page_not_null: "\<not> page s 0"
    and alloc_empty: "pool s [] \<Longrightarrow> \<exists>s'. alloc s = Ok 0 s' \<and> pool s' [] \<and> page s' = page s"
    and alloc_head: "pool s (x # xs) \<Longrightarrow> \<exists>s'. alloc s = Ok x s' \<and> pool s' xs \<and> page s' = page s"
    and free_page: "pool s xs \<Longrightarrow> page s x \<Longrightarrow> x \<notin> set xs \<Longrightarrow>
      \<exists>s'. free x s = Ok () s' \<and> pool s' (x # xs) \<and> page s' = page s"
begin

fun alloc_many :: "nat \<Rightarrow> 's \<Rightarrow> (u32 list, 's) res" where
  "alloc_many 0 s = Ok [] s"
| "alloc_many (Suc n) s =
     bind (alloc s) (\<lambda>p s. bind (alloc_many n s) (\<lambda>ps s. Ok (p # ps) s))"

fun free_many :: "u32 list \<Rightarrow> 's \<Rightarrow> (unit, 's) res" where
  "free_many [] s = Ok () s"
| "free_many (p # ps) s = bind (free p s) (\<lambda>_ s. free_many ps s)"

lemma alloc_many_take:
  "n \<le> length xs \<Longrightarrow> pool s xs \<Longrightarrow>
    \<exists>s'. alloc_many n s = Ok (take n xs) s' \<and> pool s' (drop n xs) \<and> page s' = page s"
proof (induction n arbitrary: s xs)
  case (Suc n)
  then obtain x ys where xs: "xs = x # ys" by (cases xs) auto
  with Suc.prems alloc_head obtain t where t: "alloc s = Ok x t" "pool t ys" "page t = page s"
    by blast
  with Suc xs obtain t' where "alloc_many n t = Ok (take n ys) t'" "pool t' (drop n ys)"
      "page t' = page t"
    by (metis Suc_le_mono length_Cons)
  with t xs show ?case by auto
qed auto

lemma alloc_not_null:
  assumes "pool s (x # xs)" shows "x \<noteq> 0"
  using pool_page [OF assms, of x] page_not_null by auto

lemma alloc_then_free:
  assumes "pool s (x # xs)"
  shows "\<exists>s'. bind (alloc s) free = Ok () s' \<and> pool s' (x # xs)"
proof -
  from alloc_head [OF assms] obtain t where t: "alloc s = Ok x t" "pool t xs" "page t = page s"
    by blast
  moreover have "page t x" "x \<notin> set xs"
    using pool_page [OF assms, of x] pool_distinct [OF assms] t by simp_all
  ultimately show ?thesis using free_page by fastforce
qed

lemma free_many_pool:
  "\<lbrakk>pool s xs; distinct ps; set ps \<inter> set xs = {}; \<forall>p \<in> set ps. page s p\<rbrakk> \<Longrightarrow>
    \<exists>s'. free_many ps s = Ok () s' \<and> pool s' (rev ps @ xs)"
proof (induction ps arbitrary: s xs)
  case (Cons p ps)
  then have "page s p" "p \<notin> set xs" by auto
  with Cons.prems(1) free_page obtain t where t: "free p s = Ok () t" "pool t (p # xs)" "page t = page s"
    by blast
  have "set ps \<inter> set (p # xs) = {}" "distinct ps" "\<forall>q \<in> set ps. page t q"
    using Cons.prems t(3) by auto
  from Cons.IH [OF t(2) this(2,1,3)] t(1) show ?case by auto
qed simp

end

section \<open>The free list as a list of pages\<close>

text \<open>A chain of free pages in memory, as the list of their addresses.\<close>

fun chain :: "memory \<Rightarrow> u32 \<Rightarrow> u32 list \<Rightarrow> bool" where
  "chain m p [] \<longleftrightarrow> p = 0"
| "chain m p (x # xs) \<longleftrightarrow> p = x \<and> p \<noteq> 0 \<and> chain m (ld32 m x) xs"

definition valid_page :: "'z kmem_state_scheme \<Rightarrow> u32 \<Rightarrow> bool" where
  "valid_page s v \<longleftrightarrow> v mod PGSIZE = 0 \<and> kend s \<le> v \<and> V2P v < PHYSTOP"

definition free_pages :: "'z kmem_state_scheme \<Rightarrow> u32 list \<Rightarrow> bool" where
  "free_pages s xs \<longleftrightarrow> chain (mem s) (freelist s) xs \<and> distinct xs \<and>
     (\<forall>x \<in> set xs. valid_page s x) \<and> (use_lock s \<longrightarrow> ready KmemLock s)"

text \<open>Two pages that share a byte are the same page.\<close>

lemma page_of_byte:
  assumes "x mod PGSIZE = 0" "a - x < PGSIZE"
  shows "unat x = unat a div 4096 * 4096"
proof -
  have "unat (x mod 4096) = 0" using assms(1) by (simp add: PGSIZE_def)
  then have "unat x mod 4096 = 0" by (simp add: unat_mod)
  then obtain k where k: "unat x = 4096 * k" by auto
  have o: "unat (a - x) < 4096" using assms(2) by (simp add: PGSIZE_def word_less_nat_alt)
  have "k < 2 ^ 20" using k u32_bound [of x] by simp
  with k o have "unat x + unat (a - x) < 2 ^ 32" by simp
  then have "unat a = unat x + unat (a - x)"
    using unat_plus_nowrap [of x "a - x"] by simp
  with k o show ?thesis by simp
qed

lemma pages_disjoint:
  assumes "x mod PGSIZE = 0" "y mod PGSIZE = 0" "x \<noteq> y" "a - x < PGSIZE"
  shows "\<not> a - y < PGSIZE"
  using page_of_byte [OF assms(1,4)] page_of_byte [OF assms(2), of a] assms(3)
  by (metis word_unat_eq_iff)

lemma chain_upd:
  "\<lbrakk>chain m p xs; \<And>x a. x \<in> set xs \<Longrightarrow> a - x < PGSIZE \<Longrightarrow> m' a = m a\<rbrakk> \<Longrightarrow> chain m' p xs"
proof (induction xs arbitrary: p)
  case (Cons x xs)
  have "ld32 m' x = ld32 m x"
    by (rule ld32_cong; rule Cons.prems(2) [of x]) (simp_all add: PGSIZE_def)
  with Cons show ?case by auto
qed simp

lemma valid_page_not_null: "valid_page s v \<Longrightarrow> v \<noteq> 0"
  by (auto simp: valid_page_def V2P_def KERNBASE_def PHYSTOP_def)

section \<open>Critical sections of the allocator\<close>

text \<open>A finished critical section leaves the state settled, or untouched before the
  lock is in use.\<close>

definition kmem_settle :: "'z kmem_state_scheme \<Rightarrow> 'z kmem_state_scheme" where
  "kmem_settle s = (if use_lock s then settle s else s)"

lemma kmem_settle_sel [simp]:
  "mem (kmem_settle s) = mem s" "freelist (kmem_settle s) = freelist s"
  "use_lock (kmem_settle s) = use_lock s" "kend (kmem_settle s) = kend s"
  "ready L (kmem_settle s) = ready L s"
  by (simp_all add: kmem_settle_def ready_def) (simp_all add: settle_def machine_defs)

definition kmem_acq :: "'z kmem_state_scheme \<Rightarrow> 'z kmem_state_scheme" where
  "kmem_acq s = (if use_lock s then acq KmemLock s else s)"

lemma kmem_acq_sel [simp]:
  "mem (kmem_acq s) = mem s" "freelist (kmem_acq s) = freelist s"
  "use_lock (kmem_acq s) = use_lock s"
  by (simp_all add: kmem_acq_def acq_def pushcli_def machine_defs)

lemma kmem_enter:
  "(use_lock s \<longrightarrow> ready KmemLock s) \<Longrightarrow> kmem_acquire s = Ok () (kmem_acq s)"
  by (auto simp: kmem_acquire_def kmem_acq_def acquire_free ready_def free_lock_def)

lemma kmem_leave:
  assumes "use_lock s \<longrightarrow> ready KmemLock s"
  shows "kmem_release ((kmem_acq s)\<lparr>mem := m, freelist := p\<rparr>) =
    Ok () ((kmem_settle s)\<lparr>mem := m, freelist := p\<rparr>)"
proof (cases "use_lock s")
  case True
  let ?t = "acq KmemLock s"
  let ?u = "?t\<lparr>mem := m, freelist := p\<rparr>"
  have "release KmemLock ?u = Ok () (rel KmemLock ?u)"
    using assms True holding_acq [of KmemLock s] acq_cpu [of KmemLock s]
    by (intro release_held) (simp_all add: ready_def holding_def cpu_def)
  moreover have "rel KmemLock ?u = (rel KmemLock ?t)\<lparr>mem := m, freelist := p\<rparr>"
    by (simp add: rel_def machine_defs)
  moreover have "rel KmemLock ?t = settle s"
    using assms True by (intro rel_acq) (simp_all add: ready_def)
  ultimately show ?thesis
    using True kmem_acq_sel(3) [of s] by (simp add: kmem_release_def kmem_settle_def kmem_acq_def)
qed (simp add: kmem_release_def kmem_settle_def kmem_acq_def)

lemma kfree_eq:
  assumes "use_lock s \<longrightarrow> ready KmemLock s" "valid_page s v"
  shows "kfree v s = Ok () ((kmem_settle s)
    \<lparr>mem := st32 (memset (mem s) v 1 PGSIZE) v (freelist s), freelist := v\<rparr>)"
proof -
  let ?s = "s\<lparr>mem := memset (mem s) v 1 PGSIZE\<rparr>"
  have "use_lock ?s \<longrightarrow> ready KmemLock ?s"
    using assms(1) by (simp add: ready_def cpu_def)
  note r = kmem_enter [OF this] kmem_leave [OF this]
  have "kfree v s = Ok () ((kmem_settle ?s)
      \<lparr>mem := st32 (memset (mem s) v 1 PGSIZE) v (freelist s), freelist := v\<rparr>)"
    using assms(2) by (simp add: kfree_def valid_page_def not_less not_le r)
  then show ?thesis
    by (simp add: kmem_settle_def settle_def machine_defs)
qed

lemma kalloc_eq:
  assumes "use_lock s \<longrightarrow> ready KmemLock s"
  shows "kalloc s = Ok (freelist s) ((kmem_settle s)
    \<lparr>freelist := (if freelist s \<noteq> 0 then ld32 (mem s) (freelist s) else 0)\<rparr>)"
proof -
  have upd: "(kmem_acq s)\<lparr>freelist := p\<rparr> = (kmem_acq s)\<lparr>mem := mem s, freelist := p\<rparr>"
      "(kmem_settle s)\<lparr>mem := mem s, freelist := p\<rparr> = (kmem_settle s)\<lparr>freelist := p\<rparr>" for p
    by (simp_all add: kmem_state.equality)
  have same: "kmem_acq s = (kmem_acq s)\<lparr>mem := mem s, freelist := freelist s\<rparr>"
    by (simp add: kmem_state.equality)
  have "kmem_release (kmem_acq s) = Ok () ((kmem_settle s)\<lparr>freelist := freelist s\<rparr>)"
    by (subst same) (simp only: kmem_leave [OF assms] upd)
  then show ?thesis
    using kmem_leave [OF assms, where m = "mem s"]
    by (simp add: kalloc_def kmem_enter [OF assms] upd(1)) (simp add: upd Let_def)
qed

section \<open>The allocator implements the interface\<close>

lemma valid_page_upd [simp]:
  "valid_page (s\<lparr>mem := m\<rparr>) = valid_page s" "valid_page (s\<lparr>freelist := p\<rparr>) = valid_page s"
  "valid_page (kmem_settle s) = valid_page s"
  by (simp_all add: valid_page_def fun_eq_iff)

lemma ready_upd [simp]:
  "ready L (s\<lparr>mem := m\<rparr>) = ready L s" "ready L (s\<lparr>freelist := p\<rparr>) = ready L s"
  by (simp_all add: ready_def cpu_def)

lemma memset_outside: "\<not> a - v < n \<Longrightarrow> memset m v c n a = m a"
  by (simp add: memset_eq mem_fill_def)

lemma st32_outside: "\<not> a - v < PGSIZE \<Longrightarrow> st32 m v w a = m a"
  by (rule st32_other) (auto simp: PGSIZE_def)

lemma kfree_pool:
  assumes "free_pages s xs" "valid_page s v" "v \<notin> set xs"
  shows "\<exists>s'. kfree v s = Ok () s' \<and> free_pages s' (v # xs) \<and> valid_page s' = valid_page s \<and>
    (\<forall>a. \<not> a - v < PGSIZE \<longrightarrow> mem s' a = mem s a)"
proof -
  let ?m = "st32 (memset (mem s) v 1 PGSIZE) v (freelist s)"
  let ?s = "(kmem_settle s)\<lparr>mem := ?m, freelist := v\<rparr>"
  have out: "?m a = mem s a" if "\<not> a - v < PGSIZE" for a
    using that by (simp add: st32_outside memset_outside)
  have "chain ?m (freelist s) xs"
  proof (rule chain_upd)
    show "chain (mem s) (freelist s) xs" using assms(1) by (simp add: free_pages_def)
    show "?m a = mem s a" if "x \<in> set xs" "a - x < PGSIZE" for x a
    proof (rule out, rule pages_disjoint)
      show "x mod PGSIZE = 0" "v mod PGSIZE = 0" "x \<noteq> v" "a - x < PGSIZE"
        using that assms by (auto simp: free_pages_def valid_page_def)
    qed
  qed
  then have "free_pages ?s (v # xs)"
    using assms valid_page_not_null [OF assms(2)] by (simp add: free_pages_def)
  moreover have "kfree v s = Ok () ?s"
    using assms by (intro kfree_eq) (simp_all add: free_pages_def)
  ultimately show ?thesis using out by auto
qed

lemma kalloc_empty:
  assumes "free_pages s []"
  shows "kalloc s = Ok 0 ((kmem_settle s)\<lparr>freelist := 0\<rparr>)"
  using assms by (simp add: kalloc_eq free_pages_def)

lemma kalloc_pool:
  assumes "free_pages s (x # xs)"
  shows "\<exists>s'. kalloc s = Ok x s' \<and> free_pages s' xs \<and> valid_page s' = valid_page s \<and> mem s' = mem s"
proof -
  have "kalloc s = Ok x ((kmem_settle s)\<lparr>freelist := ld32 (mem s) x\<rparr>)"
    using assms by (auto simp: kalloc_eq free_pages_def)
  with assms show ?thesis by (simp add: free_pages_def)
qed

interpretation kmem: page_allocator kalloc kfree free_pages valid_page
proof (unfold_locales, goal_cases)
  case (4 s)
  then show ?case by (simp add: kalloc_empty) (simp add: free_pages_def)
next
  case (5 s x xs)
  then show ?case using kalloc_pool by blast
next
  case (6 s xs x)
  then show ?case using kfree_pool by blast
qed (auto simp: free_pages_def dest: valid_page_not_null)

text \<open>C17. \<^verbatim>\<open>kfree\<close> and \<^verbatim>\<open>kalloc\<close> are a stack of distinct pages: freeing a valid page
  that is not free pushes it on the chain, without touching any byte outside that
  page, and the next allocation hands out exactly that page and leaves the chain as
  it was.\<close>

theorem kfree_kalloc_stack:
  assumes "free_pages s xs" "valid_page s v" "v \<notin> set xs"
  shows "\<exists>t u. kfree v s = Ok () t \<and> free_pages t (v # xs) \<and>
    (\<forall>a. \<not> a - v < PGSIZE \<longrightarrow> mem t a = mem s a) \<and> kalloc t = Ok v u \<and> free_pages u xs"
  using kfree_pool [OF assms] kalloc_pool by blast

definition boot_kmem :: kmem_state where
  "boot_kmem = machine.extend boot_machine
     \<lparr>mem = (\<lambda>_. 0), kend = 0x80100000, use_lock = True, freelist = 0\<rparr>"

lemma boot_kmem_free: "free_pages boot_kmem []"
  by (simp add: free_pages_def boot_kmem_def ready_def free_lock_def boot_machine_def
      machine.defs idle_cpu_def cpu_def)

theorem kfree_kalloc_stack_witness:
  "\<exists>t u. kfree 0x80200000 boot_kmem = Ok () t \<and> kalloc t = Ok 0x80200000 u"
proof -
  have "valid_page boot_kmem 0x80200000"
    by (simp add: valid_page_def boot_kmem_def boot_machine_def machine.defs kernel_defs)
  from kfree_kalloc_stack [OF boot_kmem_free this] show ?thesis by auto
qed

text \<open>C18. \<^verbatim>\<open>kfree\<close> refuses exactly the addresses it must: it panics if and only if the
  address is not page-aligned, lies inside the kernel image or at or above the top of
  physical memory; otherwise, with the lock free, it returns.\<close>

theorem kfree_panics_iff:
  assumes "use_lock s \<longrightarrow> ready KmemLock s"
  shows "(if valid_page s v then returns (kfree v s) else kfree v s = Panic ''kfree'')"
  using kfree_eq [OF assms, of v] by (auto simp: kfree_def valid_page_def not_less not_le)

theorem kfree_panics_iff_witness:
  "kfree 0x80200001 boot_kmem = Panic ''kfree''"
  using kfree_panics_iff [of boot_kmem "0x80200001"] boot_kmem_free
  by (simp add: free_pages_def valid_page_def kernel_defs)

section \<open>Initialisation\<close>

text \<open>The whole pages from \<open>p\<close> up to \<open>vend\<close>.\<close>

definition page_range :: "u32 \<Rightarrow> u32 \<Rightarrow> u32 list" where
  "page_range p vend = map (\<lambda>i. p + of_nat i * PGSIZE) [0..<(unat vend - unat p) div 4096]"

lemma freepages_eq:
  fixes s :: "'z kmem_state_scheme"
  assumes "unat p < 2 ^ 32 - 4096" "unat vend < 2 ^ 32 - 4096"
  shows "freepages p vend s = kmem.free_many (page_range p vend) s"
  using assms
proof (induction "(unat vend - unat p) div 4096" arbitrary: p s)
  case 0
  then have "unat vend - unat p < 4096" by (simp add: div_eq_0_iff)
  moreover have "unat (p + 4096) = unat p + 4096"
    using 0 by (subst unat_plus_nowrap) simp_all
  ultimately have "\<not> p + PGSIZE \<le> vend"
    by (simp add: PGSIZE_def word_le_nat_alt)
  with 0(1) show ?case
    by (simp add: freepages.simps [of p] page_range_def)
next
  case (Suc n)
  then have ge: "4096 \<le> unat vend - unat p"
    by (metis div_less nat.distinct(1) not_less)
  have up: "unat (p + PGSIZE) = unat p + 4096"
    using Suc.prems by (subst unat_plus_nowrap) (simp_all add: PGSIZE_def)
  then have le: "p + PGSIZE \<le> vend"
    using ge by (simp add: word_le_nat_alt)
  have n: "n = (unat vend - unat (p + PGSIZE)) div 4096"
  proof -
    have "unat vend - unat p = unat vend - unat (p + PGSIZE) + 4096"
      using up ge by simp
    with Suc.hyps(2) show ?thesis by simp
  qed
  have "page_range p vend = p # page_range (p + PGSIZE) vend"
  proof -
    have "page_range p vend = map (\<lambda>i. p + of_nat i * PGSIZE) [0..<Suc n]"
      using Suc.hyps(2) by (simp add: page_range_def)
    also have "\<dots> = p # map (\<lambda>i. p + of_nat (Suc i) * PGSIZE) [0..<n]"
      by (simp only: map_upt_Suc) simp
    also have "\<dots> = p # page_range (p + PGSIZE) vend"
      using n by (simp add: page_range_def algebra_simps)
    finally show ?thesis .
  qed
  moreover have "freepages (p + PGSIZE) vend t = kmem.free_many (page_range (p + PGSIZE) vend) t"
    for t :: "'z kmem_state_scheme"
    by (rule Suc.hyps(1) [OF n]) (use up ge Suc.prems(2) in linarith)+
  ultimately show ?case
    using le by (simp add: freepages.simps [of p] cong: bind_cong)
qed

lemma page_range_unat:
  fixes p vend :: u32
  assumes "unat vend < 2 ^ 32 - 4096" "i < (unat vend - unat p) div 4096"
  shows "unat (p + of_nat i * PGSIZE) = unat p + i * 4096" "unat p + i * 4096 < unat vend"
proof -
  have i: "i * 4096 + 4096 \<le> unat vend - unat p"
    using Suc_leI [OF assms(2)] by (simp add: less_eq_div_iff_mult_less_eq)
  then have "i * 4096 < 2 ^ 32" using u32_bound [of vend] by simp
  then have "unat (of_nat i * PGSIZE :: u32) = i * 4096"
    using unat_of_nat_u32 [of "i * 4096"] by (simp add: PGSIZE_def)
  moreover have "unat p + i * 4096 < unat vend" using i by simp
  moreover from this have "unat p + i * 4096 < 2 ^ 32" using assms(1) by simp
  ultimately show "unat (p + of_nat i * PGSIZE) = unat p + i * 4096" "unat p + i * 4096 < unat vend"
    by (simp_all add: unat_plus_nowrap)
qed

lemma page_range_distinct: "unat vend < 2 ^ 32 - 4096 \<Longrightarrow> distinct (page_range p vend)"
  unfolding page_range_def distinct_map
proof (intro conjI inj_onI)
  fix i j
  assume v: "unat vend < 2 ^ 32 - 4096"
    and ij: "i \<in> set [0..<(unat vend - unat p) div 4096]" "j \<in> set [0..<(unat vend - unat p) div 4096]"
    and eq: "p + of_nat i * PGSIZE = p + of_nat j * PGSIZE"
  from eq have "unat (p + of_nat i * PGSIZE) = unat (p + of_nat j * PGSIZE)" by simp
  with v ij show "i = j" by (simp add: page_range_unat)
qed simp

lemma page_range_valid:
  assumes "p mod PGSIZE = 0" "kend s \<le> p" "KERNBASE \<le> p" "vend \<le> P2V PHYSTOP" "x \<in> set (page_range p vend)"
  shows "valid_page s x"
proof -
  obtain i where x: "x = p + of_nat i * PGSIZE" and i: "i < (unat vend - unat p) div 4096"
    using assms(5) by (auto simp: page_range_def)
  have v: "unat vend \<le> 0x8E000000" using assms(4) by (simp add: kernel_defs word_le_nat_alt)
  then have u: "unat x = unat p + i * 4096" "unat p + i * 4096 < unat vend"
    unfolding x using page_range_unat [OF _ i] by simp_all
  have "unat (p mod PGSIZE) = 0" using assms(1) by simp
  then have "unat x mod 4096 = 0" unfolding u by (simp add: PGSIZE_def unat_mod)
  then have "unat (x mod PGSIZE) = 0" by (simp add: PGSIZE_def unat_mod)
  then have "x mod PGSIZE = 0" by (simp only: unat_eq_0)
  moreover have "kend s \<le> x" "KERNBASE \<le> x"
    using assms(2,3) u by (simp_all add: word_le_nat_alt)
  moreover have "V2P x < PHYSTOP"
    using u v \<open>KERNBASE \<le> x\<close> by (simp add: V2P_def word_less_nat_alt dist_of_le) (simp add: kernel_defs)
  ultimately show ?thesis by (simp add: valid_page_def)
qed

text \<open>C19. \<^verbatim>\<open>freerange\<close> fills the allocator: on a start inside kernel space and
  an end within physical memory it returns, and the chain of free pages then holds every
  whole page of the range exactly once, ahead of the pages that were free before.\<close>

theorem freerange_pool:
  assumes "free_pages s xs" "p = PGROUNDUP vstart" "kend s \<le> p" "KERNBASE \<le> p"
    "p \<le> vend" "vend \<le> P2V PHYSTOP" "set (page_range p vend) \<inter> set xs = {}"
  shows "\<exists>s'. freerange vstart vend s = Ok () s' \<and> free_pages s' (rev (page_range p vend) @ xs)"
proof -
  have v: "unat vend < 2 ^ 32 - 4096"
    using assms(6) by (simp add: kernel_defs word_le_nat_alt)
  have "unat p < 2 ^ 32 - 4096"
    using assms(5) v by (simp add: word_le_nat_alt)
  then have "freerange vstart vend s = kmem.free_many (page_range p vend) s"
    unfolding freerange_def assms(2) [symmetric] using v by (rule freepages_eq)
  moreover have "p mod PGSIZE = 0"
    unfolding assms(2) by (rule PGROUNDUP_aligned)
  then have "\<forall>x \<in> set (page_range p vend). valid_page s x"
    by (intro ballI page_range_valid [OF _ assms(3,4,6)])
  ultimately show ?thesis
    using kmem.free_many_pool [OF assms(1) page_range_distinct [OF v] assms(7)] by simp
qed

theorem freerange_pool_witness:
  "\<exists>s. freerange 0x80200001 0x80204000 boot_kmem = Ok () s \<and>
     free_pages s [0x80203000, 0x80202000, 0x80201000]"
proof -
  have "PGROUNDUP 0x80200001 = 0x80201000"
    by (simp add: PGROUNDUP_def PGSIZE_def)
  moreover have "page_range 0x80201000 0x80204000 = [0x80201000, 0x80202000, 0x80203000]"
    by (simp add: page_range_def PGSIZE_def upt_rec)
  ultimately show ?thesis
    using freerange_pool [OF boot_kmem_free, of "0x80201000" "0x80200001" "0x80204000"]
    by (simp add: kernel_defs boot_kmem_def boot_machine_def machine.defs)
qed

end
