(* ===== verification/Console.thy ===== *)
theory Console
  imports Kalloc
begin

text \<open>
  Console output (\<^verbatim>\<open>console.c\<close> up to \<^verbatim>\<open>consputc\<close>, \<^verbatim>\<open>uartputc\<close> of \<^verbatim>\<open>uart.c\<close>): integer
  formatting, \<^verbatim>\<open>cprintf\<close>, and the two devices a character goes to. The serial port is
  the list of bytes sent to it; the CGA screen is its character memory with the cursor
  register. The state extends the allocator's.
\<close>

section \<open>State\<close>

record cons_state = kmem_state +
  cons_locking :: bool
  panicked :: bool
  uart :: bool
  uart_out :: "u8 list"
  crt :: "nat \<Rightarrow> u16"
  crt_cursor :: u16

definition bytes :: "string \<Rightarrow> u8 list" where
  "bytes = map of_char"

definition BACKSPACE :: int where "BACKSPACE = 0x100"

section \<open>Formatting\<close>

text \<open>
  \<^verbatim>\<open>printint\<close> collects digits from the low end and prints them backwards. Its callers
  pass base 10 or 16 only.
\<close>

function digits_low :: "nat \<Rightarrow> nat \<Rightarrow> nat list" where
  "digits_low base x =
     (if base < 2 then [] else
      if x div base = 0 then [x mod base] else x mod base # digits_low base (x div base))"
  by pat_completeness auto
termination
proof (relation "measure snd", goal_cases)
  case (2 base x)
  then have "0 < x" by (cases "x = 0") auto
  with 2 show ?case by simp
qed simp

declare digits_low.simps [simp del]

definition digit_char :: "nat \<Rightarrow> u8" where
  "digit_char d = bytes ''0123456789abcdef'' ! d"

definition printint :: "u32 \<Rightarrow> nat \<Rightarrow> bool \<Rightarrow> u8 list" where
  "printint xx base sign =
     (let neg = sign \<and> xx <s 0;
          x = (if neg then - xx else xx);
          buf = map digit_char (digits_low base (unat x))
      in rev (if neg then buf @ bytes ''-'' else buf))"

text \<open>
  The variable arguments of \<^verbatim>\<open>cprintf\<close>: words, or pointers to strings. A conversion
  whose argument is missing or of the other kind reads memory the model does not have.
\<close>

datatype parg = PInt u32 | PStr "u8 list" | PNull

fun cprintf_text :: "u8 list \<Rightarrow> parg list \<Rightarrow> u8 list option" where
  "cprintf_text [] args = Some []"
| "cprintf_text (c # fmt) args =
     (if c = 0 then Some []
      else if c \<noteq> of_char (CHR ''%'') then map_option (\<lambda>t. c # t) (cprintf_text fmt args)
      else case fmt of [] \<Rightarrow> Some []
      | d # fmt' \<Rightarrow>
         if d = 0 then Some []
         else if d = of_char (CHR ''d'') then
           (case args of PInt w # args' \<Rightarrow> map_option (\<lambda>t. printint w 10 True @ t) (cprintf_text fmt' args')
            | _ \<Rightarrow> None)
         else if d = of_char (CHR ''x'') \<or> d = of_char (CHR ''p'') then
           (case args of PInt w # args' \<Rightarrow> map_option (\<lambda>t. printint w 16 False @ t) (cprintf_text fmt' args')
            | _ \<Rightarrow> None)
         else if d = of_char (CHR ''s'') then
           (case args of
              PStr str # args' \<Rightarrow> map_option (\<lambda>t. cstr str @ t) (cprintf_text fmt' args')
            | PNull # args' \<Rightarrow> map_option (\<lambda>t. bytes ''(null)'' @ t) (cprintf_text fmt' args')
            | _ \<Rightarrow> None)
         else if d = of_char (CHR ''%'') then map_option (\<lambda>t. d # t) (cprintf_text fmt' args)
         else map_option (\<lambda>t. c # d # t) (cprintf_text fmt' args))"

section \<open>Devices\<close>

definition uartputc :: "u8 \<Rightarrow> 'z cons_state_scheme \<Rightarrow> 'z cons_state_scheme" where
  "uartputc c s = (if \<not> uart s then s else s\<lparr>uart_out := uart_out s @ [c]\<rparr>)"

definition cgaputc :: "int \<Rightarrow> 'z cons_state_scheme \<Rightarrow> (unit, 'z cons_state_scheme) res" where
  "cgaputc c s =
     (let pos = uint (crt_cursor s);
          (pos, s) =
            (if c = 10 then (pos + (80 - pos mod 80), s)
             else if c = BACKSPACE then (if pos > 0 then pos - 1 else pos, s)
             else (pos + 1, s\<lparr>crt := (crt s)(nat pos := (of_int c AND 0xff) OR 0x0700)\<rparr>))
      in if pos < 0 \<or> pos > 25 * 80 then Panic ''pos under/overflow''
      else
        let (pos, s) =
          (if pos div 80 \<ge> 24 then
             let up = (\<lambda>i. if i < 23 * 80 then crt s (i + 80) else crt s i);
                 pos = pos - 80
             in (pos, s\<lparr>crt := (\<lambda>i. if nat pos \<le> i \<and> i < 24 * 80 then 0 else up i)\<rparr>)
           else (pos, s))
        in Ok () (s\<lparr>crt_cursor := of_int pos, crt := (crt s)(nat pos := 0x0720)\<rparr>))"

definition consputc :: "int \<Rightarrow> 'z cons_state_scheme \<Rightarrow> (unit, 'z cons_state_scheme) res" where
  "consputc c s =
     (if panicked s then Spin
      else
        let s = (if c = BACKSPACE then uartputc 8 (uartputc 32 (uartputc 8 s))
                 else uartputc (of_int c) s)
        in cgaputc c s)"

fun consputs :: "u8 list \<Rightarrow> 'z cons_state_scheme \<Rightarrow> (unit, 'z cons_state_scheme) res" where
  "consputs [] s = Ok () s"
| "consputs (c # cs) s = bind (consputc (uint c) s) (\<lambda>_ s. consputs cs s)"

definition cprintf :: "string \<Rightarrow> parg list \<Rightarrow> 'z cons_state_scheme \<Rightarrow> (unit, 'z cons_state_scheme) res" where
  "cprintf fmt args s =
     (let locking = cons_locking s in
      bind (if locking then acquire ConsLock s else Ok () s) (\<lambda>_ s.
      case cprintf_text (bytes fmt) args of
        None \<Rightarrow> Fault
      | Some text \<Rightarrow>
          bind (consputs text s) (\<lambda>_ s.
          if locking then release ConsLock s else Ok () s)))"

section \<open>The cursor stays on the screen\<close>

definition cons_ok :: "'z cons_state_scheme \<Rightarrow> bool" where
  "cons_ok s \<longleftrightarrow> uint (crt_cursor s) < 24 * 80 \<and> \<not> panicked s"

text \<open>What printing may change: the serial output, the screen and its cursor.\<close>

definition printed :: "u8 list \<Rightarrow> 'z cons_state_scheme \<Rightarrow> 'z cons_state_scheme \<Rightarrow> bool" where
  "printed out s s' \<longleftrightarrow> (\<exists>scr cur.
     s' = s\<lparr>uart_out := uart_out s @ (if uart s then out else []), crt := scr, crt_cursor := cur\<rparr> \<and>
     (\<forall>i \<ge> 25 * 80. scr i = crt s i))"

lemma uint_of_int_u16: "0 \<le> p \<Longrightarrow> p < 65536 \<Longrightarrow> uint (word_of_int p :: u16) = p"
  by (simp add: uint_word_of_int)

lemma cgaputc_ok:
  assumes "uint (crt_cursor s) < 24 * 80"
  shows "\<exists>s'. cgaputc c s = Ok () s' \<and> uint (crt_cursor s') < 24 * 80 \<and>
    (\<exists>scr cur. s' = s\<lparr>crt := scr, crt_cursor := cur\<rparr> \<and> (\<forall>i \<ge> 25 * 80. scr i = crt s i))"
proof -
  define pos where "pos = uint (crt_cursor s)"
  have pos: "0 \<le> pos" "pos < 1920" using assms by (simp_all add: pos_def)
  define p1 where "p1 = (if c = 10 then pos + (80 - pos mod 80)
    else if c = BACKSPACE then (if pos > 0 then pos - 1 else pos) else pos + 1)"
  have p1: "0 \<le> p1" "p1 \<le> 1920"
    using pos pos_mod_bound [of 80 pos] by (auto simp: p1_def BACKSPACE_def) presburger+
  define scr where "scr = (if c = 10 \<or> c = BACKSPACE then crt s
    else (crt s)(nat pos := (of_int c AND 0xff) OR 0x0700))"
  have scr: "\<forall>i \<ge> 25 * 80. scr i = crt s i" using pos by (auto simp: scr_def)
  define p2 where "p2 = (if p1 div 80 \<ge> 24 then p1 - 80 else p1)"
  have p2: "0 \<le> p2" "p2 < 1920"
    using p1 unfolding p2_def by (simp_all split: if_splits) presburger+
  define scr2 where "scr2 = (if p1 div 80 \<ge> 24
    then (\<lambda>i. if nat (p1 - 80) \<le> i \<and> i < 24 * 80 then 0 else if i < 23 * 80 then scr (i + 80) else scr i)
    else scr)"
  have "\<forall>i \<ge> 25 * 80. scr2 i = crt s i" using scr by (auto simp: scr2_def)
  moreover have "cgaputc c s = Ok () (s\<lparr>crt_cursor := of_int p2, crt := scr2(nat p2 := 0x0720)\<rparr>)"
  proof -
    have "(if c = 10 then (pos + (80 - pos mod 80), s)
        else if c = BACKSPACE then (if pos > 0 then pos - 1 else pos, s)
        else (pos + 1, s\<lparr>crt := (crt s)(nat pos := (of_int c AND 0xff) OR 0x0700)\<rparr>)) =
      (p1, s\<lparr>crt := scr\<rparr>)"
      by (simp add: p1_def scr_def)
    moreover have "\<not> (p1 < 0 \<or> p1 > 25 * 80)" using p1 by simp
    ultimately show ?thesis
      unfolding cgaputc_def pos_def [symmetric] Let_def by (simp only: prod.case if_False) (simp add: p2_def scr2_def cong: if_cong)
  qed
  moreover have "uint (of_int p2 :: u16) = p2" using p2 by (intro uint_of_int_u16) simp_all
  moreover have "\<forall>i \<ge> 25 * 80. (scr2(nat p2 := 0x0720)) i = scr2 i"
    using p2 by (auto simp: nat_le_iff)
  ultimately show ?thesis using p2(2)
    by (intro exI [of _ "s\<lparr>crt_cursor := of_int p2, crt := scr2(nat p2 := 0x0720)\<rparr>"] conjI
      exI [of _ "scr2(nat p2 := 0x0720)"] exI [of _ "of_int p2 :: u16"]) simp_all
qed

lemma printed_refl: "printed [] s s"
  unfolding printed_def by (intro exI [of _ "crt s"] exI [of _ "crt_cursor s"]) simp

lemma printed_trans: "printed a s s' \<Longrightarrow> printed b s' s'' \<Longrightarrow> printed (a @ b) s s''"
proof -
  assume "printed a s s'" "printed b s' s''"
  then obtain scr cur scr' cur' where
    "s' = s\<lparr>uart_out := uart_out s @ (if uart s then a else []), crt := scr, crt_cursor := cur\<rparr>"
    "s'' = s'\<lparr>uart_out := uart_out s' @ (if uart s' then b else []), crt := scr', crt_cursor := cur'\<rparr>"
    "\<forall>i \<ge> 25 * 80. scr i = crt s i" "\<forall>i \<ge> 25 * 80. scr' i = crt s' i"
    unfolding printed_def by blast
  then show ?thesis
    unfolding printed_def by (intro exI [of _ scr'] exI [of _ cur']) simp
qed

lemma consputc_ok:
  assumes "cons_ok s"
  shows "\<exists>s'. consputc c s = Ok () s' \<and> cons_ok s' \<and>
    printed (if c = BACKSPACE then [8, 32, 8] else [of_int c]) s s'"
proof -
  define s1 where "s1 = (if c = BACKSPACE then uartputc 8 (uartputc 32 (uartputc 8 s))
    else uartputc (of_int c) s)"
  have s1: "s1 = s\<lparr>uart_out := uart_out s @ (if uart s then
      (if c = BACKSPACE then [8, 32, 8] else [of_int c]) else [])\<rparr>"
    by (auto simp: s1_def uartputc_def)
  obtain s' scr cur where "cgaputc c s1 = Ok () s'" "uint (crt_cursor s') < 24 * 80"
    "s' = s1\<lparr>crt := scr, crt_cursor := cur\<rparr>" "\<forall>i \<ge> 25 * 80. scr i = crt s1 i"
    using cgaputc_ok [of s1 c] assms unfolding s1 cons_ok_def by auto
  then have "printed (if c = BACKSPACE then [8, 32, 8] else [of_int c]) s s'"
    unfolding printed_def s1 by (intro exI [of _ scr] exI [of _ cur]) simp
  moreover have "consputc c s = Ok () s'"
    using assms \<open>cgaputc c s1 = Ok () s'\<close> unfolding consputc_def cons_ok_def Let_def s1_def by simp
  moreover have "cons_ok s'"
    using assms \<open>uint (crt_cursor s') < 24 * 80\<close> \<open>s' = _\<close> unfolding cons_ok_def s1 by simp
  ultimately show ?thesis by blast
qed

lemma uint_u8_not_BACKSPACE: "uint (c :: u8) \<noteq> BACKSPACE"
  using uint_bounded [of c] by (simp add: BACKSPACE_def)

lemma consputs_ok:
  "cons_ok s \<Longrightarrow> \<exists>s'. consputs cs s = Ok () s' \<and> cons_ok s' \<and> printed cs s s'"
proof (induction cs arbitrary: s)
  case Nil
  then show ?case using printed_refl by auto
next
  case (Cons c cs)
  from consputc_ok [OF Cons.prems, of "uint c"] obtain s1
    where 1: "consputc (uint c) s = Ok () s1" "cons_ok s1" "printed [c] s s1"
    by (auto simp: uint_u8_not_BACKSPACE)
  from Cons.IH [OF 1(2)] obtain s2
    where "consputs cs s1 = Ok () s2" "cons_ok s2" "printed cs s1 s2" by blast
  with 1 printed_trans [OF 1(3)] show ?case by fastforce
qed

text \<open>A locked region that only prints: entered, printed and left, with the locks as before.\<close>

lemma print_section:
  assumes "cons_ok s" "ready ConsLock s"
  shows "\<exists>s'. bind (acquire ConsLock s) (\<lambda>_ s. bind (consputs out s) (\<lambda>_ s. release ConsLock s)) =
      Ok () s' \<and> cons_ok s' \<and> printed out (settled s s) s'"
proof -
  have sel: "cons_ok (acq ConsLock s)" "cur (acq ConsLock s) = cur s"
    using assms(1) by (simp_all add: cons_ok_def acq_defs)
  from consputs_ok [OF sel(1)] obtain t
    where t: "consputs out (acq ConsLock s) = Ok () t" "cons_ok t" "printed out (acq ConsLock s) t"
    by blast
  from t(3) have "locks t = locks (acq ConsLock s)" "cpus t = cpus (acq ConsLock s)" "cur t = cur s"
    unfolding printed_def using sel by auto
  from release_section [OF assms(2) this] have "release ConsLock t = Ok () (settled s t)" .
  moreover have "printed out (settled s s) (settled s t)"
  proof -
    obtain c l where a: "acq ConsLock s = s\<lparr>cpus := c, locks := l\<rparr>" by (rule acq_upd)
    from t(3) obtain scr cur where
      "t = s\<lparr>cpus := c, locks := l, uart_out := uart_out s @ (if uart s then out else []),
        crt := scr, crt_cursor := cur\<rparr>" "\<forall>i \<ge> 25 * 80. scr i = crt s i"
      unfolding printed_def a by auto
    then show ?thesis
      unfolding printed_def settled_def by (intro exI [of _ scr] exI [of _ cur]) simp
  qed
  ultimately show ?thesis
    using t by (simp add: acquire_ready [OF assms(2)] cons_ok_def settled_def)
qed

text \<open>
  C20: printing from the kernel. While the cursor is on the screen, no panic has happened and
  the console lock can be taken, \<^verbatim>\<open>cprintf\<close> with arguments that fit its format always
  returns: it never reaches the panic of \<^verbatim>\<open>cgaputc\<close>, it sends exactly the formatted text to
  the serial port, it writes the screen memory only below 25 lines of 80 cells, it keeps the
  cursor on the screen and leaves every lock as it was.
\<close>

theorem cprintf_returns:
  assumes "cons_ok s" "cons_locking s \<longrightarrow> ready ConsLock s"
    and "cprintf_text (bytes fmt) args = Some out"
  shows "\<exists>s'. cprintf fmt args s = Ok () s' \<and> cons_ok s' \<and> locks s' = locks s \<and>
    uart_out s' = uart_out s @ (if uart s then out else []) \<and>
    (\<forall>i \<ge> 25 * 80. crt s' i = crt s i)"
proof (cases "cons_locking s")
  case True
  with print_section [of s out] assms show ?thesis
    by (auto simp: cprintf_def printed_def settled_def cong: bind_cong)
next
  case False
  with consputs_ok [of s out] assms show ?thesis
    by (auto simp: cprintf_def printed_def)
qed

definition boot_console :: cons_state where
  "boot_console = kmem_state.extend boot_kmem
     \<lparr>cons_locking = True, panicked = False, uart = True, uart_out = [], crt = (\<lambda>_. 0), crt_cursor = 0\<rparr>"

lemma cprintf_returns_witness:
  "\<exists>s'. cprintf ''cpu%d: %x'' [PInt (- 7), PInt 0xbeef] boot_console = Ok () s' \<and>
     uart_out s' = bytes ''cpu-7: beef''"
proof -
  have "cprintf_text (bytes ''cpu%d: %x'') [PInt (- 7), PInt 0xbeef] = Some (bytes ''cpu-7: beef'')"
    by (simp add: bytes_def of_char_def printint_def digits_low.simps digit_char_def word_sless_alt)
  moreover have "cons_ok boot_console" "uart_out boot_console = []" "uart boot_console"
      "ready ConsLock boot_console"
    by (simp_all add: cons_ok_def boot_console_def boot_kmem_def boot_machine_def ready_def free_lock_def
        idle_cpu_def kmem_state.defs machine.defs cpu_def)
  ultimately show ?thesis
    using cprintf_returns [of boot_console "''cpu%d: %x''" "[PInt (- 7), PInt 0xbeef]"] by auto
qed

end
