(* ===== verification/Vm.thy ===== *)
theory Vm
  imports Console
begin

text \<open>
  Page tables (\<^verbatim>\<open>vm.c\<close>): two-level tables that live in memory and are walked word by
  word, the kernel part of every address space, growing, shrinking, copying and freeing
  the user part, and copying out to another address space. Loops over an address space
  carry fuel for one pass over all 2^20 pages; code that is still running then has wrapped
  around the address space and does not end, which is the outcome \<^term>\<open>Spin\<close>.
\<close>

section \<open>Page table entries\<close>

record vm_state = cons_state +
  kpgdir :: u32
  kdata :: u32

definition PDX :: "u32 \<Rightarrow> u32" where "PDX va = drop_bit 22 va AND 0x3FF"
definition PTX :: "u32 \<Rightarrow> u32" where "PTX va = drop_bit 12 va AND 0x3FF"
definition PTE_P :: u32 where "PTE_P = 1"
definition PTE_W :: u32 where "PTE_W = 2"
definition PTE_U :: u32 where "PTE_U = 4"
definition PTE_ADDR :: "u32 \<Rightarrow> u32" where "PTE_ADDR pte = pte AND NOT 0xFFF"
definition PTE_FLAGS :: "u32 \<Rightarrow> u32" where "PTE_FLAGS pte = pte AND 0xFFF"
definition NPTENTRIES :: nat where "NPTENTRIES = 1024"
definition NPDENTRIES :: nat where "NPDENTRIES = 1024"

definition upd_mem :: "(memory \<Rightarrow> memory) \<Rightarrow> 'z kmem_state_scheme \<Rightarrow> 'z kmem_state_scheme" where
  "upd_mem f s = s\<lparr>mem := f (mem s)\<rparr>"

definition pass_fuel :: nat where "pass_fuel = 0x100001"

section \<open>Operations\<close>

definition walkpgdir :: "u32 \<Rightarrow> u32 \<Rightarrow> bool \<Rightarrow> 'z kmem_state_scheme \<Rightarrow> (u32, 'z kmem_state_scheme) res" where
  "walkpgdir pgdir va alloc s =
     (let pde = pgdir + 4 * PDX va in
      if ld32 (mem s) pde AND PTE_P \<noteq> 0 then
        Ok (P2V (PTE_ADDR (ld32 (mem s) pde)) + 4 * PTX va) s
      else if \<not> alloc then Ok 0 s
      else bind (kalloc s) (\<lambda>pgtab s.
        if pgtab = 0 then Ok 0 s
        else
          let s = upd_mem (\<lambda>m. memset m pgtab 0 PGSIZE) s;
              s = upd_mem (\<lambda>m. st32 m pde (V2P pgtab OR PTE_P OR PTE_W OR PTE_U)) s
          in Ok (pgtab + 4 * PTX va) s))"

fun mappages_loop ::
  "nat \<Rightarrow> u32 \<Rightarrow> u32 \<Rightarrow> u32 \<Rightarrow> u32 \<Rightarrow> u32 \<Rightarrow> 'z kmem_state_scheme \<Rightarrow> (int, 'z kmem_state_scheme) res" where
  "mappages_loop 0 pgdir a last_a pa perm s = Spin"
| "mappages_loop (Suc n) pgdir a last_a pa perm s =
     bind (walkpgdir pgdir a True s) (\<lambda>pte s.
     if pte = 0 then Ok (- 1) s
     else if ld32 (mem s) pte AND PTE_P \<noteq> 0 then Panic ''remap''
     else
       let s = upd_mem (\<lambda>m. st32 m pte (pa OR perm OR PTE_P)) s
       in if a = last_a then Ok 0 s
          else mappages_loop n pgdir (a + PGSIZE) last_a (pa + PGSIZE) perm s)"

definition mappages ::
  "u32 \<Rightarrow> u32 \<Rightarrow> u32 \<Rightarrow> u32 \<Rightarrow> u32 \<Rightarrow> 'z kmem_state_scheme \<Rightarrow> (int, 'z kmem_state_scheme) res" where
  "mappages pgdir va nbytes pa perm s =
     mappages_loop pass_fuel pgdir (PGROUNDDOWN va) (PGROUNDDOWN (va + nbytes - 1)) pa perm s"

text \<open>The kernel's part of every page table: virtual start, physical start and end, permissions.\<close>

definition kmap :: "u32 \<Rightarrow> (u32 \<times> u32 \<times> u32 \<times> u32) list" where
  "kmap data =
     [(KERNBASE, 0, EXTMEM, PTE_W),
      (KERNLINK, V2P KERNLINK, V2P data, 0),
      (data, V2P data, PHYSTOP, PTE_W),
      (DEVSPACE, DEVSPACE, 0, PTE_W)]"

fun setupkvm_loop ::
  "u32 \<Rightarrow> (u32 \<times> u32 \<times> u32 \<times> u32) list \<Rightarrow> 'z kmem_state_scheme \<Rightarrow> (u32, 'z kmem_state_scheme) res" where
  "setupkvm_loop pgdir [] s = Ok pgdir s"
| "setupkvm_loop pgdir ((virt, phys_start, phys_end, perm) # ks) s =
     bind (mappages pgdir virt (phys_end - phys_start) phys_start perm s) (\<lambda>r s.
     if r < 0 then Ok 0 s else setupkvm_loop pgdir ks s)"

definition setupkvm :: "'z vm_state_scheme \<Rightarrow> (u32, 'z vm_state_scheme) res" where
  "setupkvm s =
     bind (kalloc s) (\<lambda>pgdir s.
     if pgdir = 0 then Ok 0 s
     else
       let s = upd_mem (\<lambda>m. memset m pgdir 0 PGSIZE) s
       in if P2V PHYSTOP > DEVSPACE then Panic ''PHYSTOP too high''
          else setupkvm_loop pgdir (kmap (kdata s)) s)"

definition switchkvm :: "'z vm_state_scheme \<Rightarrow> 'z vm_state_scheme" where
  "switchkvm s = set_cpu (\<lambda>c. c\<lparr>cr3 := V2P (kpgdir s)\<rparr>) s"

definition kvmalloc :: "'z vm_state_scheme \<Rightarrow> (unit, 'z vm_state_scheme) res" where
  "kvmalloc s =
     bind (setupkvm s) (\<lambda>pgdir s. Ok () (switchkvm (s\<lparr>kpgdir := pgdir\<rparr>)))"

text \<open>
  The first process: its image \<^verbatim>\<open>init\<close> is the kernel's copy of the bytes of
  \<^verbatim>\<open>initcode\<close>. The result of the allocation is not tested.
\<close>

definition inituvm :: "u32 \<Rightarrow> u8 list \<Rightarrow> 'z vm_state_scheme \<Rightarrow> (unit, 'z vm_state_scheme) res" where
  "inituvm pgdir init s =
     (if length init \<ge> unat PGSIZE then Panic ''inituvm: more than a page''
      else bind (kalloc s) (\<lambda>mem' s.
        if mem' = 0 then Fault
        else
          let s = upd_mem (\<lambda>m. memset m mem' 0 PGSIZE) s
          in bind (mappages pgdir 0 PGSIZE (V2P mem') (PTE_W OR PTE_U) s) (\<lambda>_ s.
             Ok () (upd_mem (\<lambda>m. put m mem' init) s))))"

fun deallocuvm_loop ::
  "nat \<Rightarrow> u32 \<Rightarrow> u32 \<Rightarrow> u32 \<Rightarrow> 'z kmem_state_scheme \<Rightarrow> (unit, 'z kmem_state_scheme) res" where
  "deallocuvm_loop 0 pgdir a oldsz s = Spin"
| "deallocuvm_loop (Suc n) pgdir a oldsz s =
     (if \<not> a < oldsz then Ok () s
      else bind (walkpgdir pgdir a False s) (\<lambda>pte s.
        if pte = 0 then
          deallocuvm_loop n pgdir (a + (of_nat NPTENTRIES - 1) * PGSIZE + PGSIZE) oldsz s
        else if ld32 (mem s) pte AND PTE_P \<noteq> 0 then
          let pa = PTE_ADDR (ld32 (mem s) pte)
          in if pa = 0 then Panic ''kfree''
             else bind (kfree (P2V pa) s) (\<lambda>_ s.
               deallocuvm_loop n pgdir (a + PGSIZE) oldsz (upd_mem (\<lambda>m. st32 m pte 0) s))
        else deallocuvm_loop n pgdir (a + PGSIZE) oldsz s))"

definition deallocuvm :: "u32 \<Rightarrow> u32 \<Rightarrow> u32 \<Rightarrow> 'z kmem_state_scheme \<Rightarrow> (u32, 'z kmem_state_scheme) res" where
  "deallocuvm pgdir oldsz newsz s =
     (if newsz \<ge> oldsz then Ok oldsz s
      else bind (deallocuvm_loop pass_fuel pgdir (PGROUNDUP newsz) oldsz s) (\<lambda>_ s. Ok newsz s))"

fun allocuvm_loop ::
  "nat \<Rightarrow> u32 \<Rightarrow> u32 \<Rightarrow> u32 \<Rightarrow> u32 \<Rightarrow> 'z vm_state_scheme \<Rightarrow> (u32, 'z vm_state_scheme) res" where
  "allocuvm_loop 0 pgdir a oldsz newsz s = Spin"
| "allocuvm_loop (Suc n) pgdir a oldsz newsz s =
     (if \<not> a < newsz then Ok newsz s
      else bind (kalloc s) (\<lambda>mem' s.
        if mem' = 0 then
          bind (cprintf (''allocuvm out of memory'' @ [CHR 0x0A]) [] s) (\<lambda>_ s.
          bind (deallocuvm pgdir newsz oldsz s) (\<lambda>_ s. Ok 0 s))
        else
          let s = upd_mem (\<lambda>m. memset m mem' 0 PGSIZE) s
          in bind (mappages pgdir a PGSIZE (V2P mem') (PTE_W OR PTE_U) s) (\<lambda>r s.
             if r < 0 then
               bind (cprintf (''allocuvm out of memory (2)'' @ [CHR 0x0A]) [] s) (\<lambda>_ s.
               bind (deallocuvm pgdir newsz oldsz s) (\<lambda>_ s.
               bind (kfree mem' s) (\<lambda>_ s. Ok 0 s)))
             else allocuvm_loop n pgdir (a + PGSIZE) oldsz newsz s)))"

definition allocuvm :: "u32 \<Rightarrow> u32 \<Rightarrow> u32 \<Rightarrow> 'z vm_state_scheme \<Rightarrow> (u32, 'z vm_state_scheme) res" where
  "allocuvm pgdir oldsz newsz s =
     (if newsz \<ge> KERNBASE then Ok 0 s
      else if newsz < oldsz then Ok oldsz s
      else allocuvm_loop pass_fuel pgdir (PGROUNDUP oldsz) oldsz newsz s)"

fun free_tables :: "u32 \<Rightarrow> nat list \<Rightarrow> 'z kmem_state_scheme \<Rightarrow> (unit, 'z kmem_state_scheme) res" where
  "free_tables pgdir [] s = Ok () s"
| "free_tables pgdir (i # is) s =
     (let pde = ld32 (mem s) (pgdir + 4 * of_nat i)
      in if pde AND PTE_P \<noteq> 0 then
           bind (kfree (P2V (PTE_ADDR pde)) s) (\<lambda>_ s. free_tables pgdir is s)
         else free_tables pgdir is s)"

definition freevm :: "u32 \<Rightarrow> 'z kmem_state_scheme \<Rightarrow> (unit, 'z kmem_state_scheme) res" where
  "freevm pgdir s =
     (if pgdir = 0 then Panic ''freevm: no pgdir''
      else bind (deallocuvm pgdir KERNBASE 0 s) (\<lambda>_ s.
        bind (free_tables pgdir [0..<NPDENTRIES] s) (\<lambda>_ s.
        kfree pgdir s)))"

definition clearpteu :: "u32 \<Rightarrow> u32 \<Rightarrow> 'z kmem_state_scheme \<Rightarrow> (unit, 'z kmem_state_scheme) res" where
  "clearpteu pgdir uva s =
     bind (walkpgdir pgdir uva False s) (\<lambda>pte s.
     if pte = 0 then Panic ''clearpteu''
     else Ok () (upd_mem (\<lambda>m. st32 m pte (ld32 m pte AND NOT PTE_U)) s))"

fun copyuvm_loop ::
  "nat \<Rightarrow> u32 \<Rightarrow> u32 \<Rightarrow> u32 \<Rightarrow> u32 \<Rightarrow> 'z kmem_state_scheme \<Rightarrow> (u32, 'z kmem_state_scheme) res" where
  "copyuvm_loop 0 d pgdir i sz s = Spin"
| "copyuvm_loop (Suc n) d pgdir i sz s =
     (if \<not> i < sz then Ok d s
      else bind (walkpgdir pgdir i False s) (\<lambda>pte s.
        if pte = 0 then Panic ''copyuvm: pte should exist''
        else if ld32 (mem s) pte AND PTE_P = 0 then Panic ''copyuvm: page not present''
        else
          let pa = PTE_ADDR (ld32 (mem s) pte);
              flags = PTE_FLAGS (ld32 (mem s) pte)
          in bind (kalloc s) (\<lambda>mem' s.
             if mem' = 0 then bind (freevm d s) (\<lambda>_ s. Ok 0 s)
             else
               let s = upd_mem (\<lambda>m. memmove m mem' (P2V pa) PGSIZE) s
               in bind (mappages d i PGSIZE (V2P mem') flags s) (\<lambda>r s.
                  if r < 0 then bind (freevm d s) (\<lambda>_ s. Ok 0 s)
                  else copyuvm_loop n d pgdir (i + PGSIZE) sz s))))"

definition copyuvm :: "u32 \<Rightarrow> u32 \<Rightarrow> 'z vm_state_scheme \<Rightarrow> (u32, 'z vm_state_scheme) res" where
  "copyuvm pgdir sz s =
     bind (setupkvm s) (\<lambda>d s.
     if d = 0 then Ok 0 s else copyuvm_loop pass_fuel d pgdir 0 sz s)"

text \<open>
  \<^verbatim>\<open>uva2ka\<close> reads through the entry that \<^verbatim>\<open>walkpgdir\<close> returns without testing it, so an
  address without a page table is a read through a null pointer.
\<close>

definition uva2ka :: "u32 \<Rightarrow> u32 \<Rightarrow> 'z kmem_state_scheme \<Rightarrow> (u32, 'z kmem_state_scheme) res" where
  "uva2ka pgdir uva s =
     bind (walkpgdir pgdir uva False s) (\<lambda>pte s.
     if pte = 0 then Fault
     else if ld32 (mem s) pte AND PTE_P = 0 then Ok 0 s
     else if ld32 (mem s) pte AND PTE_U = 0 then Ok 0 s
     else Ok (P2V (PTE_ADDR (ld32 (mem s) pte))) s)"

lemma page_offset_bound: "va - PGROUNDDOWN va < PGSIZE"
proof -
  have "unat (va - PGROUNDDOWN va) = unat va mod 4096"
    by (subst dist_of_le) (simp_all add: word_le_nat_alt unat_PGROUNDDOWN minus_div_mult_eq_mod)
  then show ?thesis by (simp add: word_less_nat_alt PGSIZE_def)
qed

lemma page_rest_pos: "0 < unat (PGSIZE - (va - PGROUNDDOWN va))"
  using page_offset_bound [of va] by (simp add: unat_gt_0)

text \<open>
  \<^verbatim>\<open>copyout\<close>: the source is given by its bytes, which lie outside the pages written. Each
  round copies up to the end of a page, so that a list of bytes is used up.
\<close>

function copyout :: "u32 \<Rightarrow> u32 \<Rightarrow> u8 list \<Rightarrow> 'z kmem_state_scheme \<Rightarrow> (int, 'z kmem_state_scheme) res" where
  "copyout pgdir va buf s =
     (if buf = [] then Ok 0 s
      else
        let va0 = PGROUNDDOWN va
        in bind (uva2ka pgdir va0 s) (\<lambda>pa0 s.
           if pa0 = 0 then Ok (- 1) s
           else
             let n = unat (PGSIZE - (va - va0));
                 n = (if n > length buf then length buf else n)
             in copyout pgdir (va0 + PGSIZE) (drop n buf)
                  (upd_mem (\<lambda>m. put m (pa0 + (va - va0)) (take n buf)) s)))"
  by pat_completeness auto
termination
  using page_rest_pos
  by (relation "measure (\<lambda>(pgdir, va, buf, s). length buf)") (auto intro!: diff_less)

declare copyout.simps [simp del]

section \<open>The memory that user code and the kernel see\<close>

text \<open>
  The walk of the paging hardware: the kernel address of the byte that a virtual address
  stands for under the page directory in \<^verbatim>\<open>cr3\<close>.
\<close>

definition mmu :: "memory \<Rightarrow> u32 \<Rightarrow> u32 \<Rightarrow> (u32 \<times> u32) option" where
  "mmu m pgdir va =
     (let pde = ld32 m (pgdir + 4 * PDX va) in
      if pde AND PTE_P = 0 then None
      else
        let pte = ld32 m (P2V (PTE_ADDR pde) + 4 * PTX va) in
        if pte AND PTE_P = 0 then None
        else Some (P2V (PTE_ADDR pte) + (va AND 0xFFF), PTE_FLAGS pte))"

definition uld8 :: "u32 \<Rightarrow> 'z kmem_state_scheme \<Rightarrow> u8 option" where
  "uld8 va s = map_option (\<lambda>(a, _). mem s a) (mmu (mem s) (P2V (cr3 (cpu s))) va)"

definition uld32 :: "u32 \<Rightarrow> 'z kmem_state_scheme \<Rightarrow> u32 option" where
  "uld32 va s =
     (case (uld8 va s, uld8 (va + 1) s, uld8 (va + 2) s, uld8 (va + 3) s) of
        (Some b0, Some b1, Some b2, Some b3) \<Rightarrow>
          Some (ucast b0 OR push_bit 8 (ucast b1) OR push_bit 16 (ucast b2) OR push_bit 24 (ucast b3))
      | _ \<Rightarrow> None)"

definition ust8 :: "u32 \<Rightarrow> u8 \<Rightarrow> 'z kmem_state_scheme \<Rightarrow> (unit, 'z kmem_state_scheme) res" where
  "ust8 va b s =
     (case mmu (mem s) (P2V (cr3 (cpu s))) va of
        None \<Rightarrow> Fault
      | Some (a, flags) \<Rightarrow> if flags AND PTE_W = 0 then Fault else Ok () (s\<lparr>mem := (mem s)(a := b)\<rparr>))"

definition ust32 :: "u32 \<Rightarrow> u32 \<Rightarrow> 'z kmem_state_scheme \<Rightarrow> (unit, 'z kmem_state_scheme) res" where
  "ust32 va v s =
     bind (ust8 va (ucast v) s) (\<lambda>_ s.
     bind (ust8 (va + 1) (ucast (drop_bit 8 v)) s) (\<lambda>_ s.
     bind (ust8 (va + 2) (ucast (drop_bit 16 v)) s) (\<lambda>_ s.
     ust8 (va + 3) (ucast (drop_bit 24 v)) s)))"

end
