(* ===== verification/Proc.thy ===== *)
theory Proc
  imports Vm
begin

text \<open>
  Processes and scheduling (\<^verbatim>\<open>proc.h\<close>, \<^verbatim>\<open>proc.c\<close>): the process table, allocation of a
  slot, sleeping and waking, killing, reaping, and the scheduler with its four policies.
  A pointer to a process is its index in the table. The policy selector \<^verbatim>\<open>strategy\<close>, which
  no file of the kernel declares or sets, is a component of the state that no code changes.
  Code leaves the CPU in \<^verbatim>\<open>sched\<close>; what
  follows the call is a definition of its own, with the suffix \<^verbatim>\<open>_resume\<close>, and what the
  machine does between the two calls of \<^verbatim>\<open>swtch\<close> is the argument \<^verbatim>\<open>run\<close> of the scheduler.
\<close>

section \<open>Process structures\<close>

datatype procstate = UNUSED | EMBRYO | SLEEPING | RUNNABLE | RUNNING | ZOMBIE

text \<open>The addresses that processes sleep on.\<close>

datatype chan =
    ChanProc nat | ChanTicks | ChanInput | ChanLog | ChanBuf nat
  | ChanPipeRead u32 | ChanPipeWrite u32 | ChanSleep sleeplock_id

record proc =
  p_sz :: u32
  p_ctime :: u32
  p_etime :: u32
  p_rtime :: u32
  p_GRT :: u32
  p_cid :: u32
  p_q3rtime :: u32
  p_q3tatime :: u32
  p_q2rtime :: u32
  p_q2tatime :: u32
  p_priority :: u32
  p_queuelevel :: int
  p_myquantum :: u32
  p_pgdir :: u32
  p_kstack :: u32
  p_state :: procstate
  p_pid :: u32
  p_parent :: "nat option"
  p_tf :: u32
  p_context :: u32
  p_chan :: "chan option"
  p_killed :: bool
  p_ofile :: "nat option list"
  p_cwd :: "nat option"
  p_name :: "u8 list"

record proc_state = vm_state +
  ptable :: "proc list"
  initproc :: "nat option"
  nextpid :: u32
  ticks :: u32
  strategy :: int
  forkret_addr :: u32
  trapret_addr :: u32

abbreviation pslot :: "'z proc_state_scheme \<Rightarrow> nat \<Rightarrow> proc" where
  "pslot s i \<equiv> ptable s ! i"

definition upd_proc :: "nat \<Rightarrow> (proc \<Rightarrow> proc) \<Rightarrow> 'z proc_state_scheme \<Rightarrow> 'z proc_state_scheme" where
  "upd_proc i f s = s\<lparr>ptable := (ptable s)[i := f (pslot s i)]\<rparr>"

text \<open>The per-CPU variable \<^verbatim>\<open>proc\<close>; reading through it without a process is a fault.\<close>

definition with_proc ::
  "(nat \<Rightarrow> 'z proc_state_scheme \<Rightarrow> ('a, 'z proc_state_scheme) res) \<Rightarrow> 'z proc_state_scheme \<Rightarrow> ('a, 'z proc_state_scheme) res" where
  "with_proc f s = (case cpu_proc (cpu s) of None \<Rightarrow> Fault | Some me \<Rightarrow> f me s)"

definition set_cpu_proc :: "nat option \<Rightarrow> 'z machine_scheme \<Rightarrow> 'z machine_scheme" where
  "set_cpu_proc p = set_cpu (\<lambda>c. c\<lparr>cpu_proc := p\<rparr>)"

text \<open>Sizes and offsets of the trap frame and of the saved context on the kernel stack.\<close>

definition sizeof_trapframe :: u32 where "sizeof_trapframe = 76"
definition sizeof_context :: u32 where "sizeof_context = 20"
definition context_ebp :: u32 where "context_ebp = 12"
definition context_eip :: u32 where "context_eip = 16"

section \<open>Allocation of a process\<close>

definition pinit :: "'z proc_state_scheme \<Rightarrow> 'z proc_state_scheme" where
  "pinit s = initlock PtableLock ''ptable'' s"

definition allocproc :: "'z proc_state_scheme \<Rightarrow> (nat option, 'z proc_state_scheme) res" where
  "allocproc s =
     bind (acquire PtableLock s) (\<lambda>_ s.
     case scan (\<lambda>p. p_state p = UNUSED) (ptable s) of
       None \<Rightarrow> bind (release PtableLock s) (\<lambda>_ s. Ok None s)
     | Some i \<Rightarrow>
         let pid = nextpid s;
             s = s\<lparr>nextpid := nextpid s + 1\<rparr>;
             s = upd_proc i (\<lambda>p. p\<lparr>p_q3rtime := - 1, p_q3tatime := - 1, p_q2tatime := - 1, p_q2rtime := - 1,
               p_state := EMBRYO, p_pid := pid, p_ctime := ticks s, p_rtime := 0, p_GRT := 0, p_cid := 0,
               p_myquantum := 0, p_queuelevel := 3, p_priority := ticks s\<rparr>) s
         in bind (release PtableLock s) (\<lambda>_ s.
            bind (kalloc s) (\<lambda>kstack s.
            let s = upd_proc i (\<lambda>p. p\<lparr>p_kstack := kstack\<rparr>) s
            in if kstack = 0 then Ok None (upd_proc i (\<lambda>p. p\<lparr>p_state := UNUSED\<rparr>) s)
               else
                 let sp = kstack + KSTACKSIZE;
                     sp = sp - sizeof_trapframe;
                     s = upd_proc i (\<lambda>p. p\<lparr>p_tf := sp\<rparr>) s;
                     sp = sp - 4;
                     s = upd_mem (\<lambda>m. st32 m sp (trapret_addr s)) s;
                     sp = sp - sizeof_context;
                     s = upd_proc i (\<lambda>p. p\<lparr>p_context := sp\<rparr>) s;
                     s = upd_mem (\<lambda>m. memset m sp 0 sizeof_context) s;
                     s = upd_mem (\<lambda>m. st32 m (sp + context_eip) (forkret_addr s)) s
                 in Ok (Some i) s)))"

section \<open>Waking and killing\<close>

definition wakeup1 :: "chan option \<Rightarrow> 'z proc_state_scheme \<Rightarrow> 'z proc_state_scheme" where
  "wakeup1 ch s = s\<lparr>ptable := map (\<lambda>p.
     if p_state p = SLEEPING \<and> p_chan p = ch then p\<lparr>p_state := RUNNABLE, p_priority := ticks s\<rparr> else p)
     (ptable s)\<rparr>"

definition wakeup :: "chan \<Rightarrow> 'z proc_state_scheme \<Rightarrow> (unit, 'z proc_state_scheme) res" where
  "wakeup ch s =
     bind (acquire PtableLock s) (\<lambda>_ s. release PtableLock (wakeup1 (Some ch) s))"

definition kill :: "u32 \<Rightarrow> 'z proc_state_scheme \<Rightarrow> (int, 'z proc_state_scheme) res" where
  "kill pid s =
     bind (acquire PtableLock s) (\<lambda>_ s.
     case scan (\<lambda>p. p_pid p = pid) (ptable s) of
       None \<Rightarrow> bind (release PtableLock s) (\<lambda>_ s. Ok (- 1) s)
     | Some i \<Rightarrow>
         let s = upd_proc i (\<lambda>p. p\<lparr>p_killed := True\<rparr>) s;
             s = (if p_state (pslot s i) = SLEEPING
                  then upd_proc i (\<lambda>p. p\<lparr>p_state := RUNNABLE, p_priority := ticks s\<rparr>) s else s)
         in bind (release PtableLock s) (\<lambda>_ s. Ok 0 s))"

section \<open>Leaving the CPU\<close>

text \<open>
  Under the second policy \<^verbatim>\<open>sched\<close> first prints the queue of runnable processes, sorted
  by exchanging entries of two parallel arrays; an entry here is the pair of a priority and
  a pid. \<^verbatim>\<open>sched\<close> never returns within one run of the code, so its result has any type.
\<close>

definition queue_entries :: "proc list \<Rightarrow> (u32 \<times> u32) list" where
  "queue_entries ps = map (\<lambda>p. (p_priority p, p_pid p)) (filter (\<lambda>p. p_state p = RUNNABLE) ps)"

definition sort_inner :: "nat \<Rightarrow> (u32 \<times> u32) list \<Rightarrow> (u32 \<times> u32) list" where
  "sort_inner i xs = fold (\<lambda>j xs.
     if fst (xs ! i) > fst (xs ! j) then xs[i := xs ! j, j := xs ! i] else xs) [Suc i..<length xs] xs"

definition sort_queue :: "(u32 \<times> u32) list \<Rightarrow> (u32 \<times> u32) list" where
  "sort_queue xs = fold sort_inner [0..<length xs] xs"

fun print_queue :: "nat \<Rightarrow> (u32 \<times> u32) list \<Rightarrow> 'z cons_state_scheme \<Rightarrow> (unit, 'z cons_state_scheme) res" where
  "print_queue i [] s = cprintf [CHR 0x0A] [] s"
| "print_queue i ((_, pid) # q) s =
     bind (cprintf ''<%d:%d>, '' [PInt (of_nat i), PInt pid] s) (\<lambda>_ s. print_queue (Suc i) q s)"

definition sched :: "'z proc_state_scheme \<Rightarrow> ('a, 'z proc_state_scheme) res" where
  "sched s =
     (if \<not> holding PtableLock s then Panic ''sched ptable.lock''
      else if ncli (cpu s) \<noteq> 1 then Panic ''sched locks''
      else with_proc (\<lambda>me s.
        if p_state (pslot s me) = RUNNING then Panic ''sched running''
        else if iflag (cpu s) then Panic ''sched interruptible''
        else
          bind (if strategy s = 2 then print_queue 0 (sort_queue (queue_entries (ptable s))) s else Ok () s) (\<lambda>_ s.
          Switched s)) s)"

text \<open>After \<^verbatim>\<open>swtch\<close> returns to the process: \<^verbatim>\<open>intena\<close> is the value it saved.\<close>

definition sched_resume :: "bool \<Rightarrow> 'z machine_scheme \<Rightarrow> 'z machine_scheme" where
  "sched_resume saved s = set_cpu (\<lambda>c. c\<lparr>intena := saved\<rparr>) s"

definition yield :: "'z proc_state_scheme \<Rightarrow> ('a, 'z proc_state_scheme) res" where
  "yield s =
     bind (acquire PtableLock s) (\<lambda>_.
     with_proc (\<lambda>me s.
       sched (upd_proc me (\<lambda>p. p\<lparr>p_priority := ticks s, p_state := RUNNABLE\<rparr>) s)) )"

definition yield_resume :: "bool \<Rightarrow> 'z proc_state_scheme \<Rightarrow> (unit, 'z proc_state_scheme) res" where
  "yield_resume saved s = release PtableLock (sched_resume saved s)"

definition sleep ::
  "chan \<Rightarrow> lock_id option \<Rightarrow> 'z proc_state_scheme \<Rightarrow> ('a, 'z proc_state_scheme) res" where
  "sleep ch lk s =
     (case cpu_proc (cpu s) of
        None \<Rightarrow> Panic ''sleep''
      | Some me \<Rightarrow>
          (case lk of
             None \<Rightarrow> Panic ''sleep without lk''
           | Some l \<Rightarrow>
               bind (if l \<noteq> PtableLock
                     then bind (acquire PtableLock s) (\<lambda>_ s. release l s) else Ok () s) (\<lambda>_ s.
               sched (upd_proc me (\<lambda>p. p\<lparr>p_chan := Some ch, p_state := SLEEPING\<rparr>) s))))"

definition sleep_resume :: "bool \<Rightarrow> lock_id \<Rightarrow> 'z proc_state_scheme \<Rightarrow> (unit, 'z proc_state_scheme) res" where
  "sleep_resume saved l s =
     with_proc (\<lambda>me s.
       let s = upd_proc me (\<lambda>p. p\<lparr>p_chan := None\<rparr>) s
       in if l \<noteq> PtableLock then bind (release PtableLock s) (\<lambda>_ s. acquire l s) else Ok () s)
     (sched_resume saved s)"

section \<open>Waiting for children\<close>

text \<open>The common part of the three system calls: free the slot of a zombie child.\<close>

definition reap :: "nat \<Rightarrow> 'z proc_state_scheme \<Rightarrow> (u32, 'z proc_state_scheme) res" where
  "reap i s =
     (let pid = p_pid (pslot s i) in
      bind (kfree (p_kstack (pslot s i)) s) (\<lambda>_ s.
      let s = upd_proc i (\<lambda>p. p\<lparr>p_kstack := 0\<rparr>) s in
      bind (freevm (p_pgdir (pslot s i)) s) (\<lambda>_ s.
      let s = upd_proc i (\<lambda>p. p\<lparr>p_state := UNUSED, p_pid := 0, p_parent := None,
                p_name := (p_name p)[0 := 0], p_killed := False\<rparr>) s
      in bind (release PtableLock s) (\<lambda>_ s. Ok pid s))))"

text \<open>
  One pass over the table, with \<^verbatim>\<open>found\<close> for what each of the calls does to a zombie child
  before it is reaped: the index of the first one, or a return with -1, or sleep.
\<close>

definition wait_pass ::
  "(nat \<Rightarrow> 'z proc_state_scheme \<Rightarrow> (u32, 'z proc_state_scheme) res) \<Rightarrow>
   'z proc_state_scheme \<Rightarrow> (u32, 'z proc_state_scheme) res" where
  "wait_pass found =
     with_proc (\<lambda>me s.
       case scan (\<lambda>p. p_parent p = Some me \<and> p_state p = ZOMBIE) (ptable s) of
         Some i \<Rightarrow> found i s
       | None \<Rightarrow>
           let havekids = (\<exists>p \<in> set (ptable s). p_parent p = Some me)
           in if \<not> havekids \<or> p_killed (pslot s me) then bind (release PtableLock s) (\<lambda>_ s. Ok (- 1) s)
              else sleep (ChanProc me) (Some PtableLock) s)"

definition wait :: "'z proc_state_scheme \<Rightarrow> (u32, 'z proc_state_scheme) res" where
  "wait s = bind (acquire PtableLock s) (\<lambda>_ s. wait_pass reap s)"

definition wait_resume :: "bool \<Rightarrow> 'z proc_state_scheme \<Rightarrow> (u32, 'z proc_state_scheme) res" where
  "wait_resume saved s =
     bind (sleep_resume saved PtableLock s) (\<lambda>_ s. wait_pass reap s)"

text \<open>
  \<^verbatim>\<open>wait22\<close> stores the waiting time and the running time of the child through pointers to
  \<^verbatim>\<open>char\<close>: each store is one byte of user memory.
\<close>

definition wait22_found :: "u32 \<Rightarrow> u32 \<Rightarrow> nat \<Rightarrow> 'z proc_state_scheme \<Rightarrow> (u32, 'z proc_state_scheme) res" where
  "wait22_found wtime rtime i s =
     (let p = pslot s i in
      bind (ust8 wtime (ucast (p_etime p - p_ctime p - p_rtime p)) s) (\<lambda>_ s.
      bind (ust8 rtime (ucast (p_rtime p)) s) (\<lambda>_ s.
      reap i s)))"

definition wait22 :: "u32 \<Rightarrow> u32 \<Rightarrow> 'z proc_state_scheme \<Rightarrow> (u32, 'z proc_state_scheme) res" where
  "wait22 wtime rtime s =
     bind (acquire PtableLock s) (\<lambda>_ s. wait_pass (wait22_found wtime rtime) s)"

definition wait33_found ::
  "u32 \<Rightarrow> u32 \<Rightarrow> u32 \<Rightarrow> u32 \<Rightarrow> u32 \<Rightarrow> u32 \<Rightarrow> u32 \<Rightarrow> nat \<Rightarrow> 'z proc_state_scheme \<Rightarrow> (u32, 'z proc_state_scheme) res" where
  "wait33_found wtime rtime cid q3rtime q3tatime q2rtime q2tatime i s =
     (let p = pslot s i in
      bind (ust8 wtime (ucast (p_etime p - p_ctime p - p_rtime p)) s) (\<lambda>_ s.
      bind (ust8 rtime (ucast (p_rtime p)) s) (\<lambda>_ s.
      bind (ust8 cid (ucast (p_cid p)) s) (\<lambda>_ s.
      bind (ust8 q3rtime (ucast (p_q3rtime p)) s) (\<lambda>_ s.
      bind (ust8 q3tatime (ucast (p_q3tatime p)) s) (\<lambda>_ s.
      bind (ust8 q2rtime (ucast (p_q2rtime p)) s) (\<lambda>_ s.
      bind (ust8 q2tatime (ucast (p_q2tatime p)) s) (\<lambda>_ s.
      bind (cprintf (''proc: proc->q3rtime:  %d  &&   proc->q3tatime: %d  '' @ [CHR 0x0A])
              [PInt (p_q3rtime p), PInt (p_q3tatime p)] s) (\<lambda>_ s.
      bind (cprintf (''proc: proc->q2rtime:  %d  &&   proc->q2tatime: %d  '' @ [CHR 0x0A])
              [PInt (p_q2rtime p), PInt (p_q2tatime p)] s) (\<lambda>_ s.
      reap i s))))))))))"

definition wait33 ::
  "u32 \<Rightarrow> u32 \<Rightarrow> u32 \<Rightarrow> u32 \<Rightarrow> u32 \<Rightarrow> u32 \<Rightarrow> u32 \<Rightarrow> 'z proc_state_scheme \<Rightarrow> (u32, 'z proc_state_scheme) res" where
  "wait33 wtime rtime cid q3rtime q3tatime q2rtime q2tatime s =
     bind (acquire PtableLock s) (\<lambda>_ s.
     wait_pass (wait33_found wtime rtime cid q3rtime q3tatime q2rtime q2tatime) s)"

section \<open>Address space of the current process\<close>

definition switchuvm :: "nat \<Rightarrow> 'z proc_state_scheme \<Rightarrow> (unit, 'z proc_state_scheme) res" where
  "switchuvm i s =
     with_proc (\<lambda>me s.
       let s = set_cpu (\<lambda>c. c\<lparr>ts_esp0 := p_kstack (pslot s me) + KSTACKSIZE\<rparr>) s
       in if p_pgdir (pslot s i) = 0 then Panic ''switchuvm: no pgdir''
          else popcli (set_cpu (\<lambda>c. c\<lparr>cr3 := V2P (p_pgdir (pslot s i))\<rparr>) s))
     (pushcli s)"

definition growproc :: "u32 \<Rightarrow> 'z proc_state_scheme \<Rightarrow> (int, 'z proc_state_scheme) res" where
  "growproc n =
     with_proc (\<lambda>me s.
       let sz = p_sz (pslot s me);
           finish = (\<lambda>sz s. bind (switchuvm me (upd_proc me (\<lambda>p. p\<lparr>p_sz := sz\<rparr>) s)) (\<lambda>_ s. Ok 0 s))
       in if 0 <s n then
            bind (allocuvm (p_pgdir (pslot s me)) sz (sz + n) s) (\<lambda>sz s. if sz = 0 then Ok (- 1) s else finish sz s)
          else if n <s 0 then
            bind (deallocuvm (p_pgdir (pslot s me)) sz (sz + n) s) (\<lambda>sz s. if sz = 0 then Ok (- 1) s else finish sz s)
          else finish sz s)"

section \<open>The scheduler\<close>

text \<open>
  Running a chosen process, which the loop has stored in \<^verbatim>\<open>proc\<close>: \<^verbatim>\<open>run\<close> is the machine
  from the \<^verbatim>\<open>swtch\<close> into the process to the \<^verbatim>\<open>swtch\<close> back. The round-robin loops leave the
  priority alone, the selecting policies set it to the current tick.
\<close>

definition dispatch ::
  "(nat \<Rightarrow> 'z proc_state_scheme \<Rightarrow> (unit, 'z proc_state_scheme) res) \<Rightarrow> bool \<Rightarrow> nat \<Rightarrow>
   'z proc_state_scheme \<Rightarrow> (unit, 'z proc_state_scheme) res" where
  "dispatch run stamp i s =
     (let s = upd_proc i (\<lambda>p. p\<lparr>p_myquantum := 0\<rparr>) s in
      bind (switchuvm i s) (\<lambda>_ s.
      let s = (if stamp then upd_proc i (\<lambda>p. p\<lparr>p_priority := ticks s\<rparr>) s else s);
          s = upd_proc i (\<lambda>p. p\<lparr>p_state := RUNNING\<rparr>) s
      in bind (run i s) (\<lambda>_ s.
         Ok () (set_cpu_proc None (switchkvm s)))))"

fun rr_loop ::
  "(nat \<Rightarrow> 'z proc_state_scheme \<Rightarrow> (unit, 'z proc_state_scheme) res) \<Rightarrow> (proc \<Rightarrow> bool) \<Rightarrow> nat list \<Rightarrow>
   'z proc_state_scheme \<Rightarrow> (unit, 'z proc_state_scheme) res" where
  "rr_loop run sel [] s = Ok () s"
| "rr_loop run sel (i # is) s =
     (if \<not> sel (pslot s i) then rr_loop run sel is s
      else bind (dispatch run False i (set_cpu_proc (Some i) s)) (\<lambda>_ s. rr_loop run sel is s))"

text \<open>
  The selecting loops: the last process whose key is below the minimum so far is left in
  \<^verbatim>\<open>proc\<close>. The guaranteed policy computes the key of each process on the way.
\<close>

fun fifo_loop ::
  "(proc \<Rightarrow> bool) \<Rightarrow> nat list \<Rightarrow> u32 \<Rightarrow> 'z proc_state_scheme \<Rightarrow> u32 \<times> 'z proc_state_scheme" where
  "fifo_loop sel [] tmp s = (tmp, s)"
| "fifo_loop sel (i # is) tmp s =
     (if \<not> sel (pslot s i) then fifo_loop sel is tmp s
      else if p_priority (pslot s i) < tmp
        then fifo_loop sel is (p_priority (pslot s i)) (set_cpu_proc (Some i) s)
        else fifo_loop sel is tmp s)"

definition grt_of :: "u32 \<Rightarrow> proc \<Rightarrow> u32" where
  "grt_of now p = (if now - p_ctime p \<noteq> 0 then p_rtime p div (now - p_ctime p) else 0)"

fun grt_loop ::
  "(proc \<Rightarrow> bool) \<Rightarrow> nat list \<Rightarrow> u32 \<Rightarrow> 'z proc_state_scheme \<Rightarrow> u32 \<times> 'z proc_state_scheme" where
  "grt_loop sel [] mn s = (mn, s)"
| "grt_loop sel (i # is) mn s =
     (if \<not> sel (pslot s i) then grt_loop sel is mn s
      else
        let s = upd_proc i (\<lambda>p. p\<lparr>p_GRT := grt_of (ticks s) p\<rparr>) s
        in if p_GRT (pslot s i) < mn
           then grt_loop sel is (p_GRT (pslot s i)) (set_cpu_proc (Some i) s)
           else grt_loop sel is mn s)"

definition dispatch_proc ::
  "(nat \<Rightarrow> 'z proc_state_scheme \<Rightarrow> (unit, 'z proc_state_scheme) res) \<Rightarrow>
   'z proc_state_scheme \<Rightarrow> (unit, 'z proc_state_scheme) res" where
  "dispatch_proc run = with_proc (dispatch run True)"

definition runnable :: "proc \<Rightarrow> bool" where
  "runnable p \<longleftrightarrow> p_state p = RUNNABLE"

definition runnable_at :: "int \<Rightarrow> proc \<Rightarrow> bool" where
  "runnable_at level p \<longleftrightarrow> p_state p = RUNNABLE \<and> p_queuelevel p = level"

definition sched_rr ::
  "(nat \<Rightarrow> 'z proc_state_scheme \<Rightarrow> (unit, 'z proc_state_scheme) res) \<Rightarrow> 'z proc_state_scheme \<Rightarrow> (unit, 'z proc_state_scheme) res" where
  "sched_rr run s = rr_loop run runnable [0..<NPROC] s"

definition sched_fifo ::
  "(nat \<Rightarrow> 'z proc_state_scheme \<Rightarrow> (unit, 'z proc_state_scheme) res) \<Rightarrow> 'z proc_state_scheme \<Rightarrow> (unit, 'z proc_state_scheme) res" where
  "sched_fifo run s =
     (let tmp2 = ticks s;
          (tmp, s) = fifo_loop runnable [0..<NPROC] tmp2 s
      in if tmp \<noteq> tmp2 then dispatch_proc run s else Ok () s)"

definition sched_grt ::
  "(nat \<Rightarrow> 'z proc_state_scheme \<Rightarrow> (unit, 'z proc_state_scheme) res) \<Rightarrow> 'z proc_state_scheme \<Rightarrow> (unit, 'z proc_state_scheme) res" where
  "sched_grt run s =
     (let min2 = ticks s;
          (mn, s) = grt_loop runnable [0..<NPROC] min2 s
      in if mn \<noteq> min2 then dispatch_proc run s else Ok () s)"

definition sched_mlq ::
  "(nat \<Rightarrow> 'z proc_state_scheme \<Rightarrow> (unit, 'z proc_state_scheme) res) \<Rightarrow> 'z proc_state_scheme \<Rightarrow> (unit, 'z proc_state_scheme) res" where
  "sched_mlq run s =
     (let min2 = ticks s;
          (mn, s) = grt_loop (runnable_at 3) [0..<NPROC] min2 s
      in if mn \<noteq> min2 then dispatch_proc run s
         else
           let (mn, s) = fifo_loop (runnable_at 2) [0..<NPROC] mn s
           in if mn \<noteq> min2 then dispatch_proc run s
              else rr_loop run (runnable_at 1) [0..<NPROC] s)"

text \<open>One turn of the endless loop of \<^verbatim>\<open>scheduler\<close>, and any number of turns.\<close>

definition scheduler_round ::
  "(nat \<Rightarrow> 'z proc_state_scheme \<Rightarrow> (unit, 'z proc_state_scheme) res) \<Rightarrow> 'z proc_state_scheme \<Rightarrow> (unit, 'z proc_state_scheme) res" where
  "scheduler_round run s =
     bind (acquire PtableLock (set_cpu (\<lambda>c. c\<lparr>iflag := True\<rparr>) s)) (\<lambda>_ s.
     bind (if strategy s = 1 then sched_rr run s
           else if strategy s = 2 then sched_fifo run s
           else if strategy s = 3 then sched_grt run s
           else if strategy s = 4 then sched_mlq run s
           else Ok () s) (\<lambda>_ s.
     release PtableLock s))"

fun scheduler ::
  "nat \<Rightarrow> (nat \<Rightarrow> 'z proc_state_scheme \<Rightarrow> (unit, 'z proc_state_scheme) res) \<Rightarrow> 'z proc_state_scheme \<Rightarrow> (unit, 'z proc_state_scheme) res" where
  "scheduler 0 run s = Ok () s"
| "scheduler (Suc n) run s =
     bind (scheduler_round run s) (\<lambda>_ s. scheduler n run s)"

section \<open>The process listing\<close>

definition state_name :: "procstate \<Rightarrow> string" where
  "state_name st = (case st of UNUSED \<Rightarrow> ''unused'' | EMBRYO \<Rightarrow> ''embryo'' | SLEEPING \<Rightarrow> ''sleep ''
     | RUNNABLE \<Rightarrow> ''runble'' | RUNNING \<Rightarrow> ''run   '' | ZOMBIE \<Rightarrow> ''zombie'')"

fun print_pcs :: "u32 list \<Rightarrow> 'z cons_state_scheme \<Rightarrow> (unit, 'z cons_state_scheme) res" where
  "print_pcs [] s = Ok () s"
| "print_pcs (pc # rest) s =
     (if pc = 0 then Ok () s
      else bind (cprintf '' %p'' [PInt pc] s) (\<lambda>_ s. print_pcs rest s))"

fun procdump_loop :: "nat list \<Rightarrow> 'z proc_state_scheme \<Rightarrow> (unit, 'z proc_state_scheme) res" where
  "procdump_loop [] s = Ok () s"
| "procdump_loop (i # is) s =
     (let p = pslot s i in
      if p_state p = UNUSED then procdump_loop is s
      else
        bind (cprintf ''%d %s %s'' [PInt (p_pid p), PStr (bytes (state_name (p_state p))), PStr (p_name p)] s) (\<lambda>_ s.
        bind (if p_state p = SLEEPING
              then print_pcs (getcallerpcs (mem s) (ld32 (mem s) (p_context p + context_ebp) + 8)) s
              else Ok () s) (\<lambda>_ s.
        bind (cprintf [CHR 0x0A] [] s) (\<lambda>_ s. procdump_loop is s))))"

definition procdump :: "'z proc_state_scheme \<Rightarrow> (unit, 'z proc_state_scheme) res" where
  "procdump s = procdump_loop [0..<NPROC] s"

end
