(* ===== verification/Policies.thy ===== *)
theory Policies
  imports Proc "HOL-Library.Multiset"
begin

text \<open>
  Which process the scheduler runs next, policy by policy, and the sorted listing that
  \<^verbatim>\<open>sched\<close> prints: the loops of \<^verbatim>\<open>proc.c\<close> compared with declarative choices.
\<close>

section \<open>The printed queue is sorted\<close>

lemma mset_exchange:
  assumes "i < length xs" "j < length xs"
  shows "mset (xs[i := xs ! j, j := xs ! i]) = mset xs"
  using assms by (simp add: mset_swap)

definition inner_step :: "nat \<Rightarrow> nat \<Rightarrow> (u32 \<times> u32) list \<Rightarrow> (u32 \<times> u32) list" where
  "inner_step i j xs = (if fst (xs ! i) > fst (xs ! j) then xs[i := xs ! j, j := xs ! i] else xs)"

lemma sort_inner_eq: "sort_inner i xs = fold (inner_step i) [Suc i..<length xs] xs"
  by (simp add: sort_inner_def inner_step_def [abs_def])

text \<open>
  After the inner loop has gone through the positions below \<open>k\<close>, the entry at \<open>i\<close> is the
  least of those from \<open>i\<close> to \<open>k\<close>, and nothing in front of \<open>i\<close> has moved.
\<close>

lemma inner_steps:
  assumes "i < k" "k \<le> length xs"
  defines "ys \<equiv> fold (inner_step i) [Suc i..<k] xs"
  shows "length ys = length xs \<and> mset ys = mset xs \<and> take i ys = take i xs \<and> drop k ys = drop k xs \<and>
    (\<forall>j. i \<le> j \<and> j < k \<longrightarrow> fst (ys ! i) \<le> fst (ys ! j))"
  using assms(1,2) unfolding ys_def
proof (induction "k - Suc i" arbitrary: k)
  case 0
  then have "k = Suc i" by simp
  then show ?case by (auto simp: less_Suc_eq)
next
  case (Suc d)
  define k' where "k' = k - 1"
  have k': "k = Suc k'" "Suc i \<le> k'" "k' < length xs" using Suc by (simp_all add: k'_def)
  define zs where "zs = fold (inner_step i) [Suc i..<k'] xs"
  have IH: "length zs = length xs" "mset zs = mset xs" "take i zs = take i xs" "drop k' zs = drop k' xs"
      "\<And>j. i \<le> j \<Longrightarrow> j < k' \<Longrightarrow> fst (zs ! i) \<le> fst (zs ! j)"
    using Suc.hyps(1) [of k'] Suc.hyps(2) k' by (auto simp: zs_def)
  have ys: "fold (inner_step i) [Suc i..<k] xs = inner_step i k' zs"
    using k' by (simp add: zs_def)
  have len: "i < length zs" "k' < length zs" using k' IH(1) by simp_all
  have d: "drop k zs = drop k xs"
    using arg_cong [OF IH(4), of tl] k'(1) by (simp add: drop_Suc tl_drop)
  show ?case
  proof (cases "fst (zs ! i) > fst (zs ! k')")
    case True
    then have e: "inner_step i k' zs = zs[i := zs ! k', k' := zs ! i]" by (simp add: inner_step_def)
    have "fst (zs ! k') \<le> fst (zs[i := zs ! k', k' := zs ! i] ! j)" if "i \<le> j" "j < k" for j
      using that True IH(5) [of j] len k' by (cases "j = i"; cases "j = k'") auto
    moreover have "zs[i := zs ! k', k' := zs ! i] ! i = zs ! k'" using len k' by simp
    ultimately show ?thesis
      unfolding ys e using IH len k' d mset_exchange [OF len] by simp
  next
    case False
    then have e: "inner_step i k' zs = zs" by (simp add: inner_step_def)
    show ?thesis
      unfolding ys e using IH False k' d by (auto simp: less_Suc_eq)
  qed
qed

lemma sort_inner_props:
  assumes "i < length xs"
  shows "length (sort_inner i xs) = length xs" "mset (sort_inner i xs) = mset xs"
    "take i (sort_inner i xs) = take i xs"
    "\<And>j. i \<le> j \<Longrightarrow> j < length xs \<Longrightarrow> fst (sort_inner i xs ! i) \<le> fst (sort_inner i xs ! j)"
  using inner_steps [of i "length xs" xs] assms unfolding sort_inner_eq by auto

text \<open>After \<open>k\<close> turns of the outer loop the first \<open>k\<close> entries are the least ones, in order.\<close>

definition settled_upto :: "nat \<Rightarrow> (u32 \<times> u32) list \<Rightarrow> bool" where
  "settled_upto k xs \<longleftrightarrow> (\<forall>i j. i < k \<longrightarrow> i \<le> j \<longrightarrow> j < length xs \<longrightarrow> fst (xs ! i) \<le> fst (xs ! j))"

lemma settled_upto_step:
  assumes "settled_upto k xs" "k < length xs"
  shows "settled_upto (Suc k) (sort_inner k xs)"
proof -
  note p = sort_inner_props [OF assms(2)]
  have front: "sort_inner k xs ! i = xs ! i" if "i < k" for i
    using arg_cong [OF p(3), of "\<lambda>l. l ! i"] that assms(2) p(1) by simp
  have low: "fst (xs ! i) \<le> fst y" if "i < k" "y \<in> set (drop k (sort_inner k xs))" for i y
  proof -
    have "mset (take k xs @ drop k (sort_inner k xs)) = mset (take k xs @ drop k xs)"
      using p(2,3) by (metis append_take_drop_id)
    then have "set (drop k (sort_inner k xs)) = set (drop k xs)"
      by (metis add_left_cancel mset_append set_mset_mset)
    with that obtain j where "k \<le> j" "j < length xs" "y = xs ! j"
      by (auto simp: in_set_conv_nth) (metis add.commute le_add2 less_diff_conv nth_drop)
    with assms(1) that show ?thesis by (simp add: settled_upto_def)
  qed
  have "fst (sort_inner k xs ! i) \<le> fst (sort_inner k xs ! j)"
    if ij: "i < Suc k" "i \<le> j" "j < length xs" for i j
  proof (cases "i = k")
    case True
    then show ?thesis using p(4) ij by simp
  next
    case False
    with ij have i: "i < k" by simp
    show ?thesis
    proof (cases "j < k")
      case True
      with i ij assms(1) front show ?thesis by (simp add: settled_upto_def)
    next
      case False
      then have "sort_inner k xs ! j \<in> set (drop k (sort_inner k xs))"
        using ij p(1) by (auto simp: in_set_conv_nth intro!: exI [of _ "j - k"])
      from low [OF i this] front [OF i] show ?thesis by simp
    qed
  qed
  then show ?thesis by (simp add: settled_upto_def p(1))
qed

lemma sort_steps:
  "k \<le> length xs \<Longrightarrow> settled_upto k (fold sort_inner [0..<k] xs) \<and>
    mset (fold sort_inner [0..<k] xs) = mset xs \<and> length (fold sort_inner [0..<k] xs) = length xs"
proof (induction k)
  case 0
  show ?case by (simp add: settled_upto_def)
next
  case (Suc k)
  then show ?case
    using settled_upto_step [of k "fold sort_inner [0..<k] xs"]
      sort_inner_props(1,2) [of k "fold sort_inner [0..<k] xs"] by simp
qed

text \<open>
  C6: the queue that \<^verbatim>\<open>sched\<close> prints under the second policy: the exchange sort leaves the
  runnable processes, each with its own pid, in order of priority.
\<close>

theorem sort_queue_sorted:
  "sorted (map fst (sort_queue (queue_entries ps))) \<and>
   mset (sort_queue (queue_entries ps)) =
     image_mset (\<lambda>p. (p_priority p, p_pid p)) (filter_mset (\<lambda>p. p_state p = RUNNABLE) (mset ps))"
proof -
  let ?q = "queue_entries ps"
  have "settled_upto (length ?q) (sort_queue ?q)" "mset (sort_queue ?q) = mset ?q"
      "length (sort_queue ?q) = length ?q"
    using sort_steps [of "length ?q" ?q] by (simp_all add: sort_queue_def)
  then show ?thesis
    by (auto simp: sorted_iff_nth_mono settled_upto_def queue_entries_def mset_filter)
qed

section \<open>The selecting loops\<close>

lemma set_cpu_proc_sel [simp]:
  "ptable (set_cpu_proc p s) = ptable s" "ticks (set_cpu_proc p s) = ticks s"
  "strategy (set_cpu_proc p s) = strategy s"
  "set_cpu_proc p (set_cpu_proc q s) = set_cpu_proc p s"
  by (simp_all add: set_cpu_proc_def machine_defs)

lemma with_proc_set_cpu_proc [simp]: "with_proc f (set_cpu_proc (Some i) s) = f i (set_cpu_proc (Some i) s)"
  by (simp add: with_proc_def set_cpu_proc_def machine_defs)

lemma upd_proc_set_cpu_proc:
  "upd_proc i f (set_cpu_proc p s) = set_cpu_proc p (upd_proc i f s)"
  by (simp add: upd_proc_def set_cpu_proc_def machine_defs)

text \<open>
  The choice: among the entries that satisfy \<open>sel\<close> and have a key below \<open>now\<close>, the one with
  the least key, and the first of those.
\<close>

definition chosen :: "(proc \<Rightarrow> bool) \<Rightarrow> (proc \<Rightarrow> u32) \<Rightarrow> u32 \<Rightarrow> proc list \<Rightarrow> nat \<Rightarrow> bool" where
  "chosen sel key now ps i \<longleftrightarrow> i < NPROC \<and> sel (ps ! i) \<and> key (ps ! i) < now \<and>
     (\<forall>j < NPROC. sel (ps ! j) \<longrightarrow> key (ps ! i) \<le> key (ps ! j) \<and> (key (ps ! i) = key (ps ! j) \<longrightarrow> i \<le> j))"

definition none_chosen :: "(proc \<Rightarrow> bool) \<Rightarrow> (proc \<Rightarrow> u32) \<Rightarrow> u32 \<Rightarrow> proc list \<Rightarrow> bool" where
  "none_chosen sel key now ps \<longleftrightarrow> (\<forall>j < NPROC. sel (ps ! j) \<longrightarrow> now \<le> key (ps ! j))"

lemma split_at: "i < n \<Longrightarrow> [0..<n] = [0..<i] @ i # [Suc i..<n]"
  using upt_add_eq_append [of 0 i "n - i"] by (simp add: upt_conv_Cons)

lemma chosenD:
  assumes "chosen sel key now ps i"
  shows "i < NPROC" "sel (ps ! i)" "key (ps ! i) < now"
    "j < NPROC \<Longrightarrow> sel (ps ! j) \<Longrightarrow> key (ps ! i) \<le> key (ps ! j)"
    "j < i \<Longrightarrow> sel (ps ! j) \<Longrightarrow> key (ps ! i) < key (ps ! j)"
proof -
  note c = assms [unfolded chosen_def]
  from c show "i < NPROC" "sel (ps ! i)" "key (ps ! i) < now"
    and le: "j < NPROC \<Longrightarrow> sel (ps ! j) \<Longrightarrow> key (ps ! i) \<le> key (ps ! j)" by simp_all
  assume j: "j < i" "sel (ps ! j)"
  with c have jn: "j < NPROC" by simp
  with c j have "key (ps ! i) = key (ps ! j) \<longrightarrow> i \<le> j" by blast
  with le jn j show "key (ps ! i) < key (ps ! j)" by simp
qed

text \<open>
  Both selecting loops compute the least key below the bound and leave the entry that has it
  in \<^verbatim>\<open>proc\<close>.
\<close>

fun least_loop :: "(proc \<Rightarrow> bool) \<Rightarrow> (proc \<Rightarrow> u32) \<Rightarrow> proc list \<Rightarrow> nat list \<Rightarrow> u32 \<Rightarrow> nat option \<Rightarrow> u32 \<times> nat option" where
  "least_loop sel key ps [] mn best = (mn, best)"
| "least_loop sel key ps (i # is) mn best =
     (if sel (ps ! i) \<and> key (ps ! i) < mn then least_loop sel key ps is (key (ps ! i)) (Some i)
      else least_loop sel key ps is mn best)"

definition left_in :: "nat option \<Rightarrow> 'z machine_scheme \<Rightarrow> 'z machine_scheme" where
  "left_in best s = (case best of None \<Rightarrow> s | Some i \<Rightarrow> set_cpu_proc (Some i) s)"

lemma least_loop_none:
  "\<forall>j \<in> set is. sel (ps ! j) \<longrightarrow> mn \<le> key (ps ! j) \<Longrightarrow> least_loop sel key ps is mn best = (mn, best)"
  by (induction "is") auto

lemma least_loop_some:
  assumes "sel (ps ! i)" "key (ps ! i) < mn"
    and "\<forall>j \<in> set before. sel (ps ! j) \<longrightarrow> key (ps ! i) < key (ps ! j)"
    and "\<forall>j \<in> set after. sel (ps ! j) \<longrightarrow> key (ps ! i) \<le> key (ps ! j)"
  shows "least_loop sel key ps (before @ i # after) mn best = (key (ps ! i), Some i)"
  using assms(2,3)
  by (induction before arbitrary: mn best) (use assms(1,4) in \<open>auto intro!: least_loop_none\<close>)

lemma least_loop_chosen:
  assumes "chosen sel key mn ps i"
  shows "least_loop sel key ps [0..<NPROC] mn best = (key (ps ! i), Some i)"
  unfolding split_at [OF chosenD(1) [OF assms]]
  by (intro least_loop_some) (simp_all add: chosenD [OF assms])

lemma least_loop_none_chosen:
  "none_chosen sel key mn ps \<Longrightarrow> least_loop sel key ps [0..<NPROC] mn best = (mn, best)"
  by (intro least_loop_none) (auto simp: none_chosen_def)

lemma fifo_loop_eq:
  "fifo_loop sel is tmp (left_in best s) =
     (let (t, b) = least_loop sel p_priority (ptable s) is tmp best in (t, left_in b s))"
proof (induction "is" arbitrary: tmp best)
  case (Cons i "is")
  have [simp]: "ptable (left_in best s) = ptable s" "set_cpu_proc (Some i) (left_in best s) = left_in (Some i) s"
    by (simp_all add: left_in_def split: option.split)
  show ?case using Cons [of "p_priority (pslot s i)" "Some i"] Cons [of tmp best] by simp
qed simp

lemma fifo_loop_chosen:
  "chosen sel p_priority tmp (ptable s) i \<Longrightarrow>
    fifo_loop sel [0..<NPROC] tmp s = (p_priority (pslot s i), set_cpu_proc (Some i) s)"
  using fifo_loop_eq [of sel "[0..<NPROC]" tmp None s] by (simp add: least_loop_chosen left_in_def)

lemma fifo_loop_none_chosen:
  "none_chosen sel p_priority tmp (ptable s) \<Longrightarrow> fifo_loop sel [0..<NPROC] tmp s = (tmp, s)"
  using fifo_loop_eq [of sel "[0..<NPROC]" tmp None s] by (simp add: least_loop_none_chosen left_in_def)

text \<open>
  C3: the second policy. The scheduler runs the process that has waited longest: of the
  runnable processes whose time stamp lies in the past, the one with the least stamp, and
  the lowest slot among equals. When there is none it runs nothing.
\<close>

theorem sched_fifo_oldest:
  "(chosen runnable p_priority (ticks s) (ptable s) i \<longrightarrow>
      sched_fifo run s = dispatch run True i (set_cpu_proc (Some i) s)) \<and>
   (none_chosen runnable p_priority (ticks s) (ptable s) \<longrightarrow> sched_fifo run s = Ok () s)"
proof (intro conjI impI)
  assume c: "chosen runnable p_priority (ticks s) (ptable s) i"
  then have "p_priority (pslot s i) \<noteq> ticks s" by (auto simp: chosen_def)
  then show "sched_fifo run s = dispatch run True i (set_cpu_proc (Some i) s)"
    by (simp add: sched_fifo_def fifo_loop_chosen [OF c] dispatch_proc_def with_proc_set_cpu_proc)
qed (simp add: sched_fifo_def fifo_loop_none_chosen)

section \<open>A small process table\<close>

definition blank_proc :: proc where
  "blank_proc = \<lparr>p_sz = 0, p_ctime = 0, p_etime = 0, p_rtime = 0, p_GRT = 0, p_cid = 0, p_q3rtime = 0,
     p_q3tatime = 0, p_q2rtime = 0, p_q2tatime = 0, p_priority = 0, p_queuelevel = 0, p_myquantum = 0,
     p_pgdir = 0, p_kstack = 0, p_state = UNUSED, p_pid = 0, p_parent = None, p_tf = 0, p_context = 0,
     p_chan = None, p_killed = False, p_ofile = replicate NOFILE None, p_cwd = None, p_name = replicate 16 0\<rparr>"

definition table_state :: "proc list \<Rightarrow> u32 \<Rightarrow> int \<Rightarrow> proc_state" where
  "table_state ps now st = cons_state.extend boot_console
     \<lparr>kpgdir = 0x803ff000, kdata = 0x80108000, ptable = ps, initproc = None, nextpid = 3, ticks = now,
      strategy = st, forkret_addr = 0x80103d00, trapret_addr = 0x80105a00\<rparr>"

lemma table_state_sel [simp]:
  "ptable (table_state ps now st) = ps" "ticks (table_state ps now st) = now"
  "strategy (table_state ps now st) = st" "nextpid (table_state ps now st) = 3"
  "initproc (table_state ps now st) = None"
  by (simp_all add: table_state_def cons_state.defs)

definition two_waiting :: "proc list" where
  "two_waiting = (replicate NPROC blank_proc)
     [3 := blank_proc\<lparr>p_state := RUNNABLE, p_pid := 1, p_priority := 5, p_queuelevel := 2\<rparr>,
      7 := blank_proc\<lparr>p_state := RUNNABLE, p_pid := 2, p_priority := 2, p_queuelevel := 2\<rparr>]"

lemma two_waiting_nth:
  "j < NPROC \<Longrightarrow> two_waiting ! j =
     (if j = 7 then blank_proc\<lparr>p_state := RUNNABLE, p_pid := 2, p_priority := 2, p_queuelevel := 2\<rparr>
      else if j = 3 then blank_proc\<lparr>p_state := RUNNABLE, p_pid := 1, p_priority := 5, p_queuelevel := 2\<rparr>
      else blank_proc)"
  by (simp add: two_waiting_def nth_list_update NPROC_def)

lemma two_waiting_chosen: "chosen runnable p_priority 9 two_waiting 7"
  by (simp add: chosen_def two_waiting_nth runnable_def blank_proc_def NPROC_def)

lemma sched_fifo_oldest_witness:
  "sched_fifo (\<lambda>_. Ok ()) (table_state two_waiting 9 2) =
     dispatch (\<lambda>_. Ok ()) True 7 (set_cpu_proc (Some 7) (table_state two_waiting 9 2))"
  using sched_fifo_oldest [of "table_state two_waiting 9 2" 7 "\<lambda>_. Ok ()"] two_waiting_chosen by simp

section \<open>The guaranteed policy\<close>

text \<open>What the loop leaves in the table: a new share for every process it looks at.\<close>

definition grt_stamp :: "(proc \<Rightarrow> bool) \<Rightarrow> nat \<Rightarrow> u32 \<Rightarrow> proc list \<Rightarrow> proc list" where
  "grt_stamp sel n now ps = map (\<lambda>p. if sel p then p\<lparr>p_GRT := grt_of now p\<rparr> else p) (take n ps) @ drop n ps"

definition stamped :: "(proc \<Rightarrow> bool) \<Rightarrow> 'z proc_state_scheme \<Rightarrow> 'z proc_state_scheme" where
  "stamped sel s = s\<lparr>ptable := grt_stamp sel NPROC (ticks s) (ptable s)\<rparr>"

lemma grt_stamp_length [simp]: "length (grt_stamp sel n now ps) = length ps"
  by (simp add: grt_stamp_def)

lemma grt_stamp_nth:
  "j < length ps \<Longrightarrow> grt_stamp sel n now ps ! j =
    (if j < n \<and> sel (ps ! j) then (ps ! j)\<lparr>p_GRT := grt_of now (ps ! j)\<rparr> else ps ! j)"
  by (auto simp: grt_stamp_def nth_append)

lemma grt_stamp_0: "grt_stamp sel 0 now ps = ps"
  by (simp add: grt_stamp_def)

lemma grt_stamp_Suc:
  assumes "n < length ps"
  shows "grt_stamp sel (Suc n) now ps = (grt_stamp sel n now ps)
    [n := if sel (ps ! n) then (ps ! n)\<lparr>p_GRT := grt_of now (ps ! n)\<rparr> else ps ! n]"
  using assms by (intro nth_equalityI) (auto simp: grt_stamp_nth nth_list_update less_Suc_eq)

text \<open>
  The loop from position \<open>n\<close> on, with the positions before it already stamped, does what the
  loop of the second policy does with the share as the key.
\<close>

lemma grt_loop_eq:
  assumes "n \<le> NPROC" "NPROC \<le> length ps"
    and "\<And>p v. sel (p\<lparr>p_GRT := v\<rparr>) = sel p"
  shows "grt_loop sel [n..<NPROC] mn (left_in best (s\<lparr>ptable := grt_stamp sel n (ticks s) ps\<rparr>)) =
    (let (mn', best') = least_loop sel (grt_of (ticks s)) ps [n..<NPROC] mn best
     in (mn', left_in best' (s\<lparr>ptable := grt_stamp sel NPROC (ticks s) ps\<rparr>)))"
  using assms(1)
proof (induction "NPROC - n" arbitrary: n mn best)
  case 0
  then show ?case by simp
next
  case (Suc d)
  then have n: "n < NPROC" "n < length ps" "[n..<NPROC] = n # [Suc n..<NPROC]"
    using assms(2) by (simp_all add: upt_conv_Cons)
  let ?s = "\<lambda>k b. left_in b (s\<lparr>ptable := grt_stamp sel k (ticks s) ps\<rparr>)"
  have slot: "pslot (?s n best) n = ps ! n"
    using n by (simp add: left_in_def grt_stamp_nth split: option.split)
  have skip: "?s n best = ?s (Suc n) best" if "\<not> sel (ps ! n)"
    using that n by (simp add: grt_stamp_Suc grt_stamp_nth list_update_id [of _ n, symmetric] del: list_update_id)
      (metis grt_stamp_nth list_update_id)
  have upd: "upd_proc n (\<lambda>p. p\<lparr>p_GRT := grt_of (ticks (?s n best)) p\<rparr>) (?s n best) = ?s (Suc n) best"
    if "sel (ps ! n)"
    using that n by (simp add: upd_proc_def left_in_def grt_stamp_Suc grt_stamp_nth set_cpu_proc_def machine_defs split: option.split)
  have here: "p_GRT (pslot (?s (Suc n) best) n) = grt_of (ticks s) (ps ! n)" if "sel (ps ! n)"
    using that n by (simp add: left_in_def grt_stamp_nth split: option.split)
  have set: "set_cpu_proc (Some n) (?s (Suc n) best) = ?s (Suc n) (Some n)"
    by (simp add: left_in_def split: option.split)
  have IH: "grt_loop sel [Suc n..<NPROC] m (?s (Suc n) b) =
      (let (mn', best') = least_loop sel (grt_of (ticks s)) ps [Suc n..<NPROC] m b in (mn', ?s NPROC best'))" for m b
    using Suc by simp
  show ?case
    unfolding n(3) by (simp add: slot skip upd here set IH Let_def)
qed

lemma grt_loop_all:
  assumes "length (ptable s) = NPROC" "\<And>p v. sel (p\<lparr>p_GRT := v\<rparr>) = sel p"
  shows "grt_loop sel [0..<NPROC] mn s =
    (let (mn', b) = least_loop sel (grt_of (ticks s)) (ptable s) [0..<NPROC] mn None in (mn', left_in b (stamped sel s)))"
  using grt_loop_eq [of 0 "ptable s" sel mn None s] assms by (simp add: grt_stamp_0 left_in_def stamped_def)

lemma runnable_GRT [simp]:
  "runnable (p\<lparr>p_GRT := v\<rparr>) = runnable p" "runnable_at l (p\<lparr>p_GRT := v\<rparr>) = runnable_at l p"
  by (simp_all add: runnable_def runnable_at_def)

lemma grt_loop_chosen:
  assumes "length (ptable s) = NPROC" "\<And>p v. sel (p\<lparr>p_GRT := v\<rparr>) = sel p"
    and "chosen sel (grt_of (ticks s)) mn (ptable s) i"
  shows "grt_loop sel [0..<NPROC] mn s = (grt_of (ticks s) (pslot s i), set_cpu_proc (Some i) (stamped sel s))"
  using grt_loop_all [of s sel] assms by (simp add: least_loop_chosen left_in_def)

lemma grt_loop_none_chosen:
  assumes "length (ptable s) = NPROC" "\<And>p v. sel (p\<lparr>p_GRT := v\<rparr>) = sel p"
    and "none_chosen sel (grt_of (ticks s)) mn (ptable s)"
  shows "grt_loop sel [0..<NPROC] mn s = (mn, stamped sel s)"
  using grt_loop_all [of s sel] assms by (simp add: least_loop_none_chosen left_in_def)

text \<open>
  The share is an integer quotient: it is 0 for every process that has not been running at
  every single tick since it was created.
\<close>

lemma grt_of_0: "p_rtime p < now - p_ctime p \<Longrightarrow> grt_of now p = 0"
  by (simp add: grt_of_def) (metis div_less unat_eq_zero unat_div word_less_nat_alt)

text \<open>
  C4: the third policy does not guarantee shares. Whenever the first runnable process of the
  table has once not been running for a tick, it is the one that is run, whatever the other
  processes have received so far.
\<close>

theorem sched_grt_first_slot:
  assumes "length (ptable s) = NPROC" "i < NPROC" "runnable (pslot s i)" "\<forall>j < i. \<not> runnable (pslot s j)"
    and "p_rtime (pslot s i) < ticks s - p_ctime (pslot s i)" "0 < ticks s"
  shows "sched_grt run s = dispatch run True i (set_cpu_proc (Some i) (stamped runnable s))"
proof -
  have "chosen runnable (grt_of (ticks s)) (ticks s) (ptable s) i"
    using assms grt_of_0 [OF assms(5)] unfolding chosen_def by (metis not_le word_zero_le)
  from grt_loop_chosen [OF assms(1) _ this] show ?thesis
    using assms(6) grt_of_0 [OF assms(5)] by (auto simp: sched_grt_def dispatch_proc_def)
qed

definition starving :: "proc list" where
  "starving = (replicate NPROC blank_proc)
     [3 := blank_proc\<lparr>p_state := RUNNABLE, p_pid := 1, p_ctime := 1, p_rtime := 98\<rparr>,
      7 := blank_proc\<lparr>p_state := RUNNABLE, p_pid := 2, p_ctime := 1, p_rtime := 0\<rparr>]"

lemma sched_grt_first_slot_witness:
  "sched_grt (\<lambda>_. Ok ()) (table_state starving 100 3) =
     dispatch (\<lambda>_. Ok ()) True 3 (set_cpu_proc (Some 3) (stamped runnable (table_state starving 100 3)))"
  by (rule sched_grt_first_slot)
    (auto simp: starving_def nth_list_update NPROC_def runnable_def blank_proc_def)

section \<open>The multilevel queue\<close>

lemma chosen_stamp:
  assumes "length ps = NPROC" "\<And>p v. sel (p\<lparr>p_GRT := v\<rparr>) = sel p" "\<And>p v. key (p\<lparr>p_GRT := v\<rparr>) = key p"
  shows "chosen sel key now (grt_stamp sel' NPROC t ps) i = chosen sel key now ps i"
    and "none_chosen sel key now (grt_stamp sel' NPROC t ps) = none_chosen sel key now ps"
proof -
  have "sel (grt_stamp sel' NPROC t ps ! j) = sel (ps ! j)" "key (grt_stamp sel' NPROC t ps ! j) = key (ps ! j)"
    if "j < NPROC" for j using that assms by (simp_all add: grt_stamp_nth)
  then show "chosen sel key now (grt_stamp sel' NPROC t ps) i = chosen sel key now ps i"
    and "none_chosen sel key now (grt_stamp sel' NPROC t ps) = none_chosen sel key now ps"
    unfolding chosen_def none_chosen_def by auto
qed

text \<open>
  C5: the fourth policy serves the levels in order. A process of level 3 with a share below
  the current tick is run before anything else; otherwise the process of level 2 that has
  waited longest; and the processes of level 1 get their round only when neither of the two
  upper levels has a process to run.
\<close>

theorem sched_mlq_levels:
  assumes "length (ptable s) = NPROC"
  shows "(chosen (runnable_at 3) (grt_of (ticks s)) (ticks s) (ptable s) i \<longrightarrow>
       sched_mlq run s = dispatch run True i (set_cpu_proc (Some i) (stamped (runnable_at 3) s))) \<and>
     (none_chosen (runnable_at 3) (grt_of (ticks s)) (ticks s) (ptable s) \<longrightarrow>
       (chosen (runnable_at 2) p_priority (ticks s) (ptable s) i \<longrightarrow>
         sched_mlq run s = dispatch run True i (set_cpu_proc (Some i) (stamped (runnable_at 3) s))) \<and>
       (none_chosen (runnable_at 2) p_priority (ticks s) (ptable s) \<longrightarrow>
         sched_mlq run s = rr_loop run (runnable_at 1) [0..<NPROC] (stamped (runnable_at 3) s)))"
proof (intro conjI impI)
  assume c: "chosen (runnable_at 3) (grt_of (ticks s)) (ticks s) (ptable s) i"
  then have "grt_of (ticks s) (pslot s i) \<noteq> ticks s" by (auto simp: chosen_def)
  then show "sched_mlq run s = dispatch run True i (set_cpu_proc (Some i) (stamped (runnable_at 3) s))"
    using grt_loop_chosen [OF assms _ c] by (simp add: sched_mlq_def dispatch_proc_def)
next
  assume n: "none_chosen (runnable_at 3) (grt_of (ticks s)) (ticks s) (ptable s)"
  note g = grt_loop_none_chosen [OF assms _ n]
  have st: "ptable (stamped (runnable_at 3) s) = grt_stamp (runnable_at 3) NPROC (ticks s) (ptable s)"
    by (simp add: stamped_def)
  note cs = chosen_stamp [OF assms, of "runnable_at 2" p_priority "ticks s" "runnable_at 3" "ticks s"]
  { assume c: "chosen (runnable_at 2) p_priority (ticks s) (ptable s) i"
    then have "p_priority (pslot s i) < ticks s" "i < NPROC" by (auto simp: chosen_def)
    moreover from c have "chosen (runnable_at 2) p_priority (ticks s) (ptable (stamped (runnable_at 3) s)) i"
      by (simp add: st cs)
    ultimately show "sched_mlq run s = dispatch run True i (set_cpu_proc (Some i) (stamped (runnable_at 3) s))"
      using g fifo_loop_chosen [of "runnable_at 2" "ticks s" "stamped (runnable_at 3) s" i] assms
      by (auto simp: sched_mlq_def dispatch_proc_def st grt_stamp_nth split: if_splits)
  next
    assume "none_chosen (runnable_at 2) p_priority (ticks s) (ptable s)"
    then have "none_chosen (runnable_at 2) p_priority (ticks s) (ptable (stamped (runnable_at 3) s))"
      by (simp add: st cs)
    from fifo_loop_none_chosen [OF this] show
      "sched_mlq run s = rr_loop run (runnable_at 1) [0..<NPROC] (stamped (runnable_at 3) s)"
      using g by (simp add: sched_mlq_def) }
qed

lemma sched_mlq_levels_witness:
  "sched_mlq (\<lambda>_. Ok ()) (table_state two_waiting 9 4) =
     dispatch (\<lambda>_. Ok ()) True 7 (set_cpu_proc (Some 7) (stamped (runnable_at 3) (table_state two_waiting 9 4)))"
proof -
  have "length two_waiting = NPROC" by (simp add: two_waiting_def)
  moreover have "none_chosen (runnable_at 3) (grt_of 9) 9 two_waiting"
    by (simp add: none_chosen_def two_waiting_nth runnable_at_def blank_proc_def)
  moreover have "chosen (runnable_at 2) p_priority 9 two_waiting 7"
    by (simp add: chosen_def two_waiting_nth runnable_at_def blank_proc_def NPROC_def)
  ultimately show ?thesis
    using sched_mlq_levels [of "table_state two_waiting 9 4" 7 "\<lambda>_. Ok ()"] by simp
qed

end
