(* ===== verification/Procs.thy ===== *)
theory Procs
  imports Policies
begin

text \<open>
  Operations on the process table: what allocation, killing, sleeping, waking and reaping do,
  with their locking. A critical section on the table entered in a state whose lock is free
  ends in the state settled by it.
\<close>

section \<open>Critical sections on the process table\<close>

lemma acq_sel [simp]:
  "ptable (acq L s) = ptable s" "ticks (acq L s) = ticks s" "nextpid (acq L s) = nextpid s"
  "initproc (acq L s) = initproc s" "strategy (acq L s) = strategy s"
  by (simp_all add: acq_defs)

lemma settle_sel [simp]:
  "ptable (settle s) = ptable s" "ticks (settle s) = ticks s" "nextpid (settle s) = nextpid s"
  "initproc (settle s) = initproc s" "strategy (settle s) = strategy s"
  by (simp_all add: settle_def machine_defs)

lemma ready_settle [simp]: "ready L (settle s) = ready L s"
  using settle_cpu [of s] settle_locks [of s] by (simp add: ready_def)

lemma settled_acq [simp]: "settled s (acq L s) = settle s"
  by (simp add: settled_def acq_defs settle_def)

lemma settled_upd [simp]:
  "settled s (upd_proc i f t) = upd_proc i f (settled s t)"
  "settled s (wakeup1 ch t) = wakeup1 ch (settled s t)"
  "settled s (t\<lparr>nextpid := n\<rparr>) = (settled s t)\<lparr>nextpid := n\<rparr>"
  "settled s (t\<lparr>ticks := n\<rparr>) = (settled s t)\<lparr>ticks := n\<rparr>"
  by (simp_all add: settled_def upd_proc_def wakeup1_def)

lemma proc_upd_machine [simp]:
  "cpus (upd_proc i f s) = cpus s" "cur (upd_proc i f s) = cur s" "locks (upd_proc i f s) = locks s"
  "cpus (wakeup1 ch s) = cpus s" "cur (wakeup1 ch s) = cur s" "locks (wakeup1 ch s) = locks s"
  by (simp_all add: upd_proc_def wakeup1_def)

lemma proc_upd_cpu [simp]: "cpu (upd_proc i f s) = cpu s" "cpu (wakeup1 ch s) = cpu s"
  by (simp_all add: cpu_def)

lemma proc_upd_sel [simp]:
  "ticks (upd_proc i f s) = ticks s" "nextpid (upd_proc i f s) = nextpid s"
  "initproc (upd_proc i f s) = initproc s" "strategy (upd_proc i f s) = strategy s"
  "ticks (wakeup1 ch s) = ticks s" "nextpid (wakeup1 ch s) = nextpid s"
  "initproc (wakeup1 ch s) = initproc s" "strategy (wakeup1 ch s) = strategy s"
  "length (ptable (upd_proc i f s)) = length (ptable s)"
  "length (ptable (wakeup1 ch s)) = length (ptable s)"
  by (simp_all add: upd_proc_def wakeup1_def)

lemma pslot_upd_proc:
  "i < length (ptable s) \<Longrightarrow> pslot (upd_proc i f s) j = (if j = i then f (pslot s i) else pslot s j)"
  by (simp add: upd_proc_def nth_list_update)

lemma pslot_wakeup1:
  "i < length (ptable s) \<Longrightarrow> pslot (wakeup1 ch s) i =
    (if p_state (pslot s i) = SLEEPING \<and> p_chan (pslot s i) = ch
     then (pslot s i)\<lparr>p_state := RUNNABLE, p_priority := ticks s\<rparr> else pslot s i)"
  by (simp add: wakeup1_def)

lemma ready_proc_upd [simp]:
  "ready L (upd_proc i f s) = ready L s" "ready L (wakeup1 ch s) = ready L s"
  by (simp_all add: ready_def cpu_def)

lemma wakeup_eq:
  "ready PtableLock s \<Longrightarrow> wakeup ch s = Ok () (wakeup1 (Some ch) (settle s))"
  by (simp add: wakeup_def acquire_ready release_section)

section \<open>Killing\<close>

text \<open>
  C9: \<^verbatim>\<open>kill\<close> marks the first slot with the given pid, wakes that process if it sleeps, and
  touches no other slot; it fails exactly when no slot has the pid.
\<close>

theorem kill_effect:
  assumes "ready PtableLock s"
  shows "kill pid s = (case scan (\<lambda>p. p_pid p = pid) (ptable s) of
     None \<Rightarrow> Ok (- 1) (settle s)
   | Some i \<Rightarrow> Ok 0 (upd_proc i (\<lambda>p.
       if p_state p = SLEEPING then p\<lparr>p_killed := True, p_state := RUNNABLE, p_priority := ticks s\<rparr>
       else p\<lparr>p_killed := True\<rparr>) (settle s)))"
proof (cases "scan (\<lambda>p. p_pid p = pid) (ptable s)")
  case None
  with assms show ?thesis by (simp add: kill_def acquire_ready release_section)
next
  case (Some i)
  then have i: "i < length (ptable s)" by (simp add: scan_Some_iff)
  have two: "upd_proc i g (upd_proc i f (settle s)) = upd_proc i (\<lambda>p. g (f p)) (settle s)" for f g
    using i by (simp add: upd_proc_def)
  have upd: "upd_proc i f (settle s) = upd_proc i g (settle s)" if "f (pslot s i) = g (pslot s i)" for f g
    using that by (simp add: upd_proc_def)
  show ?thesis
    using assms Some i
    by (auto simp: kill_def acquire_ready release_section Let_def pslot_upd_proc two intro: upd)
qed

lemma table_state_ready [simp]: "ready L (table_state ps now st)"
  by (simp add: ready_def free_lock_def table_state_def boot_console_def boot_kmem_def boot_machine_def
      idle_cpu_def cons_state.defs kmem_state.defs machine.defs cpu_def)

lemma kill_effect_witness:
  "kill 2 (table_state two_waiting 9 2) =
     Ok 0 (upd_proc 7 (\<lambda>p. p\<lparr>p_killed := True\<rparr>) (settle (table_state two_waiting 9 2)))"
proof -
  have "scan (\<lambda>p. p_pid p = 2) two_waiting = Some 7"
    by (auto simp: scan_Some_iff two_waiting_nth NPROC_def blank_proc_def) (simp add: two_waiting_def NPROC_def)
  moreover have "p_state (two_waiting ! 7) \<noteq> SLEEPING"
    by (simp add: two_waiting_nth NPROC_def)
  ultimately show ?thesis
    using kill_effect [of "table_state two_waiting 9 2" 2] by (simp add: upd_proc_def)
qed

section \<open>Allocating a process\<close>

lemma kmem_settle_proc [simp]:
  "ptable (kmem_settle s) = ptable s" "nextpid (kmem_settle s) = nextpid s" "ticks (kmem_settle s) = ticks s"
  "forkret_addr (kmem_settle s) = forkret_addr s" "trapret_addr (kmem_settle s) = trapret_addr s"
  by (simp_all add: kmem_settle_def settle_def machine_defs)

lemma upd_mem_sel [simp]:
  "ptable (upd_mem f s) = ptable s" "nextpid (upd_mem f s) = nextpid s" "ticks (upd_mem f s) = ticks s"
  "mem (upd_mem f s) = f (mem s)" "forkret_addr (upd_mem f s) = forkret_addr s"
  "trapret_addr (upd_mem f s) = trapret_addr s" "pslot (upd_mem f s) i = pslot s i"
  by (simp_all add: upd_mem_def)

lemma upd_proc_kmem [simp]:
  "mem (upd_proc i f s) = mem s" "freelist (upd_proc i f s) = freelist s" "use_lock (upd_proc i f s) = use_lock s"
  "forkret_addr (upd_proc i f s) = forkret_addr s" "trapret_addr (upd_proc i f s) = trapret_addr s"
  by (simp_all add: upd_proc_def)

lemma settle_kmem [simp]:
  "mem (settle s) = mem s" "freelist (settle s) = freelist s" "use_lock (settle s) = use_lock s"
  "forkret_addr (settle s) = forkret_addr s" "trapret_addr (settle s) = trapret_addr s"
  by (simp_all add: settle_def machine_defs)

text \<open>What \<^verbatim>\<open>allocproc\<close> writes into the slot before it has a stack.\<close>

definition newborn :: "'z proc_state_scheme \<Rightarrow> proc \<Rightarrow> proc" where
  "newborn s p = p\<lparr>p_q3rtime := - 1, p_q3tatime := - 1, p_q2tatime := - 1, p_q2rtime := - 1,
     p_state := EMBRYO, p_pid := nextpid s, p_ctime := ticks s, p_rtime := 0, p_GRT := 0, p_cid := 0,
     p_myquantum := 0, p_queuelevel := 3, p_priority := ticks s\<rparr>"

text \<open>The state after the first critical section of \<^verbatim>\<open>allocproc\<close>, with slot \<open>i\<close> taken.\<close>

definition slot_taken :: "nat \<Rightarrow> 'z proc_state_scheme \<Rightarrow> 'z proc_state_scheme" where
  "slot_taken i s = upd_proc i (newborn s) ((settle s)\<lparr>nextpid := nextpid s + 1\<rparr>)"

definition frame_mem :: "u32 \<Rightarrow> u32 \<Rightarrow> u32 \<Rightarrow> memory \<Rightarrow> memory" where
  "frame_mem sp fr tr m = st32 (memset (st32 m (sp + 20) tr) sp 0 20) (sp + 16) fr"

lemma slot_taken_ready [simp]: "ready L (slot_taken i s) = ready L s"
  using ready_settle [of L s] by (simp add: slot_taken_def ready_def cpu_def)

lemma slot_taken_kmem [simp]:
  "freelist (slot_taken i s) = freelist s" "use_lock (slot_taken i s) = use_lock s" "mem (slot_taken i s) = mem s"
  "length (ptable (slot_taken i s)) = length (ptable s)" "nextpid (slot_taken i s) = nextpid s + 1"
  "forkret_addr (slot_taken i s) = forkret_addr s" "trapret_addr (slot_taken i s) = trapret_addr s"
  by (simp_all add: slot_taken_def)

lemma allocproc_none:
  "ready PtableLock s \<Longrightarrow> scan (\<lambda>p. p_state p = UNUSED) (ptable s) = None \<Longrightarrow> allocproc s = Ok None (settle s)"
  by (simp add: allocproc_def acquire_ready release_section)

lemma allocproc_taken:
  assumes "ready PtableLock s" "scan (\<lambda>p. p_state p = UNUSED) (ptable s) = Some i"
    and "use_lock s \<longrightarrow> ready KmemLock s"
  defines "k \<equiv> freelist s"
  defines "t \<equiv> (kmem_settle (slot_taken i s))\<lparr>freelist := (if k \<noteq> 0 then ld32 (mem s) k else 0)\<rparr>"
  shows "allocproc s = (if k = 0 then Ok None (upd_proc i (\<lambda>p. p\<lparr>p_kstack := 0, p_state := UNUSED\<rparr>) t)
    else Ok (Some i) (upd_mem (frame_mem (k + 0xf9c) (forkret_addr s) (trapret_addr s))
      (upd_proc i (\<lambda>p. p\<lparr>p_kstack := k, p_tf := k + 0xfb4, p_context := k + 0xf9c\<rparr>) t)))"
proof -
  have i: "i < length (ptable s)" using assms(2) by (simp add: scan_Some_iff)
  have r: "release PtableLock (upd_proc i (newborn s) ((acq PtableLock s)\<lparr>nextpid := nextpid s + 1\<rparr>)) = Ok () (slot_taken i s)"
    using assms(1) by (simp add: release_section slot_taken_def)
  have k: "kalloc (slot_taken i s) = Ok k t"
    using kalloc_eq [of "slot_taken i s"] assms(3) by (simp add: t_def k_def)
  have i': "i < length (ptable t)" using i by (simp add: t_def)
  have addrs: "forkret_addr t = forkret_addr s" "trapret_addr t = trapret_addr s" by (simp_all add: t_def)
  have two: "upd_proc i g (upd_proc i f u) = upd_proc i (\<lambda>p. g (f p)) u" if "ptable u = ptable t" for f g u
    using i' that by (simp add: upd_proc_def)
  have swap: "upd_proc i f (upd_mem g u) = upd_mem g (upd_proc i f u)" for f g and u :: "'b proc_state_scheme"
    by (simp add: upd_proc_def upd_mem_def)
  have mm: "upd_mem g (upd_mem f u) = upd_mem (\<lambda>m. g (f m)) u" for f g and u :: "'b proc_state_scheme"
    by (simp add: upd_mem_def)
  have "newborn (acq PtableLock s) = newborn s" by (simp add: newborn_def fun_eq_iff)
  then show ?thesis
    using assms(1,2) i
    by (simp add: allocproc_def acquire_ready Let_def newborn_def [symmetric] r k swap mm two addrs frame_mem_def [abs_def] add.commute [of k]
        KSTACKSIZE_def sizeof_trapframe_def sizeof_context_def context_eip_def)
qed

lemma frame_mem_words:
  "ld32 (frame_mem sp fr tr m) (sp + 16) = fr" "ld32 (frame_mem sp fr tr m) (sp + 20) = tr"
proof -
  have "ld32 (frame_mem sp fr tr m) (sp + 20) = ld32 (st32 m (sp + 20) tr) (sp + 20)"
    unfolding frame_mem_def by (intro ld32_cong) (simp_all add: st32_other memset_outside add.assoc)
  then show "ld32 (frame_mem sp fr tr m) (sp + 20) = tr" by simp
qed (simp add: frame_mem_def)

lemma frame_mem_outside:
  assumes "\<not> a - sp < 24"
  shows "frame_mem sp fr tr m a = m a"
proof -
  have "a \<noteq> sp + c" if "c < 24" for c using assms that by auto
  moreover have "\<not> a - sp < 20" using assms order.strict_trans [of "a - sp" 20 24] by auto
  ultimately show ?thesis by (simp add: frame_mem_def st32_other memset_outside add.assoc)
qed

lemma stack_frame_inside:
  fixes a k :: u32
  assumes "\<not> a - k < KSTACKSIZE"
  shows "\<not> a - (k + 0xf9c) < 24"
proof
  assume l: "a - (k + 0xf9c) < 24"
  have "a - k = (a - (k + 0xf9c)) + 0xf9c" by simp
  moreover have "unat ((a - (k + 0xf9c)) + 0xf9c) = unat (a - (k + 0xf9c)) + 0xf9c"
    using l by (subst unat_plus_nowrap) (simp_all add: word_less_nat_alt)
  ultimately have "a - k < 0x1000" using l by (simp add: word_less_nat_alt)
  with assms show False by (simp add: KSTACKSIZE_def)
qed

text \<open>
  C8: \<^verbatim>\<open>allocproc\<close> takes the first unused slot, gives it the next pid and a kernel stack on
  which the saved context returns to \<^verbatim>\<open>forkret\<close> and from there to \<^verbatim>\<open>trapret\<close>, just below a trap frame at
  the top of the stack. No memory outside the stack page and no other slot changes, and of the
  old slot the field \<^verbatim>\<open>killed\<close> survives.
\<close>

theorem allocproc_new_process:
  assumes "ready PtableLock s" "use_lock s \<longrightarrow> ready KmemLock s"
    and "scan (\<lambda>p. p_state p = UNUSED) (ptable s) = Some i" "freelist s \<noteq> 0"
  shows "\<exists>t. allocproc s = Ok (Some i) t \<and> p_state (pslot t i) = EMBRYO \<and> p_pid (pslot t i) = nextpid s \<and>
    nextpid t = nextpid s + 1 \<and> p_kstack (pslot t i) = freelist s \<and>
    p_tf (pslot t i) + sizeof_trapframe = freelist s + KSTACKSIZE \<and>
    p_context (pslot t i) + sizeof_context + 4 = p_tf (pslot t i) \<and>
    ld32 (mem t) (p_context (pslot t i) + context_eip) = forkret_addr s \<and>
    ld32 (mem t) (p_context (pslot t i) + sizeof_context) = trapret_addr s \<and>
    (\<forall>a. \<not> a - freelist s < KSTACKSIZE \<longrightarrow> mem t a = mem s a) \<and>
    (\<forall>j. j \<noteq> i \<longrightarrow> pslot t j = pslot s j) \<and> p_killed (pslot t i) = p_killed (pslot s i)"
proof -
  have i: "i < length (ptable s)" using assms(3) by (simp add: scan_Some_iff)
  have sp: "freelist s + 0xf9c + 16 = freelist s + 0xfac" "freelist s + 0xf9c + 20 = freelist s + 0xfb0" by simp_all
  show ?thesis
    unfolding allocproc_taken [OF assms(1,3,2)] using assms(4) i frame_mem_words [where sp = "freelist s + 0xf9c"]
    by (simp add: pslot_upd_proc slot_taken_def newborn_def frame_mem_outside stack_frame_inside sp
        sizeof_trapframe_def sizeof_context_def context_eip_def KSTACKSIZE_def)
qed

definition one_page_state :: proc_state where
  "one_page_state = (table_state two_waiting 9 2)\<lparr>freelist := 0x80400000\<rparr>"

lemma one_page_state_sel [simp]:
  "ready L one_page_state" "freelist one_page_state = 0x80400000" "ptable one_page_state = two_waiting"
  "nextpid one_page_state = 3"
  by (simp_all add: one_page_state_def)

lemma two_waiting_free: "scan (\<lambda>p. p_state p = UNUSED) two_waiting = Some 0"
  by (simp add: scan_Some_iff two_waiting_nth NPROC_def blank_proc_def) (simp add: two_waiting_def NPROC_def)

lemma allocproc_new_process_witness:
  "\<exists>t. allocproc one_page_state = Ok (Some 0) t \<and> p_pid (pslot t 0) = 3 \<and> p_context (pslot t 0) = 0x80400f9c"
proof -
  obtain t where t: "allocproc one_page_state = Ok (Some 0) t" "p_pid (pslot t 0) = 3"
    "p_tf (pslot t 0) + 76 = 0x80401000" "p_context (pslot t 0) + 20 + 4 = p_tf (pslot t 0)"
    using allocproc_new_process [of one_page_state 0] two_waiting_free
    by (auto simp: sizeof_trapframe_def sizeof_context_def KSTACKSIZE_def)
  then have "p_context (pslot t 0) = 0x80401000 - 76 - 4 - 20" by (simp add: algebra_simps)
  with t show ?thesis by simp
qed

text \<open>
  C10: Unused slots have pid 0, and \<^verbatim>\<open>kill\<close> does not look at the state of a slot: \<^verbatim>\<open>kill(0)\<close> succeeds
  and marks the first unused slot, and the next process created there is born killed.
\<close>

theorem kill_zero_next_born_killed:
  assumes "ready PtableLock s" "use_lock s \<longrightarrow> ready KmemLock s" "freelist s \<noteq> 0"
    and "scan (\<lambda>p. p_state p = UNUSED) (ptable s) = Some i" "scan (\<lambda>p. p_pid p = 0) (ptable s) = Some i"
  shows "\<exists>t u. kill 0 s = Ok 0 t \<and> allocproc t = Ok (Some i) u \<and> p_killed (pslot u i)"
proof -
  let ?t = "upd_proc i (\<lambda>p. p\<lparr>p_killed := True\<rparr>) (settle s)"
  have i: "i < length (ptable s)" "p_state (pslot s i) = UNUSED" using assms(4) by (simp_all add: scan_Some_iff)
  have t: "kill 0 s = Ok 0 ?t"
    using assms i by (simp add: kill_def acquire_ready release_section Let_def pslot_upd_proc)
  have sc: "scan (\<lambda>p. p_state p = UNUSED) (ptable ?t) = Some i"
    using assms(4) by (auto simp: scan_Some_iff upd_proc_def nth_list_update)
  have "ready PtableLock ?t" "use_lock ?t \<longrightarrow> ready KmemLock ?t" "freelist ?t \<noteq> 0" using assms by simp_all
  from allocproc_taken [OF this(1) sc this(2)] this(3) i
  show ?thesis
    unfolding t by (simp add: pslot_upd_proc slot_taken_def newborn_def)
qed

lemma kill_zero_next_born_killed_witness:
  "\<exists>t u. kill 0 one_page_state = Ok 0 t \<and> allocproc t = Ok (Some 0) u \<and> p_killed (pslot u 0)"
proof -
  have "scan (\<lambda>p. p_pid p = 0) two_waiting = Some 0"
    by (simp add: scan_Some_iff two_waiting_nth NPROC_def blank_proc_def) (simp add: two_waiting_def NPROC_def)
  then show ?thesis
    using kill_zero_next_born_killed [of one_page_state 0] two_waiting_free by simp
qed

section \<open>Sleeping and waking\<close>

lemma cpu_rel [simp]:
  "cpu (rel l s) = (cpu s)\<lparr>ncli := ncli (cpu s) - 1, iflag := ncli (cpu s) = 1 \<and> intena (cpu s)\<rparr>"
  "cur (rel l s) = cur s" "locks (rel l s) = (locks s)(l := (locks s l)\<lparr>locked := 0, lcpu := None\<rparr>)"
  by (simp_all add: rel_def machine_defs)

lemma rel_proc [simp]:
  "ptable (rel l s) = ptable s" "strategy (rel l s) = strategy s" "ticks (rel l s) = ticks s"
  by (simp_all add: rel_def machine_defs)

lemma sched_switches:
  assumes "holding PtableLock s" "ncli (cpu s) = 1" "cpu_proc (cpu s) = Some me"
    and "p_state (pslot s me) \<noteq> RUNNING" "\<not> iflag (cpu s)" "strategy s \<noteq> 2"
  shows "sched s = Switched s"
  using assms by (simp add: sched_def with_proc_def)


definition key_reader :: proc_state where
  "key_reader = acq ConsLock (set_cpu_proc (Some 3) (table_state two_waiting 9 1))"


end
