(* ===== verification/Frames.thy ===== *)
theory Frames
  imports Procs
begin

text \<open>
  Frame conditions: which part of the state an operation leaves alone. A view of the state
  is any function of it; the locales say of a view that it does not depend on the locks and
  the CPUs, on the console, on the memory, on the process table, and hold the proof that
  every operation on those parts keeps the view. Views are the components of the state the
  later theories reason about.
\<close>

section \<open>Keeping a view\<close>

text \<open>In whatever state the code returns or leaves the CPU, the view has the value \<open>v\<close>.\<close>

fun keeps :: "('s \<Rightarrow> 'v) \<Rightarrow> 'v \<Rightarrow> ('a, 's) res \<Rightarrow> bool" where
  "keeps g v (Ok a t) \<longleftrightarrow> g t = v"
| "keeps g v (Switched t) \<longleftrightarrow> g t = v"
| "keeps g v r \<longleftrightarrow> True"

lemma keeps_bind:
  "\<lbrakk>keeps g v r; \<And>a t. \<lbrakk>r = Ok a t; g t = v\<rbrakk> \<Longrightarrow> keeps g v (f a t)\<rbrakk> \<Longrightarrow> keeps g v (bind r f)"
  by (cases r) simp_all

text \<open>The state in which the code returns, if it does.\<close>

fun post :: "('s \<Rightarrow> bool) \<Rightarrow> ('a, 's) res \<Rightarrow> bool" where
  "post P (Ok a t) \<longleftrightarrow> P t"
| "post P r \<longleftrightarrow> True"

lemma post_bind:
  "\<lbrakk>post P r; \<And>a t. \<lbrakk>r = Ok a t; P t\<rbrakk> \<Longrightarrow> post Q (f a t)\<rbrakk> \<Longrightarrow> post Q (bind r f)"
  by (cases r) simp_all

lemma post_keeps: "keeps g v r \<Longrightarrow> (\<And>t. g t = v \<Longrightarrow> P t) \<Longrightarrow> post P r"
  by (cases r) simp_all

lemma post_bind_keeps:
  "\<lbrakk>keeps g v r; \<And>a t. \<lbrakk>r = Ok a t; g t = v\<rbrakk> \<Longrightarrow> post Q (f a t)\<rbrakk> \<Longrightarrow> post Q (bind r f)"
  by (cases r) simp_all

lemma postD: "post P r \<Longrightarrow> r = Ok a t \<Longrightarrow> P t"
  by simp

lemma keeps_if: "\<lbrakk>b \<Longrightarrow> keeps g v r; \<not> b \<Longrightarrow> keeps g v r'\<rbrakk> \<Longrightarrow> keeps g v (if b then r else r')"
  by simp

lemma keepsD: "keeps g v r \<Longrightarrow> r = Ok a t \<Longrightarrow> g t = v"
  by simp

lemma keepsD_switched: "keeps g v r \<Longrightarrow> r = Switched t \<Longrightarrow> g t = v"
  by simp

lemma keeps_with_proc: "(\<And>me. keeps g v (f me s)) \<Longrightarrow> keeps g v (with_proc f s)"
  by (simp add: with_proc_def split: option.split)

lemma post_if: "\<lbrakk>b \<Longrightarrow> post P r; \<not> b \<Longrightarrow> post P r'\<rbrakk> \<Longrightarrow> post P (if b then r else r')"
  by simp

text \<open>\<^verbatim>\<open>sched\<close> and \<^verbatim>\<open>sleep\<close> leave the CPU: they return only when the process is run again.\<close>

lemma post_any: "(\<And>a t. r = Ok a t \<Longrightarrow> post P (f a t)) \<Longrightarrow> post P (bind r f)"
  by (cases r) simp_all

lemma post_sched: "post P (sched s)"
  by (auto simp: sched_def with_proc_def intro!: post_any split: option.split)

lemma post_sleep: "post P (sleep ch lk s)"
  by (auto simp: sleep_def intro!: post_any post_sched split: option.split)

lemma sleep_not_Ok [simp]:
  fixes s :: "'z proc_state_scheme"
  shows "sleep ch lk s \<noteq> (Ok a t :: ('b, 'z proc_state_scheme) res)"
proof
  assume r: "sleep ch lk s = (Ok a t :: ('b, 'z proc_state_scheme) res)"
  have "post (\<lambda>_. False) (sleep ch lk s :: ('b, 'z proc_state_scheme) res)" by (rule post_sleep)
  with r show False by simp
qed

lemma bind_eq_Switched:
  "bind r f = Switched t \<longleftrightarrow> r = Switched t \<or> (\<exists>a u. r = Ok a u \<and> f a u = Switched t)"
  by (cases r) simp_all

lemma locks_not_switched [simp]: "acquire L s \<noteq> Switched t" "release L s \<noteq> Switched t"
  by (auto simp: acquire_def acquire_begin_def xchg_lock_def release_def release_begin_def popcli_def Let_def
      bind_eq_Switched split: if_splits)

lemma wakeup_not_switched [simp]: "wakeup ch s \<noteq> Switched t"
  by (simp add: wakeup_def bind_eq_Switched)

section \<open>Locks and interrupts\<close>

locale lock_frame =
  fixes view :: "'z machine_scheme \<Rightarrow> 'v"
  assumes view_lock: "(\<And>i. cpu_proc (c i) = cpu_proc (cpus s i)) \<Longrightarrow> view (s\<lparr>cpus := c, locks := l\<rparr>) = view s"
begin

lemma view_set_lock [simp]: "view (set_lock L g s) = view s"
  using view_lock [where s = s and c = "cpus s"] by (simp add: set_lock_def)

lemma view_set_cpu [simp]:
  "(\<And>c. cpu_proc (f c) = cpu_proc c) \<Longrightarrow> view (set_cpu f s) = view s"
  using view_lock [where s = s and l = "locks s" and c = "(cpus s)(cur s := f (cpus s (cur s)))"]
  by (simp add: set_cpu_def cpu_def)

lemma view_machine [simp]:
  "view (pushcli s) = view s" "view (acq L s) = view s" "view (settle s) = view s" "view (rel L s) = view s"
  "view (sched_resume b s) = view s"
  by (simp_all add: acq_def pushcli_def rel_def settle_def sched_resume_def Let_def)

lemma keeps_acquire: "view s = v \<Longrightarrow> keeps view v (acquire L s)"
  by (simp add: acquire_def acquire_begin_def xchg_lock_def acquire_end_def Let_def)

lemma keeps_popcli: "view s = v \<Longrightarrow> keeps view v (popcli s)"
  by (simp add: popcli_def Let_def)

lemma keeps_release: "view s = v \<Longrightarrow> keeps view v (release L s)"
  unfolding release_def by (intro keeps_bind keeps_popcli) (simp_all add: release_begin_def release_unlock_def)

end

section \<open>The console\<close>

locale cons_frame = lock_frame view for view :: "'z cons_state_scheme \<Rightarrow> 'v" +
  assumes view_cons: "view (s\<lparr>uart_out := out, crt := scr, crt_cursor := pos\<rparr>) = view s"
begin

lemma view_out [simp]: "view (s\<lparr>uart_out := out\<rparr>) = view s"
  using view_cons [where s = s and out = out and scr = "crt s" and pos = "crt_cursor s"] by simp

lemma view_crt [simp]: "view (s\<lparr>crt := scr\<rparr>) = view s"
  using view_cons [where s = s and out = "uart_out s" and scr = scr and pos = "crt_cursor s"] by simp

lemma view_cursor [simp]: "view (s\<lparr>crt_cursor := pos\<rparr>) = view s"
  using view_cons [where s = s and out = "uart_out s" and scr = "crt s" and pos = pos] by simp

lemma keeps_cgaputc: "view s = v \<Longrightarrow> keeps view v (cgaputc c s)"
  by (auto simp: cgaputc_def Let_def)

lemma keeps_consputc: "view s = v \<Longrightarrow> keeps view v (consputc c s)"
  by (auto simp: consputc_def Let_def uartputc_def intro!: keeps_cgaputc)

lemma keeps_consputs: "view s = v \<Longrightarrow> keeps view v (consputs cs s)"
  by (induction cs arbitrary: s) (auto intro!: keeps_bind keeps_consputc)

lemma keeps_cprintf: "view s = v \<Longrightarrow> keeps view v (cprintf fmt args s)"
  by (auto simp: cprintf_def Let_def intro!: keeps_bind keeps_consputs keeps_acquire keeps_release split: option.split)

lemma keeps_print_queue: "view s = v \<Longrightarrow> keeps view v (print_queue i q s)"
  by (induction i q s rule: print_queue.induct) (auto intro!: keeps_bind keeps_cprintf)

end

section \<open>Memory\<close>

locale mem_frame = lock_frame view for view :: "'z kmem_state_scheme \<Rightarrow> 'v" +
  assumes view_kmem: "view (s\<lparr>mem := m, freelist := f\<rparr>) = view s"
begin

lemma view_mem [simp]: "view (s\<lparr>mem := m\<rparr>) = view s"
  using view_kmem [where s = s and m = m and f = "freelist s"] by simp

lemma view_freelist [simp]: "view (s\<lparr>freelist := f\<rparr>) = view s"
  using view_kmem [where s = s and m = "mem s" and f = f] by simp

lemma view_upd_mem [simp]: "view (upd_mem f s) = view s"
  by (simp add: upd_mem_def)

lemma keeps_kalloc: "view s = v \<Longrightarrow> keeps view v (kalloc s)"
  by (auto simp: kalloc_def kmem_acquire_def kmem_release_def Let_def intro!: keeps_bind keeps_acquire keeps_release)

lemma keeps_kfree: "view s = v \<Longrightarrow> keeps view v (kfree p s)"
  by (auto simp: kfree_def kmem_acquire_def kmem_release_def Let_def intro!: keeps_bind keeps_acquire keeps_release)

lemma keeps_walkpgdir: "view s = v \<Longrightarrow> keeps view v (walkpgdir d a al s)"
  by (auto simp: walkpgdir_def Let_def intro!: keeps_bind keeps_kalloc)

lemma keeps_mappages_loop: "view s = v \<Longrightarrow> keeps view v (mappages_loop n d a e pa perm s)"
  by (induction n d a e pa perm s rule: mappages_loop.induct)
    (auto simp: Let_def intro!: keeps_bind keeps_walkpgdir)

lemma keeps_mappages: "view s = v \<Longrightarrow> keeps view v (mappages d a n pa perm s)"
  by (simp add: mappages_def keeps_mappages_loop)

lemma keeps_setupkvm_loop: "view s = v \<Longrightarrow> keeps view v (setupkvm_loop d ks s)"
  by (induction d ks s rule: setupkvm_loop.induct) (auto intro!: keeps_bind keeps_mappages)

lemma keeps_deallocuvm_loop: "view s = v \<Longrightarrow> keeps view v (deallocuvm_loop n d a oldsz s)"
  by (induction n d a oldsz s rule: deallocuvm_loop.induct)
    (auto simp: Let_def intro!: keeps_bind keeps_walkpgdir keeps_kfree)

lemma keeps_deallocuvm: "view s = v \<Longrightarrow> keeps view v (deallocuvm d oldsz newsz s)"
  by (auto simp: deallocuvm_def intro!: keeps_bind keeps_deallocuvm_loop)

lemma keeps_free_tables: "view s = v \<Longrightarrow> keeps view v (free_tables d is s)"
  by (induction d "is" s rule: free_tables.induct) (auto simp: Let_def intro!: keeps_bind keeps_kfree)

lemma keeps_freevm: "view s = v \<Longrightarrow> keeps view v (freevm d s)"
  by (auto simp: freevm_def intro!: keeps_bind keeps_deallocuvm keeps_free_tables keeps_kfree)

lemma keeps_copyuvm_loop: "view s = v \<Longrightarrow> keeps view v (copyuvm_loop n d pgdir i sz s)"
  by (induction n d pgdir i sz s rule: copyuvm_loop.induct)
    (auto simp: Let_def intro!: keeps_bind keeps_walkpgdir keeps_kalloc keeps_mappages keeps_freevm)

lemma keeps_ust8: "view s = v \<Longrightarrow> keeps view v (ust8 a b s)"
  by (auto simp: ust8_def split: option.split)

end

locale space_frame = mem_frame view for view :: "'z vm_state_scheme \<Rightarrow> 'v"
begin

lemma keeps_setupkvm: "view s = v \<Longrightarrow> keeps view v (setupkvm s)"
  by (auto simp: setupkvm_def Let_def intro!: keeps_bind keeps_kalloc keeps_setupkvm_loop)

lemma keeps_inituvm: "view s = v \<Longrightarrow> keeps view v (inituvm d init s)"
  by (auto simp: inituvm_def Let_def intro!: keeps_bind keeps_kalloc keeps_mappages)

lemma keeps_copyuvm: "view s = v \<Longrightarrow> keeps view v (copyuvm d sz s)"
  by (auto simp: copyuvm_def intro!: keeps_bind keeps_setupkvm keeps_copyuvm_loop)

lemma view_switchkvm [simp]: "view (switchkvm s) = view s"
  by (simp add: switchkvm_def)

end

section \<open>The process table\<close>

locale sched_frame = cons_frame view for view :: "'z proc_state_scheme \<Rightarrow> 'v"
begin

lemma keeps_sched: "view s = v \<Longrightarrow> keeps view v (sched s)"
  by (auto simp: sched_def intro!: keeps_bind keeps_with_proc keeps_print_queue)

lemma keeps_switchuvm: "view s = v \<Longrightarrow> keeps view v (switchuvm i s)"
  by (auto simp: switchuvm_def Let_def intro!: keeps_with_proc keeps_popcli)

end

locale table_frame = sched_frame view for view :: "'z proc_state_scheme \<Rightarrow> 'v" +
  assumes view_ptable [simp]: "view (s\<lparr>ptable := ps\<rparr>) = view s"
begin

lemma view_table [simp]: "view (upd_proc i f s) = view s" "view (wakeup1 ch s) = view s"
  by (simp_all add: upd_proc_def wakeup1_def)

lemma keeps_wakeup: "view s = v \<Longrightarrow> keeps view v (wakeup ch s)"
  unfolding wakeup_def by (intro keeps_bind keeps_acquire keeps_release) simp_all

lemma keeps_kill: "view s = v \<Longrightarrow> keeps view v (kill pid s)"
  by (auto simp: kill_def Let_def intro!: keeps_bind keeps_acquire keeps_release split: option.split)

lemma keeps_yield: "view s = v \<Longrightarrow> keeps view v (yield s)"
  by (auto simp: yield_def intro!: keeps_bind keeps_acquire keeps_with_proc keeps_sched)

lemma keeps_sleep: "view s = v \<Longrightarrow> keeps view v (sleep ch lk s)"
  by (auto simp: sleep_def intro!: keeps_bind keeps_acquire keeps_release keeps_sched split: option.split)

end

text \<open>
  The views the later theories use: the process table, which the console, the memory and the
  locks do not touch, and what operations on the table itself keep: which CPU is running the
  code, the process of every CPU, the next pid and the first process.
\<close>

definition core :: "'z proc_state_scheme \<Rightarrow> nat \<times> (nat \<Rightarrow> nat option) \<times> u32 \<times> nat option" where
  "core s = (cur s, \<lambda>c. cpu_proc (cpus s c), nextpid s, initproc s)"

interpretation table_view: sched_frame "ptable :: 'z proc_state_scheme \<Rightarrow> proc list"
  by unfold_locales simp_all

interpretation table_mem_view: space_frame "ptable :: 'z proc_state_scheme \<Rightarrow> proc list"
  by unfold_locales simp_all

interpretation core_view: table_frame "core :: 'z proc_state_scheme \<Rightarrow> nat \<times> (nat \<Rightarrow> nat option) \<times> u32 \<times> nat option"
  by unfold_locales (simp_all add: core_def)

interpretation core_mem_view: space_frame "core :: 'z proc_state_scheme \<Rightarrow> nat \<times> (nat \<Rightarrow> nat option) \<times> u32 \<times> nat option"
  by unfold_locales (simp_all add: core_def)

end
