(* ===== verification/Sleeplock.thy ===== *)
theory Sleeplock
  imports Proc
begin

text \<open>
  Sleep locks (\<^verbatim>\<open>sleeplock.c\<close>): a lock word and the pid of its holder under a spin lock.
  A process that finds the lock held goes to sleep on it and, when it runs again, tests
  the lock word once more.
\<close>

record sleeplock =
  sl_locked :: u32
  sl_name :: string
  sl_pid :: u32

record sl_state = proc_state +
  slocks :: "sleeplock_id \<Rightarrow> sleeplock"

definition upd_slock :: "sleeplock_id \<Rightarrow> (sleeplock \<Rightarrow> sleeplock) \<Rightarrow> 'z sl_state_scheme \<Rightarrow> 'z sl_state_scheme" where
  "upd_slock lk f s = s\<lparr>slocks := (slocks s)(lk := f (slocks s lk))\<rparr>"

definition initsleeplock :: "sleeplock_id \<Rightarrow> string \<Rightarrow> 'z sl_state_scheme \<Rightarrow> 'z sl_state_scheme" where
  "initsleeplock lk nm s =
     upd_slock lk (\<lambda>l. l\<lparr>sl_name := nm, sl_locked := 0, sl_pid := 0\<rparr>) (initlock (SleepLk lk) ''sleep lock'' s)"

text \<open>The body of \<^verbatim>\<open>acquiresleep\<close> from the test of its loop on, with the spin lock held.\<close>

definition acquiresleep_loop :: "sleeplock_id \<Rightarrow> 'z sl_state_scheme \<Rightarrow> (unit, 'z sl_state_scheme) res" where
  "acquiresleep_loop lk s =
     (if sl_locked (slocks s lk) \<noteq> 0 then sleep (ChanSleep lk) (Some (SleepLk lk)) s
      else with_proc (\<lambda>me s.
        release (SleepLk lk) (upd_slock lk (\<lambda>l. l\<lparr>sl_locked := 1, sl_pid := p_pid (pslot s me)\<rparr>) s)) s)"

definition acquiresleep :: "sleeplock_id \<Rightarrow> 'z sl_state_scheme \<Rightarrow> (unit, 'z sl_state_scheme) res" where
  "acquiresleep lk s = bind (acquire (SleepLk lk) s) (\<lambda>_ s. acquiresleep_loop lk s)"

definition acquiresleep_resume :: "bool \<Rightarrow> sleeplock_id \<Rightarrow> 'z sl_state_scheme \<Rightarrow> (unit, 'z sl_state_scheme) res" where
  "acquiresleep_resume saved lk s =
     bind (sleep_resume saved (SleepLk lk) s) (\<lambda>_ s. acquiresleep_loop lk s)"

definition releasesleep :: "sleeplock_id \<Rightarrow> 'z sl_state_scheme \<Rightarrow> (unit, 'z sl_state_scheme) res" where
  "releasesleep lk s =
     bind (acquire (SleepLk lk) s) (\<lambda>_ s.
     let s = upd_slock lk (\<lambda>l. l\<lparr>sl_locked := 0, sl_pid := 0\<rparr>) s
     in bind (wakeup (ChanSleep lk) s) (\<lambda>_ s. release (SleepLk lk) s))"

definition holdingsleep :: "sleeplock_id \<Rightarrow> 'z sl_state_scheme \<Rightarrow> (bool, 'z sl_state_scheme) res" where
  "holdingsleep lk s =
     bind (acquire (SleepLk lk) s) (\<lambda>_ s.
     let r = (sl_locked (slocks s lk) \<noteq> 0)
     in bind (release (SleepLk lk) s) (\<lambda>_ s. Ok r s))"

end
