(* ===== verification/Bio.thy ===== *)
theory Bio
  imports Sleeplock
begin

text \<open>
  The disk driver (\<^verbatim>\<open>ide.c\<close>) and the buffer cache (\<^verbatim>\<open>bio.c\<close>, \<^verbatim>\<open>buf.h\<close>). Buffers are
  numbered; number \<^verbatim>\<open>NBUF\<close> is the list head of the cache, whose doubly linked list is kept
  as the pointers \<^verbatim>\<open>prev\<close> and \<^verbatim>\<open>next\<close>. The disk is the device behind the ports: its
  sectors, the drive and sector last selected, whether it reports an error, and the history
  of the sector writes it was given, which is what survives a crash. A process that waits
  for its request is run again once disk interrupts have woken it, so that the calls above
  the driver are ordinary calls.
\<close>

section \<open>Buffers and the device\<close>

definition BSIZE :: nat where [kernel_defs]: "BSIZE = 512"
definition B_VALID :: u32 where [kernel_defs]: "B_VALID = 2"
definition B_DIRTY :: u32 where [kernel_defs]: "B_DIRTY = 4"

record buf =
  b_flags :: u32
  b_dev :: u32
  b_blockno :: u32
  b_refcnt :: u32
  b_prev :: nat
  b_next :: nat
  b_data :: "u8 list"

type_synonym disk = "u32 \<times> u32 \<Rightarrow> u8 list"

record bio_state = sl_state +
  bufs :: "nat \<Rightarrow> buf"
  idequeue :: "nat list"
  havedisk1 :: bool
  disk :: disk
  disk_sel :: "u32 \<times> u32"
  disk_err :: bool
  disk_writes :: "((u32 \<times> u32) \<times> u8 list) list"

definition upd_buf :: "nat \<Rightarrow> (buf \<Rightarrow> buf) \<Rightarrow> 'z bio_state_scheme \<Rightarrow> 'z bio_state_scheme" where
  "upd_buf b f s = s\<lparr>bufs := (bufs s)(b := f (bufs s b))\<rparr>"

abbreviation bhead :: nat where "bhead \<equiv> NBUF"

section \<open>The disk driver\<close>

definition ideinit :: "bool \<Rightarrow> 'z bio_state_scheme \<Rightarrow> 'z bio_state_scheme" where
  "ideinit present s =
     (let s = initlock IdeLock ''ide'' s
      in if present then s\<lparr>havedisk1 := True\<rparr> else s)"

text \<open>A block is one sector, so a request is a selection and, for a write, its data.\<close>

definition idestart :: "nat \<Rightarrow> 'z bio_state_scheme \<Rightarrow> (unit, 'z bio_state_scheme) res" where
  "idestart b s =
     (if b_blockno (bufs s b) \<ge> FSSIZE then Panic ''incorrect blockno''
      else
        let sec = (b_dev (bufs s b) AND 1, b_blockno (bufs s b));
            s = s\<lparr>disk_sel := sec\<rparr>
        in if b_flags (bufs s b) AND B_DIRTY \<noteq> 0
           then Ok () (s\<lparr>disk := (disk s)(sec := b_data (bufs s b)),
                  disk_writes := disk_writes s @ [(sec, b_data (bufs s b))]\<rparr>)
           else Ok () s)"

definition ideintr :: "'z bio_state_scheme \<Rightarrow> (unit, 'z bio_state_scheme) res" where
  "ideintr s =
     bind (acquire IdeLock s) (\<lambda>_ s.
     case idequeue s of
       [] \<Rightarrow> release IdeLock s
     | b # q \<Rightarrow>
         let s = s\<lparr>idequeue := q\<rparr>;
             s = (if b_flags (bufs s b) AND B_DIRTY = 0 \<and> \<not> disk_err s
                  then upd_buf b (\<lambda>u. u\<lparr>b_data := disk s (disk_sel s)\<rparr>) s else s);
             s = upd_buf b (\<lambda>u. u\<lparr>b_flags := b_flags u OR B_VALID\<rparr>) s;
             s = upd_buf b (\<lambda>u. u\<lparr>b_flags := b_flags u AND NOT B_DIRTY\<rparr>) s
         in bind (wakeup (ChanBuf b) s) (\<lambda>_ s.
            bind (case idequeue s of [] \<Rightarrow> Ok () s | b' # _ \<Rightarrow> idestart b' s) (\<lambda>_ s.
            release IdeLock s)))"

text \<open>
  Waiting for the disk. The process sleeps on its buffer and the CPU goes through the
  scheduler: it releases the process table and enables interrupts, the disk interrupts it
  until the process is runnable, it takes the table again and switches back to the process,
  which continues after its \<^verbatim>\<open>sched\<close>. With nothing left in the queue no interrupt will come.
\<close>

fun disk_interrupts :: "nat \<Rightarrow> nat \<Rightarrow> 'z bio_state_scheme \<Rightarrow> (unit, 'z bio_state_scheme) res" where
  "disk_interrupts 0 me s = Spin"
| "disk_interrupts (Suc n) me s =
     (if p_state (pslot s me) = RUNNABLE then Ok () s
      else if idequeue s = [] then Switched s
      else bind (ideintr (set_cpu (\<lambda>c. c\<lparr>iflag := False\<rparr>) s)) (\<lambda>_ s.
        disk_interrupts n me (set_cpu (\<lambda>c. c\<lparr>iflag := True\<rparr>) s)))"

definition reschedule :: "nat \<Rightarrow> 'z bio_state_scheme \<Rightarrow> (unit, 'z bio_state_scheme) res" where
  "reschedule me s =
     bind (release PtableLock s) (\<lambda>_ s.
     bind (disk_interrupts (Suc (Suc NBUF)) me (set_cpu (\<lambda>c. c\<lparr>iflag := True\<rparr>) s)) (\<lambda>_ s.
     bind (acquire PtableLock s) (\<lambda>_ s.
     Ok () (upd_proc me (\<lambda>p. p\<lparr>p_myquantum := 0, p_state := RUNNING\<rparr>) s))))"

definition ide_sleep :: "nat \<Rightarrow> 'z bio_state_scheme \<Rightarrow> (unit, 'z bio_state_scheme) res" where
  "ide_sleep b s =
     (case sleep (ChanBuf b) (Some IdeLock) s :: (unit, 'z bio_state_scheme) res of
        Switched t \<Rightarrow>
          with_proc (\<lambda>me t.
            bind (reschedule me t) (\<lambda>_ s. sleep_resume (intena (cpu t)) IdeLock s)) t
      | r \<Rightarrow> r)"

fun ide_wait :: "nat \<Rightarrow> nat \<Rightarrow> 'z bio_state_scheme \<Rightarrow> (unit, 'z bio_state_scheme) res" where
  "ide_wait 0 b s = Spin"
| "ide_wait (Suc n) b s =
     (if b_flags (bufs s b) AND (B_VALID OR B_DIRTY) \<noteq> B_VALID
      then bind (ide_sleep b s) (\<lambda>_ s. ide_wait n b s)
      else Ok () s)"

definition iderw :: "nat \<Rightarrow> 'z bio_state_scheme \<Rightarrow> (unit, 'z bio_state_scheme) res" where
  "iderw b s =
     bind (holdingsleep (BufLock b) s) (\<lambda>h s.
     if \<not> h then Panic ''iderw: buf not locked''
     else if b_flags (bufs s b) AND (B_VALID OR B_DIRTY) = B_VALID then Panic ''iderw: nothing to do''
     else if b_dev (bufs s b) \<noteq> 0 \<and> \<not> havedisk1 s then Panic ''iderw: ide disk 1 not present''
     else
       bind (acquire IdeLock s) (\<lambda>_ s.
       let s = s\<lparr>idequeue := idequeue s @ [b]\<rparr>
       in bind (if hd (idequeue s) = b then idestart b s else Ok () s) (\<lambda>_ s.
          bind (ide_wait (Suc (Suc NBUF)) b s) (\<lambda>_ s.
          release IdeLock s))))"

section \<open>The buffer cache\<close>

text \<open>Linking a buffer in right after the list head, and unlinking it.\<close>

definition link_front :: "nat \<Rightarrow> 'z bio_state_scheme \<Rightarrow> 'z bio_state_scheme" where
  "link_front b s =
     (let s = upd_buf b (\<lambda>u. u\<lparr>b_next := b_next (bufs s bhead)\<rparr>) s;
          s = upd_buf b (\<lambda>u. u\<lparr>b_prev := bhead\<rparr>) s;
          s = upd_buf (b_next (bufs s bhead)) (\<lambda>u. u\<lparr>b_prev := b\<rparr>) s
      in upd_buf bhead (\<lambda>u. u\<lparr>b_next := b\<rparr>) s)"

definition unlink :: "nat \<Rightarrow> 'z bio_state_scheme \<Rightarrow> 'z bio_state_scheme" where
  "unlink b s =
     (let s = upd_buf (b_next (bufs s b)) (\<lambda>u. u\<lparr>b_prev := b_prev (bufs s b)\<rparr>) s
      in upd_buf (b_prev (bufs s b)) (\<lambda>u. u\<lparr>b_next := b_next (bufs s b)\<rparr>) s)"

definition binit :: "'z bio_state_scheme \<Rightarrow> 'z bio_state_scheme" where
  "binit s =
     (let s = initlock BcacheLock ''bcache'' s;
          s = upd_buf bhead (\<lambda>u. u\<lparr>b_prev := bhead, b_next := bhead\<rparr>) s
      in fold (\<lambda>b s. link_front b (initsleeplock (BufLock b) ''buffer'' s)) [0..<NBUF] s)"

text \<open>The two searches of \<^verbatim>\<open>bget\<close> follow the links until they are back at the head.\<close>

fun find_cached :: "nat \<Rightarrow> nat \<Rightarrow> u32 \<Rightarrow> u32 \<Rightarrow> 'z bio_state_scheme \<Rightarrow> (nat option, 'z bio_state_scheme) res" where
  "find_cached 0 b dev blockno s = Spin"
| "find_cached (Suc n) b dev blockno s =
     (if b = bhead then Ok None s
      else if b_dev (bufs s b) = dev \<and> b_blockno (bufs s b) = blockno then Ok (Some b) s
      else find_cached n (b_next (bufs s b)) dev blockno s)"

fun find_unused :: "nat \<Rightarrow> nat \<Rightarrow> 'z bio_state_scheme \<Rightarrow> (nat option, 'z bio_state_scheme) res" where
  "find_unused 0 b s = Spin"
| "find_unused (Suc n) b s =
     (if b = bhead then Ok None s
      else if b_refcnt (bufs s b) = 0 \<and> b_flags (bufs s b) AND B_DIRTY = 0 then Ok (Some b) s
      else find_unused n (b_prev (bufs s b)) s)"

definition bget :: "u32 \<Rightarrow> u32 \<Rightarrow> 'z bio_state_scheme \<Rightarrow> (nat, 'z bio_state_scheme) res" where
  "bget dev blockno s =
     bind (acquire BcacheLock s) (\<lambda>_ s.
     bind (find_cached (Suc NBUF) (b_next (bufs s bhead)) dev blockno s) (\<lambda>found s.
     case found of
       Some b \<Rightarrow>
         let s = upd_buf b (\<lambda>u. u\<lparr>b_refcnt := b_refcnt u + 1\<rparr>) s
         in bind (release BcacheLock s) (\<lambda>_ s.
            bind (acquiresleep (BufLock b) s) (\<lambda>_ s. Ok b s))
     | None \<Rightarrow>
         bind (find_unused (Suc NBUF) (b_prev (bufs s bhead)) s) (\<lambda>found s.
         case found of
           Some b \<Rightarrow>
             let s = upd_buf b (\<lambda>u. u\<lparr>b_dev := dev, b_blockno := blockno, b_flags := 0, b_refcnt := 1\<rparr>) s
             in bind (release BcacheLock s) (\<lambda>_ s.
                bind (acquiresleep (BufLock b) s) (\<lambda>_ s. Ok b s))
         | None \<Rightarrow> Panic ''bget: no buffers'')))"

definition bread :: "u32 \<Rightarrow> u32 \<Rightarrow> 'z bio_state_scheme \<Rightarrow> (nat, 'z bio_state_scheme) res" where
  "bread dev blockno s =
     bind (bget dev blockno s) (\<lambda>b s.
     if b_flags (bufs s b) AND B_VALID = 0 then bind (iderw b s) (\<lambda>_ s. Ok b s)
     else Ok b s)"

definition bwrite :: "nat \<Rightarrow> 'z bio_state_scheme \<Rightarrow> (unit, 'z bio_state_scheme) res" where
  "bwrite b s =
     bind (holdingsleep (BufLock b) s) (\<lambda>h s.
     if \<not> h then Panic ''bwrite''
     else iderw b (upd_buf b (\<lambda>u. u\<lparr>b_flags := b_flags u OR B_DIRTY\<rparr>) s))"

definition brelse :: "nat \<Rightarrow> 'z bio_state_scheme \<Rightarrow> (unit, 'z bio_state_scheme) res" where
  "brelse b s =
     bind (holdingsleep (BufLock b) s) (\<lambda>h s.
     if \<not> h then Panic ''brelse''
     else
       bind (releasesleep (BufLock b) s) (\<lambda>_ s.
       bind (acquire BcacheLock s) (\<lambda>_ s.
       let s = upd_buf b (\<lambda>u. u\<lparr>b_refcnt := b_refcnt u - 1\<rparr>) s;
           s = (if b_refcnt (bufs s b) = 0 then link_front b (unlink b s) else s)
       in release BcacheLock s)))"

end
