(* ===== verification/Log.thy ===== *)
theory Log
  imports Bio
begin

text \<open>
  The redo log (\<^verbatim>\<open>log.c\<close>): admission of operations, the list of modified blocks, the four
  phases of a commit and recovery. The on-disk header is the image of \<^verbatim>\<open>struct logheader\<close>
  in a block: the count and the block numbers as little-endian words.
\<close>

section \<open>Words inside a block\<close>

definition word_at :: "u8 list \<Rightarrow> nat \<Rightarrow> u32" where
  "word_at d i = ucast (d ! i) OR push_bit 8 (ucast (d ! (i + 1)))
     OR push_bit 16 (ucast (d ! (i + 2))) OR push_bit 24 (ucast (d ! (i + 3)))"

definition set_word :: "u8 list \<Rightarrow> nat \<Rightarrow> u32 \<Rightarrow> u8 list" where
  "set_word d i v = d[i := ucast v, i + 1 := ucast (drop_bit 8 v),
     i + 2 := ucast (drop_bit 16 v), i + 3 := ucast (drop_bit 24 v)]"

definition upd_data :: "nat \<Rightarrow> (u8 list \<Rightarrow> u8 list) \<Rightarrow> 'z bio_state_scheme \<Rightarrow> 'z bio_state_scheme" where
  "upd_data b f s = upd_buf b (\<lambda>u. u\<lparr>b_data := f (b_data u)\<rparr>) s"

section \<open>State\<close>

record log_rec =
  log_start :: u32
  log_size :: u32
  log_outstanding :: int
  log_committing :: bool
  log_dev :: u32
  lh_n :: int
  lh_block :: "u32 list"

record log_state = bio_state +
  log :: log_rec

definition upd_log :: "(log_rec \<Rightarrow> log_rec) \<Rightarrow> 'z log_state_scheme \<Rightarrow> 'z log_state_scheme" where
  "upd_log f s = s\<lparr>log := f (log s)\<rparr>"

section \<open>Phases of a commit\<close>

fun install_loop :: "nat list \<Rightarrow> 'z log_state_scheme \<Rightarrow> (unit, 'z log_state_scheme) res" where
  "install_loop [] s = Ok () s"
| "install_loop (tail # ts) s =
     bind (bread (log_dev (log s)) (log_start (log s) + of_nat tail + 1) s) (\<lambda>lbuf s.
     bind (bread (log_dev (log s)) (lh_block (log s) ! tail) s) (\<lambda>dbuf s.
     let s = upd_data dbuf (\<lambda>_. b_data (bufs s lbuf)) s
     in bind (bwrite dbuf s) (\<lambda>_ s.
        bind (brelse lbuf s) (\<lambda>_ s.
        bind (brelse dbuf s) (\<lambda>_ s. install_loop ts s)))))"

definition install_trans :: "'z log_state_scheme \<Rightarrow> (unit, 'z log_state_scheme) res" where
  "install_trans s = install_loop [0..<nat (lh_n (log s))] s"

text \<open>
  A header on disk that claims more than \<^verbatim>\<open>LOGSIZE\<close> blocks makes \<^verbatim>\<open>read_head\<close> run over
  the end of the in-memory array.
\<close>

definition read_head :: "'z log_state_scheme \<Rightarrow> (unit, 'z log_state_scheme) res" where
  "read_head s =
     bind (bread (log_dev (log s)) (log_start (log s)) s) (\<lambda>b s.
     let d = b_data (bufs s b);
         n = sint (word_at d 0)
     in if n > int LOGSIZE then Fault
        else
          let s = upd_log (\<lambda>l. l\<lparr>lh_n := n,
                lh_block := map (\<lambda>i. word_at d (4 + 4 * i)) [0..<nat n] @ drop (nat n) (lh_block l)\<rparr>) s
          in brelse b s)"

definition write_head :: "'z log_state_scheme \<Rightarrow> (unit, 'z log_state_scheme) res" where
  "write_head s =
     bind (bread (log_dev (log s)) (log_start (log s)) s) (\<lambda>b s.
     let s = upd_data b (\<lambda>d. set_word d 0 (of_int (lh_n (log s)))) s;
         s = upd_data b (\<lambda>d. fold (\<lambda>i d. set_word d (4 + 4 * i) (lh_block (log s) ! i))
               [0..<nat (lh_n (log s))] d) s
     in bind (bwrite b s) (\<lambda>_ s. brelse b s))"

fun write_loop :: "nat list \<Rightarrow> 'z log_state_scheme \<Rightarrow> (unit, 'z log_state_scheme) res" where
  "write_loop [] s = Ok () s"
| "write_loop (tail # ts) s =
     bind (bread (log_dev (log s)) (log_start (log s) + of_nat tail + 1) s) (\<lambda>to s.
     bind (bread (log_dev (log s)) (lh_block (log s) ! tail) s) (\<lambda>from s.
     let s = upd_data to (\<lambda>_. b_data (bufs s from)) s
     in bind (bwrite to s) (\<lambda>_ s.
        bind (brelse from s) (\<lambda>_ s.
        bind (brelse to s) (\<lambda>_ s. write_loop ts s)))))"

definition write_log :: "'z log_state_scheme \<Rightarrow> (unit, 'z log_state_scheme) res" where
  "write_log s = write_loop [0..<nat (lh_n (log s))] s"

definition commit :: "'z log_state_scheme \<Rightarrow> (unit, 'z log_state_scheme) res" where
  "commit s =
     (if lh_n (log s) > 0 then
        bind (write_log s) (\<lambda>_ s.
        bind (write_head s) (\<lambda>_ s.
        bind (install_trans s) (\<lambda>_ s.
        write_head (upd_log (\<lambda>l. l\<lparr>lh_n := 0\<rparr>) s))))
      else Ok () s)"

definition recover_from_log :: "'z log_state_scheme \<Rightarrow> (unit, 'z log_state_scheme) res" where
  "recover_from_log s =
     bind (read_head s) (\<lambda>_ s.
     bind (install_trans s) (\<lambda>_ s.
     write_head (upd_log (\<lambda>l. l\<lparr>lh_n := 0\<rparr>) s)))"

section \<open>Operations\<close>

text \<open>The loop of \<^verbatim>\<open>begin_op\<close>, entered with the lock held; a process that waits re-enters it.\<close>

definition begin_op_loop :: "'z log_state_scheme \<Rightarrow> (unit, 'z log_state_scheme) res" where
  "begin_op_loop s =
     (if log_committing (log s) then sleep ChanLog (Some LogLock) s
      else if lh_n (log s) + (log_outstanding (log s) + 1) * int MAXOPBLOCKS > int LOGSIZE
        then sleep ChanLog (Some LogLock) s
      else release LogLock (upd_log (\<lambda>l. l\<lparr>log_outstanding := log_outstanding l + 1\<rparr>) s))"

definition begin_op :: "'z log_state_scheme \<Rightarrow> (unit, 'z log_state_scheme) res" where
  "begin_op s = bind (acquire LogLock s) (\<lambda>_ s. begin_op_loop s)"

definition begin_op_resume :: "bool \<Rightarrow> 'z log_state_scheme \<Rightarrow> (unit, 'z log_state_scheme) res" where
  "begin_op_resume saved s = bind (sleep_resume saved LogLock s) (\<lambda>_ s. begin_op_loop s)"

definition end_op :: "'z log_state_scheme \<Rightarrow> (unit, 'z log_state_scheme) res" where
  "end_op s =
     bind (acquire LogLock s) (\<lambda>_ s.
     let s = upd_log (\<lambda>l. l\<lparr>log_outstanding := log_outstanding l - 1\<rparr>) s
     in if log_committing (log s) then Panic ''log.committing''
        else if log_outstanding (log s) = 0 then
          let s = upd_log (\<lambda>l. l\<lparr>log_committing := True\<rparr>) s
          in bind (release LogLock s) (\<lambda>_ s.
             bind (commit s) (\<lambda>_ s.
             bind (acquire LogLock s) (\<lambda>_ s.
             let s = upd_log (\<lambda>l. l\<lparr>log_committing := False\<rparr>) s
             in bind (wakeup ChanLog s) (\<lambda>_ s. release LogLock s))))
        else bind (wakeup ChanLog s) (\<lambda>_ s. release LogLock s))"

definition log_write :: "nat \<Rightarrow> 'z log_state_scheme \<Rightarrow> (unit, 'z log_state_scheme) res" where
  "log_write b s =
     (if lh_n (log s) \<ge> int LOGSIZE \<or> lh_n (log s) \<ge> sint (log_size (log s)) - 1
      then Panic ''too big a transaction''
      else if log_outstanding (log s) < 1 then Panic ''log_write outside of trans''
      else
        bind (acquire LogLock s) (\<lambda>_ s.
        let n = nat (lh_n (log s));
            i = (case scan (\<lambda>x. x = b_blockno (bufs s b)) (take n (lh_block (log s))) of Some i \<Rightarrow> i | None \<Rightarrow> n);
            s = upd_log (\<lambda>l. l\<lparr>lh_block := (lh_block l)[i := b_blockno (bufs s b)]\<rparr>) s;
            s = (if i = n then upd_log (\<lambda>l. l\<lparr>lh_n := lh_n l + 1\<rparr>) s else s);
            s = upd_buf b (\<lambda>u. u\<lparr>b_flags := b_flags u OR B_DIRTY\<rparr>) s
        in release LogLock s))"

end
