(* ===== verification/Fs.thy ===== *)
theory Fs
  imports Log
begin

text \<open>
  The lower layers of the file system (\<^verbatim>\<open>fs.c\<close> up to inode contents, \<^verbatim>\<open>fs.h\<close>, the inode
  of \<^verbatim>\<open>file.h\<close>): the super block, the block bitmap, on-disk inodes and the inode cache.
  A pointer to a cached inode is its index in the cache.
\<close>

section \<open>On-disk structures\<close>

definition ROOTINO :: u32 where [kernel_defs]: "ROOTINO = 1"
definition NDIRECT :: nat where [kernel_defs]: "NDIRECT = 12"
definition NINDIRECT :: nat where [kernel_defs]: "NINDIRECT = BSIZE div 4"
definition MAXFILE :: nat where [kernel_defs]: "MAXFILE = NDIRECT + NINDIRECT"
definition DINODE_SIZE :: nat where [kernel_defs]: "DINODE_SIZE = 64"
definition IPB :: nat where [kernel_defs]: "IPB = BSIZE div DINODE_SIZE"
definition BPB :: nat where [kernel_defs]: "BPB = BSIZE * 8"
definition DIRSIZ :: nat where [kernel_defs]: "DIRSIZ = 14"
definition T_DIR :: u16 where [kernel_defs]: "T_DIR = 1"
definition T_FILE :: u16 where [kernel_defs]: "T_FILE = 2"
definition T_DEV :: u16 where [kernel_defs]: "T_DEV = 3"
definition I_VALID :: u32 where [kernel_defs]: "I_VALID = 2"
definition CONSOLE :: int where [kernel_defs]: "CONSOLE = 1"

record superblock =
  sb_size :: u32
  sb_nblocks :: u32
  sb_ninodes :: u32
  sb_nlog :: u32
  sb_logstart :: u32
  sb_inodestart :: u32
  sb_bmapstart :: u32

text \<open>The fields of \<^verbatim>\<open>struct dinode\<close>, which an inode in memory copies.\<close>

record dinode =
  i_type :: u16
  i_major :: u16
  i_minor :: u16
  i_nlink :: u16
  i_size :: u32
  i_addrs :: "u32 list"

record inode = dinode +
  i_dev :: u32
  i_inum :: u32
  i_ref :: int
  i_flags :: u32

definition half_at :: "u8 list \<Rightarrow> nat \<Rightarrow> u16" where
  "half_at d i = ucast (d ! i) OR push_bit 8 (ucast (d ! (i + 1)))"

definition set_half :: "u8 list \<Rightarrow> nat \<Rightarrow> u16 \<Rightarrow> u8 list" where
  "set_half d i v = d[i := ucast v, i + 1 := ucast (drop_bit 8 v)]"

definition dinode_at :: "u8 list \<Rightarrow> nat \<Rightarrow> dinode" where
  "dinode_at d o' = \<lparr>i_type = half_at d o', i_major = half_at d (o' + 2), i_minor = half_at d (o' + 4),
     i_nlink = half_at d (o' + 6), i_size = word_at d (o' + 8),
     i_addrs = map (\<lambda>k. word_at d (o' + 12 + 4 * k)) [0..<NDIRECT + 1]\<rparr>"

definition set_dinode :: "u8 list \<Rightarrow> nat \<Rightarrow> 'z dinode_scheme \<Rightarrow> u8 list" where
  "set_dinode d o' ip =
     (let d = set_half d o' (i_type ip);
          d = set_half d (o' + 2) (i_major ip);
          d = set_half d (o' + 4) (i_minor ip);
          d = set_half d (o' + 6) (i_nlink ip);
          d = set_word d (o' + 8) (i_size ip)
      in fold (\<lambda>k d. set_word d (o' + 12 + 4 * k) (i_addrs ip ! k)) [0..<NDIRECT + 1] d)"

definition zero_bytes :: "u8 list \<Rightarrow> nat \<Rightarrow> nat \<Rightarrow> u8 list" where
  "zero_bytes d o' n = fold (\<lambda>k d. d[o' + k := 0]) [0..<n] d"

record fs_state = log_state +
  sb :: superblock
  icache :: "inode list"
  devsw :: "int \<Rightarrow> bool"

definition upd_inode :: "nat \<Rightarrow> (inode \<Rightarrow> inode) \<Rightarrow> 'z fs_state_scheme \<Rightarrow> 'z fs_state_scheme" where
  "upd_inode ip f s = s\<lparr>icache := (icache s)[ip := f (icache s ! ip)]\<rparr>"

abbreviation inode_of :: "'z fs_state_scheme \<Rightarrow> nat \<Rightarrow> inode" where
  "inode_of s ip \<equiv> icache s ! ip"

definition IBLOCK :: "u32 \<Rightarrow> superblock \<Rightarrow> u32" where
  "IBLOCK i sb' = i div of_nat IPB + sb_inodestart sb'"

definition BBLOCK :: "u32 \<Rightarrow> superblock \<Rightarrow> u32" where
  "BBLOCK b sb' = b div of_nat BPB + sb_bmapstart sb'"

definition inode_off :: "u32 \<Rightarrow> nat" where
  "inode_off inum = unat inum mod IPB * DINODE_SIZE"

section \<open>Blocks\<close>

definition superblock_at :: "u8 list \<Rightarrow> superblock" where
  "superblock_at d = \<lparr>sb_size = word_at d 0, sb_nblocks = word_at d 4, sb_ninodes = word_at d 8,
     sb_nlog = word_at d 12, sb_logstart = word_at d 16, sb_inodestart = word_at d 20, sb_bmapstart = word_at d 24\<rparr>"

definition readsb :: "u32 \<Rightarrow> 'z bio_state_scheme \<Rightarrow> (superblock, 'z bio_state_scheme) res" where
  "readsb dev s =
     bind (bread dev 1 s) (\<lambda>bp s.
     let sb' = superblock_at (b_data (bufs s bp))
     in bind (brelse bp s) (\<lambda>_ s. Ok sb' s))"

definition bzero :: "u32 \<Rightarrow> u32 \<Rightarrow> 'z log_state_scheme \<Rightarrow> (unit, 'z log_state_scheme) res" where
  "bzero dev bno s =
     bind (bread dev bno s) (\<lambda>bp s.
     let s = upd_data bp (\<lambda>d. replicate (length d) 0) s
     in bind (log_write bp s) (\<lambda>_ s. brelse bp s))"

definition bit_free :: "u8 list \<Rightarrow> nat \<Rightarrow> bool" where
  "bit_free d bi \<longleftrightarrow> d ! (bi div 8) AND push_bit (bi mod 8) 1 = 0"

definition mark_used :: "nat \<Rightarrow> u8 list \<Rightarrow> u8 list" where
  "mark_used bi d = d[bi div 8 := d ! (bi div 8) OR push_bit (bi mod 8) 1]"

definition mark_free :: "nat \<Rightarrow> u8 list \<Rightarrow> u8 list" where
  "mark_free bi d = d[bi div 8 := d ! (bi div 8) AND NOT (push_bit (bi mod 8) 1)]"

fun balloc_loop :: "nat \<Rightarrow> u32 \<Rightarrow> nat \<Rightarrow> 'z fs_state_scheme \<Rightarrow> (u32, 'z fs_state_scheme) res" where
  "balloc_loop 0 dev b s = Spin"
| "balloc_loop (Suc n) dev b s =
     (if \<not> b < unat (sb_size (sb s)) then Panic ''balloc: out of blocks''
      else
        bind (bread dev (BBLOCK (of_nat b) (sb s)) s) (\<lambda>bp s.
        case scan (bit_free (b_data (bufs s bp))) [0..<min BPB (unat (sb_size (sb s)) - b)] of
          Some bi \<Rightarrow>
            let s = upd_data bp (mark_used bi) s
            in bind (log_write bp s) (\<lambda>_ s.
               bind (brelse bp s) (\<lambda>_ s.
               bind (bzero dev (of_nat (b + bi)) s) (\<lambda>_ s. Ok (of_nat (b + bi)) s)))
        | None \<Rightarrow> bind (brelse bp s) (\<lambda>_ s. balloc_loop n dev (b + BPB) s)))"

definition balloc :: "u32 \<Rightarrow> 'z fs_state_scheme \<Rightarrow> (u32, 'z fs_state_scheme) res" where
  "balloc dev s = balloc_loop (Suc (Suc (unat (sb_size (sb s)) div BPB))) dev 0 s"

definition bfree :: "u32 \<Rightarrow> u32 \<Rightarrow> 'z fs_state_scheme \<Rightarrow> (unit, 'z fs_state_scheme) res" where
  "bfree dev b s =
     bind (readsb dev s) (\<lambda>sb' s.
     let s = s\<lparr>sb := sb'\<rparr>
     in bind (bread dev (BBLOCK b (sb s)) s) (\<lambda>bp s.
        let bi = unat b mod BPB
        in if bit_free (b_data (bufs s bp)) bi then Panic ''freeing free block''
           else
             let s = upd_data bp (mark_free bi) s
             in bind (log_write bp s) (\<lambda>_ s. brelse bp s)))"

section \<open>Inodes\<close>

definition iinit :: "u32 \<Rightarrow> 'z fs_state_scheme \<Rightarrow> (unit, 'z fs_state_scheme) res" where
  "iinit dev s =
     (let s = initlock IcacheLock ''icache'' s;
          s = fold (\<lambda>i. initsleeplock (InodeLock i) ''inode'') [0..<NINODE] s
      in bind (readsb dev s) (\<lambda>sb' s.
         let s = s\<lparr>sb := sb'\<rparr>
         in cprintf (''sb: size %d nblocks %d ninodes %d nlog %d logstart %d inodestart %d bmap start %d'' @ [CHR 0x0A])
              [PInt (sb_size sb'), PInt (sb_nblocks sb'), PInt (sb_ninodes sb'), PInt (sb_nlog sb'),
               PInt (sb_logstart sb'), PInt (sb_inodestart sb'), PInt (sb_bmapstart sb')] s))"

definition initlog :: "u32 \<Rightarrow> 'z fs_state_scheme \<Rightarrow> (unit, 'z fs_state_scheme) res" where
  "initlog dev s =
     (let s = initlock LogLock ''log'' s
      in bind (readsb dev s) (\<lambda>sb' s.
         recover_from_log (upd_log (\<lambda>l. l\<lparr>log_start := sb_logstart sb', log_size := sb_nlog sb', log_dev := dev\<rparr>) s)))"

definition iget :: "u32 \<Rightarrow> u32 \<Rightarrow> 'z fs_state_scheme \<Rightarrow> (nat, 'z fs_state_scheme) res" where
  "iget dev inum s =
     bind (acquire IcacheLock s) (\<lambda>_ s.
     case scan (\<lambda>ip. i_ref ip > 0 \<and> i_dev ip = dev \<and> i_inum ip = inum) (icache s) of
       Some ip \<Rightarrow>
         bind (release IcacheLock (upd_inode ip (\<lambda>i. i\<lparr>i_ref := i_ref i + 1\<rparr>) s)) (\<lambda>_ s. Ok ip s)
     | None \<Rightarrow>
         (case scan (\<lambda>ip. i_ref ip = 0) (icache s) of
            None \<Rightarrow> Panic ''iget: no inodes''
          | Some ip \<Rightarrow>
              bind (release IcacheLock
                (upd_inode ip (\<lambda>i. i\<lparr>i_dev := dev, i_inum := inum, i_ref := 1, i_flags := 0\<rparr>) s)) (\<lambda>_ s.
              Ok ip s)))"

fun ialloc_loop :: "u32 \<Rightarrow> u16 \<Rightarrow> nat list \<Rightarrow> 'z fs_state_scheme \<Rightarrow> (nat, 'z fs_state_scheme) res" where
  "ialloc_loop dev type [] s = Panic ''ialloc: no inodes''"
| "ialloc_loop dev type (inum # is) s =
     bind (bread dev (IBLOCK (of_nat inum) (sb s)) s) (\<lambda>bp s.
     let o' = inode_off (of_nat inum)
     in if half_at (b_data (bufs s bp)) o' = 0 then
          let s = upd_data bp (\<lambda>d. zero_bytes d o' DINODE_SIZE) s;
              s = upd_data bp (\<lambda>d. set_half d o' type) s
          in bind (log_write bp s) (\<lambda>_ s.
             bind (brelse bp s) (\<lambda>_ s. iget dev (of_nat inum) s))
        else bind (brelse bp s) (\<lambda>_ s. ialloc_loop dev type is s))"

definition ialloc :: "u32 \<Rightarrow> u16 \<Rightarrow> 'z fs_state_scheme \<Rightarrow> (nat, 'z fs_state_scheme) res" where
  "ialloc dev type s = ialloc_loop dev type [1..<unat (sb_ninodes (sb s))] s"

definition iupdate :: "nat \<Rightarrow> 'z fs_state_scheme \<Rightarrow> (unit, 'z fs_state_scheme) res" where
  "iupdate ip s =
     bind (bread (i_dev (inode_of s ip)) (IBLOCK (i_inum (inode_of s ip)) (sb s)) s) (\<lambda>bp s.
     let s = upd_data bp (\<lambda>d. set_dinode d (inode_off (i_inum (inode_of s ip))) (inode_of s ip)) s
     in bind (log_write bp s) (\<lambda>_ s. brelse bp s))"

definition idup :: "nat \<Rightarrow> 'z fs_state_scheme \<Rightarrow> (nat, 'z fs_state_scheme) res" where
  "idup ip s =
     bind (acquire IcacheLock s) (\<lambda>_ s.
     bind (release IcacheLock (upd_inode ip (\<lambda>i. i\<lparr>i_ref := i_ref i + 1\<rparr>) s)) (\<lambda>_ s. Ok ip s))"

text \<open>The part of \<^verbatim>\<open>ilock\<close> after the sleep lock is taken, and the whole of it.\<close>

definition copy_dinode :: "dinode \<Rightarrow> inode \<Rightarrow> inode" where
  "copy_dinode d i = i\<lparr>i_type := i_type d, i_major := i_major d, i_minor := i_minor d,
     i_nlink := i_nlink d, i_size := i_size d, i_addrs := i_addrs d\<rparr>"

definition ilock_load :: "nat \<Rightarrow> 'z fs_state_scheme \<Rightarrow> (unit, 'z fs_state_scheme) res" where
  "ilock_load ip s =
     (if i_flags (inode_of s ip) AND I_VALID = 0 then
        bind (bread (i_dev (inode_of s ip)) (IBLOCK (i_inum (inode_of s ip)) (sb s)) s) (\<lambda>bp s.
        let s = upd_inode ip (copy_dinode (dinode_at (b_data (bufs s bp)) (inode_off (i_inum (inode_of s ip))))) s
        in bind (brelse bp s) (\<lambda>_ s.
           let s = upd_inode ip (\<lambda>i. i\<lparr>i_flags := i_flags i OR I_VALID\<rparr>) s
           in if i_type (inode_of s ip) = 0 then Panic ''ilock: no type'' else Ok () s))
      else Ok () s)"

definition ilock :: "nat \<Rightarrow> 'z fs_state_scheme \<Rightarrow> (unit, 'z fs_state_scheme) res" where
  "ilock ip s =
     (if i_ref (inode_of s ip) < 1 then Panic ''ilock''
      else bind (acquiresleep (InodeLock ip) s) (\<lambda>_ s. ilock_load ip s))"

definition iunlock :: "nat \<Rightarrow> 'z fs_state_scheme \<Rightarrow> (unit, 'z fs_state_scheme) res" where
  "iunlock ip s =
     bind (holdingsleep (InodeLock ip) s) (\<lambda>h s.
     if \<not> h \<or> i_ref (inode_of s ip) < 1 then Panic ''iunlock''
     else releasesleep (InodeLock ip) s)"

section \<open>Truncation and release\<close>

fun trunc_direct :: "nat list \<Rightarrow> nat \<Rightarrow> 'z fs_state_scheme \<Rightarrow> (unit, 'z fs_state_scheme) res" where
  "trunc_direct [] ip s = Ok () s"
| "trunc_direct (i # is) ip s =
     (if i_addrs (inode_of s ip) ! i \<noteq> 0 then
        bind (bfree (i_dev (inode_of s ip)) (i_addrs (inode_of s ip) ! i) s) (\<lambda>_ s.
        trunc_direct is ip (upd_inode ip (\<lambda>u. u\<lparr>i_addrs := (i_addrs u)[i := 0]\<rparr>) s))
      else trunc_direct is ip s)"

fun trunc_indirect :: "nat list \<Rightarrow> nat \<Rightarrow> u32 \<Rightarrow> 'z fs_state_scheme \<Rightarrow> (unit, 'z fs_state_scheme) res" where
  "trunc_indirect [] bp dev s = Ok () s"
| "trunc_indirect (j # js) bp dev s =
     (let a = word_at (b_data (bufs s bp)) (4 * j)
      in if a \<noteq> 0 then bind (bfree dev a s) (\<lambda>_ s. trunc_indirect js bp dev s)
         else trunc_indirect js bp dev s)"

definition itrunc :: "nat \<Rightarrow> 'z fs_state_scheme \<Rightarrow> (unit, 'z fs_state_scheme) res" where
  "itrunc ip s =
     bind (trunc_direct [0..<NDIRECT] ip s) (\<lambda>_ s.
     bind (if i_addrs (inode_of s ip) ! NDIRECT \<noteq> 0 then
             bind (bread (i_dev (inode_of s ip)) (i_addrs (inode_of s ip) ! NDIRECT) s) (\<lambda>bp s.
             bind (trunc_indirect [0..<NINDIRECT] bp (i_dev (inode_of s ip)) s) (\<lambda>_ s.
             bind (brelse bp s) (\<lambda>_ s.
             bind (bfree (i_dev (inode_of s ip)) (i_addrs (inode_of s ip) ! NDIRECT) s) (\<lambda>_ s.
             Ok () (upd_inode ip (\<lambda>u. u\<lparr>i_addrs := (i_addrs u)[NDIRECT := 0]\<rparr>) s)))))
           else Ok () s) (\<lambda>_ s.
     iupdate ip (upd_inode ip (\<lambda>u. u\<lparr>i_size := 0\<rparr>) s)))"

definition iput :: "nat \<Rightarrow> 'z fs_state_scheme \<Rightarrow> (unit, 'z fs_state_scheme) res" where
  "iput ip s =
     bind (acquire IcacheLock s) (\<lambda>_ s.
     bind (if i_ref (inode_of s ip) = 1 \<and> i_flags (inode_of s ip) AND I_VALID \<noteq> 0 \<and> i_nlink (inode_of s ip) = 0 then
             bind (release IcacheLock s) (\<lambda>_ s.
             bind (itrunc ip s) (\<lambda>_ s.
             bind (iupdate ip (upd_inode ip (\<lambda>u. u\<lparr>i_type := 0\<rparr>) s)) (\<lambda>_ s.
             bind (acquire IcacheLock s) (\<lambda>_ s.
             Ok () (upd_inode ip (\<lambda>u. u\<lparr>i_flags := 0\<rparr>) s)))))
           else Ok () s) (\<lambda>_ s.
     release IcacheLock (upd_inode ip (\<lambda>u. u\<lparr>i_ref := i_ref u - 1\<rparr>) s)))"

definition iunlockput :: "nat \<Rightarrow> 'z fs_state_scheme \<Rightarrow> (unit, 'z fs_state_scheme) res" where
  "iunlockput ip s = bind (iunlock ip s) (\<lambda>_ s. iput ip s)"

section \<open>Block addresses of a file\<close>

definition bmap :: "nat \<Rightarrow> u32 \<Rightarrow> 'z fs_state_scheme \<Rightarrow> (u32, 'z fs_state_scheme) res" where
  "bmap ip bn s =
     (if unat bn < NDIRECT then
        (let addr = i_addrs (inode_of s ip) ! unat bn
         in if addr = 0 then
              bind (balloc (i_dev (inode_of s ip)) s) (\<lambda>addr s.
              Ok addr (upd_inode ip (\<lambda>u. u\<lparr>i_addrs := (i_addrs u)[unat bn := addr]\<rparr>) s))
            else Ok addr s)
      else
        let bn = unat bn - NDIRECT
        in if bn < NINDIRECT then
             bind (if i_addrs (inode_of s ip) ! NDIRECT = 0 then
                     bind (balloc (i_dev (inode_of s ip)) s) (\<lambda>addr s.
                     Ok addr (upd_inode ip (\<lambda>u. u\<lparr>i_addrs := (i_addrs u)[NDIRECT := addr]\<rparr>) s))
                   else Ok (i_addrs (inode_of s ip) ! NDIRECT) s) (\<lambda>addr s.
             bind (bread (i_dev (inode_of s ip)) addr s) (\<lambda>bp s.
             let addr = word_at (b_data (bufs s bp)) (4 * bn)
             in bind (if addr = 0 then
                        bind (balloc (i_dev (inode_of s ip)) s) (\<lambda>addr s.
                        bind (log_write bp (upd_data bp (\<lambda>d. set_word d (4 * bn) addr) s)) (\<lambda>_ s. Ok addr s))
                      else Ok addr s) (\<lambda>addr s.
                bind (brelse bp s) (\<lambda>_ s. Ok addr s))))
           else Panic ''bmap: out of range'')"

text \<open>\<^verbatim>\<open>stati\<close>: the fields of \<^verbatim>\<open>struct stat\<close> in the order of the structure.\<close>

record stat =
  st_type :: u16
  st_dev :: u32
  st_ino :: u32
  st_nlink :: u16
  st_size :: u32

definition stati :: "nat \<Rightarrow> 'z fs_state_scheme \<Rightarrow> stat" where
  "stati ip s = \<lparr>st_type = i_type (inode_of s ip), st_dev = i_dev (inode_of s ip), st_ino = i_inum (inode_of s ip),
     st_nlink = i_nlink (inode_of s ip), st_size = i_size (inode_of s ip)\<rparr>"

end
