(* ===== verification/Kbd.thy ===== *)
theory Kbd
  imports Prelude
begin

text \<open>
  The keyboard decoder (\<^verbatim>\<open>kbd.c\<close>, \<^verbatim>\<open>kbd.h\<close>): scan codes, the modifier state and the three
  key maps. The tables list the entries up to 0x57 and the extended ones; the rest are 0.
\<close>

section \<open>Tables\<close>

definition SHIFT :: u32 where "SHIFT = 1"
definition CTL :: u32 where "CTL = 2"
definition ALT :: u32 where "ALT = 4"
definition CAPSLOCK :: u32 where "CAPSLOCK = 8"
definition NUMLOCK :: u32 where "NUMLOCK = 16"
definition SCROLLLOCK :: u32 where "SCROLLLOCK = 32"
definition E0ESC :: u32 where "E0ESC = 64"

definition entry :: "(nat \<times> u32) list \<Rightarrow> nat \<Rightarrow> u32" where
  "entry t i = (case map_of t i of None \<Rightarrow> 0 | Some v \<Rightarrow> v)"

definition shiftcode :: "nat \<Rightarrow> u32" where
  "shiftcode = entry [(0x1D, CTL), (0x2A, SHIFT), (0x36, SHIFT), (0x38, ALT), (0x9D, CTL), (0xB8, ALT)]"

definition togglecode :: "nat \<Rightarrow> u32" where
  "togglecode = entry [(0x3A, CAPSLOCK), (0x45, NUMLOCK), (0x46, SCROLLLOCK)]"

definition extended :: "(nat \<times> u32) list" where
  "extended = [(0xC8, 0xE2), (0xD0, 0xE3), (0xC9, 0xE6), (0xD1, 0xE7), (0xCB, 0xE4), (0xCD, 0xE5),
     (0x97, 0xE0), (0xCF, 0xE1), (0xD2, 0xE8), (0xD3, 0xE9)]"

definition chars :: "string \<Rightarrow> u32 list" where "chars = map of_char"

definition row_entry :: "u32 list \<Rightarrow> (nat \<times> u32) list \<Rightarrow> nat \<Rightarrow> u32" where
  "row_entry rows ext i = (if i < length rows then rows ! i else entry ext i)"

definition normalmap :: "nat \<Rightarrow> u32" where
  "normalmap = row_entry
     ([0, 0x1B] @ chars ''1234567890-='' @ [8, 9] @
      chars ''qwertyuiop[]'' @ [10, 0] @ chars ''asdfghjkl;'' @ [39] @ chars ''`'' @ [0, 92] @
      chars ''zxcvbnm,./'' @ [0] @ chars ''*'' @ [0] @ chars '' '' @ replicate 13 0 @
      chars ''789-456+1230.'' @ replicate 4 0)
     ([(0x9C, 10), (0xB5, 47)] @ extended)"

definition shiftmap :: "nat \<Rightarrow> u32" where
  "shiftmap = row_entry
     ([0, 27] @ chars ''!@#$%^&*()_+'' @ [8, 9] @
      chars ''QWERTYUIOP{}'' @ [10, 0] @ chars ''ASDFGHJKL:'' @ [34] @ chars ''~'' @ [0] @ chars ''|'' @
      chars ''ZXCVBNM<>?'' @ [0] @ chars ''*'' @ [0] @ chars '' '' @ replicate 13 0 @
      chars ''789-456+1230.'' @ replicate 4 0)
     ([(0x9C, 10), (0xB5, 47)] @ extended)"

definition ctl :: "string \<Rightarrow> u32 list" where "ctl cs = map (\<lambda>c. of_char c - 64) cs"

text \<open>The control maps are arrays of bytes, so \<^verbatim>\<open>C('/')\<close>, which is negative, is stored as 0xEF.\<close>

definition ctlmap :: "nat \<Rightarrow> u32" where
  "ctlmap = row_entry
     (replicate 16 0 @ ctl ''QWERTYUIOP'' @ [0, 0, 13, 0] @ ctl ''ASDFGHJKL'' @ [0, 0, 0, 0, 28] @
      ctl ''ZXCVBNM'' @ [0, 0, 0xEF, 0, 0])
     ([(0x9C, 13), (0xB5, 0xEF)] @ extended)"

section \<open>Decoding\<close>

definition charcode :: "u32 \<Rightarrow> nat \<Rightarrow> u32" where
  "charcode k = (if k = 0 then normalmap else if k = 1 then shiftmap else ctlmap)"

text \<open>One call with a byte in the controller: the character, 0 for none, and the modifiers.\<close>

definition kbdgetc :: "u8 \<Rightarrow> u32 \<Rightarrow> u32 \<times> u32" where
  "kbdgetc byte shift =
     (let data = ucast byte :: u32 in
      if data = 0xE0 then (0, shift OR E0ESC)
      else if data AND 0x80 \<noteq> 0 then
        let data = (if shift AND E0ESC \<noteq> 0 then data else data AND 0x7F)
        in (0, shift AND NOT (shiftcode (unat data) OR E0ESC))
      else
        let (data, shift) =
              (if shift AND E0ESC \<noteq> 0 then (data OR 0x80, shift AND NOT E0ESC) else (data, shift));
            shift = shift OR shiftcode (unat data);
            shift = shift XOR togglecode (unat data);
            c = charcode (shift AND (CTL OR SHIFT)) (unat data);
            c = (if shift AND CAPSLOCK \<noteq> 0 then
                   if 97 \<le> c \<and> c \<le> 122 then c + (65 - 97)
                   else if 65 \<le> c \<and> c \<le> 90 then c + (97 - 65) else c
                 else c)
        in (c, shift))"

text \<open>The calls of \<^verbatim>\<open>consoleintr\<close> until the controller is empty.\<close>

fun kbd_chars :: "u8 list \<Rightarrow> u32 \<Rightarrow> int list \<times> u32" where
  "kbd_chars [] shift = ([], shift)"
| "kbd_chars (b # bs) shift =
     (let (c, shift) = kbdgetc b shift;
          (cs, shift) = kbd_chars bs shift
      in (uint c # cs, shift))"

end
