(* ===== verification/ConsoleIO.thy ===== *)
theory ConsoleIO
  imports Fs Kbd
begin

text \<open>
  Console input and the console device (\<^verbatim>\<open>console.c\<close>): the edit buffer with its three
  running indices, the interrupt handler that fills it, and the device operations that
  \<^verbatim>\<open>devsw\<close> points to. The characters that \<^verbatim>\<open>getc\<close> delivers in one interrupt are a list.
\<close>

section \<open>State\<close>

definition INPUT_BUF :: nat where [kernel_defs]: "INPUT_BUF = 128"

record input_rec =
  in_buf :: "u8 list"
  in_r :: u32
  in_w :: u32
  in_e :: u32

record inp_state = fs_state +
  input :: input_rec
  kbd_shift :: u32

definition upd_input :: "(input_rec \<Rightarrow> input_rec) \<Rightarrow> 'z inp_state_scheme \<Rightarrow> 'z inp_state_scheme" where
  "upd_input f s = s\<lparr>input := f (input s)\<rparr>"

definition in_slot :: "u32 \<Rightarrow> nat" where
  "in_slot i = unat i mod INPUT_BUF"

section \<open>The interrupt handler\<close>

fun kill_line :: "nat \<Rightarrow> 'z inp_state_scheme \<Rightarrow> (unit, 'z inp_state_scheme) res" where
  "kill_line 0 s = Spin"
| "kill_line (Suc n) s =
     (let i = input s in
      if in_e i \<noteq> in_w i \<and> in_buf i ! in_slot (in_e i - 1) \<noteq> 10 then
        bind (consputc BACKSPACE (upd_input (\<lambda>i. i\<lparr>in_e := in_e i - 1\<rparr>) s)) (\<lambda>_ s. kill_line n s)
      else Ok () s)"

definition input_char :: "int \<Rightarrow> 'z inp_state_scheme \<Rightarrow> (unit, 'z inp_state_scheme) res" where
  "input_char c s =
     (if c \<noteq> 0 \<and> in_e (input s) - in_r (input s) < of_nat INPUT_BUF then
        let c = (if c = 13 then 10 else c);
            s = upd_input (\<lambda>i. i\<lparr>in_buf := (in_buf i)[in_slot (in_e i) := of_int c], in_e := in_e i + 1\<rparr>) s
        in bind (consputc c s) (\<lambda>_ s.
           if c = 10 \<or> c = 4 \<or> in_e (input s) = in_r (input s) + of_nat INPUT_BUF then
             wakeup ChanInput (upd_input (\<lambda>i. i\<lparr>in_w := in_e i\<rparr>) s)
           else Ok () s)
      else Ok () s)"

fun consoleintr_loop :: "int list \<Rightarrow> bool \<Rightarrow> 'z inp_state_scheme \<Rightarrow> (bool, 'z inp_state_scheme) res" where
  "consoleintr_loop [] doprocdump s = Ok doprocdump s"
| "consoleintr_loop (c # cs) doprocdump s =
     (if c = 16 then consoleintr_loop cs True s
      else if c = 21 then
        bind (kill_line (Suc (unat (in_e (input s) - in_w (input s)))) s) (\<lambda>_ s. consoleintr_loop cs doprocdump s)
      else if c = 8 \<or> c = 127 then
        (if in_e (input s) \<noteq> in_w (input s) then
           bind (consputc BACKSPACE (upd_input (\<lambda>i. i\<lparr>in_e := in_e i - 1\<rparr>) s)) (\<lambda>_ s.
           consoleintr_loop cs doprocdump s)
         else consoleintr_loop cs doprocdump s)
      else bind (input_char c s) (\<lambda>_ s. consoleintr_loop cs doprocdump s))"

definition consoleintr :: "int list \<Rightarrow> 'z inp_state_scheme \<Rightarrow> (unit, 'z inp_state_scheme) res" where
  "consoleintr cs s =
     bind (acquire ConsLock s) (\<lambda>_ s.
     bind (consoleintr_loop cs False s) (\<lambda>doprocdump s.
     bind (release ConsLock s) (\<lambda>_ s.
     if doprocdump then procdump s else Ok () s)))"

definition kbdintr :: "u8 list \<Rightarrow> 'z inp_state_scheme \<Rightarrow> (unit, 'z inp_state_scheme) res" where
  "kbdintr codes s =
     (let (cs, shift) = kbd_chars codes (kbd_shift s) in consoleintr cs (s\<lparr>kbd_shift := shift\<rparr>))"

definition uartintr :: "u8 list \<Rightarrow> 'z inp_state_scheme \<Rightarrow> (unit, 'z inp_state_scheme) res" where
  "uartintr codes s = consoleintr (if uart s then map uint codes else []) s"

section \<open>The device operations\<close>

text \<open>
  The loop of \<^verbatim>\<open>consoleread\<close> with \<^verbatim>\<open>n\<close> bytes still wanted and the bytes stored so far. A
  process that finds the buffer empty sleeps; when it runs again it re-enters the loop.
\<close>

definition consoleread_end :: "nat \<Rightarrow> int \<Rightarrow> u8 list \<Rightarrow> 'z inp_state_scheme \<Rightarrow> (int \<times> u8 list, 'z inp_state_scheme) res" where
  "consoleread_end ip r acc s =
     bind (release ConsLock s) (\<lambda>_ s. bind (ilock ip s) (\<lambda>_ s. Ok (r, acc) s))"

fun consoleread_loop ::
  "nat \<Rightarrow> nat \<Rightarrow> u8 list \<Rightarrow> 'z inp_state_scheme \<Rightarrow> (int \<times> u8 list, 'z inp_state_scheme) res" where
  "consoleread_loop ip 0 acc s = consoleread_end ip (int (length acc)) acc s"
| "consoleread_loop ip (Suc n) acc s =
     (if in_r (input s) = in_w (input s) then
        with_proc (\<lambda>me s.
          if p_killed (pslot s me) then consoleread_end ip (- 1) acc s
          else sleep ChanInput (Some ConsLock) s) s
      else
        let c = in_buf (input s) ! in_slot (in_r (input s));
            s = upd_input (\<lambda>i. i\<lparr>in_r := in_r i + 1\<rparr>) s
        in if c = 4 then
             let s = (if acc \<noteq> [] then upd_input (\<lambda>i. i\<lparr>in_r := in_r i - 1\<rparr>) s else s)
             in consoleread_end ip (int (length acc)) acc s
           else if c = 10 then consoleread_end ip (int (length acc) + 1) (acc @ [c]) s
           else consoleread_loop ip n (acc @ [c]) s)"

definition consoleread :: "nat \<Rightarrow> nat \<Rightarrow> 'z inp_state_scheme \<Rightarrow> (int \<times> u8 list, 'z inp_state_scheme) res" where
  "consoleread ip n s =
     bind (iunlock ip s) (\<lambda>_ s.
     bind (acquire ConsLock s) (\<lambda>_ s. consoleread_loop ip n [] s))"

definition consoleread_resume ::
  "bool \<Rightarrow> nat \<Rightarrow> nat \<Rightarrow> u8 list \<Rightarrow> 'z inp_state_scheme \<Rightarrow> (int \<times> u8 list, 'z inp_state_scheme) res" where
  "consoleread_resume saved ip n acc s =
     bind (sleep_resume saved ConsLock s) (\<lambda>_ s. consoleread_loop ip n acc s)"

definition consolewrite :: "nat \<Rightarrow> u8 list \<Rightarrow> 'z fs_state_scheme \<Rightarrow> (int, 'z fs_state_scheme) res" where
  "consolewrite ip src s =
     bind (iunlock ip s) (\<lambda>_ s.
     bind (acquire ConsLock s) (\<lambda>_ s.
     bind (consputs src s) (\<lambda>_ s.
     bind (release ConsLock s) (\<lambda>_ s.
     bind (ilock ip s) (\<lambda>_ s. Ok (int (length src)) s)))))"

definition consoleinit :: "'z fs_state_scheme \<Rightarrow> 'z fs_state_scheme" where
  "consoleinit s =
     (initlock ConsLock ''console'' s)\<lparr>devsw := (devsw s)(CONSOLE := True), cons_locking := True\<rparr>"

end
