(* ===== verification/Dir.thy ===== *)
theory Dir
  imports ConsoleIO
begin

text \<open>
  The upper layers of the file system (\<^verbatim>\<open>fs.c\<close> from inode contents on): reading and writing
  a file, directories and path names. What is read is returned as bytes and what is written
  is given as bytes; the callers move them to and from kernel or user memory.
\<close>

section \<open>Inode contents\<close>

definition block_rest :: "u32 \<Rightarrow> nat" where
  "block_rest off = BSIZE - unat off mod BSIZE"

lemma block_rest_pos: "0 < block_rest off"
  by (simp add: block_rest_def BSIZE_def)

function readi_loop :: "nat \<Rightarrow> u32 \<Rightarrow> nat \<Rightarrow> 'z fs_state_scheme \<Rightarrow> (u8 list, 'z fs_state_scheme) res" where
  "readi_loop ip off n s =
     (if n = 0 then Ok [] s
      else
        bind (bmap ip (off div of_nat BSIZE) s) (\<lambda>addr s.
        bind (bread (i_dev (inode_of s ip)) addr s) (\<lambda>bp s.
        let m = min n (block_rest off);
            part = take m (drop (unat off mod BSIZE) (b_data (bufs s bp)))
        in bind (brelse bp s) (\<lambda>_ s.
           bind (readi_loop ip (off + of_nat m) (n - m) s) (\<lambda>rest s. Ok (part @ rest) s)))))"
  by pat_completeness auto
termination
  using block_rest_pos by (relation "measure (\<lambda>(ip, off, n, s). n)") auto

declare readi_loop.simps [simp del]

definition readi :: "nat \<Rightarrow> u32 \<Rightarrow> u32 \<Rightarrow> 'z inp_state_scheme \<Rightarrow> (int \<times> u8 list, 'z inp_state_scheme) res" where
  "readi ip off n s =
     (if i_type (inode_of s ip) = T_DEV then
        (if sint (i_major (inode_of s ip)) < 0 \<or> sint (i_major (inode_of s ip)) \<ge> int NDEV
            \<or> \<not> devsw s (sint (i_major (inode_of s ip)))
         then Ok (- 1, []) s
         else consoleread ip (nat (sint n)) s)
      else if off > i_size (inode_of s ip) \<or> off + n < off then Ok (- 1, []) s
      else
        let n = (if off + n > i_size (inode_of s ip) then i_size (inode_of s ip) - off else n)
        in bind (readi_loop ip off (unat n) s) (\<lambda>bs s. Ok (uint n, bs) s))"

function writei_loop :: "nat \<Rightarrow> u8 list \<Rightarrow> u32 \<Rightarrow> 'z fs_state_scheme \<Rightarrow> (u32, 'z fs_state_scheme) res" where
  "writei_loop ip src off s =
     (if src = [] then Ok off s
      else
        bind (bmap ip (off div of_nat BSIZE) s) (\<lambda>addr s.
        bind (bread (i_dev (inode_of s ip)) addr s) (\<lambda>bp s.
        let m = min (length src) (block_rest off);
            o' = unat off mod BSIZE;
            s = upd_data bp (\<lambda>d. take o' d @ take m src @ drop (o' + m) d) s
        in bind (log_write bp s) (\<lambda>_ s.
           bind (brelse bp s) (\<lambda>_ s.
           writei_loop ip (drop m src) (off + of_nat m) s)))))"
  by pat_completeness auto
termination
  using block_rest_pos by (relation "measure (\<lambda>(ip, src, off, s). length src)") auto

declare writei_loop.simps [simp del]

definition writei :: "nat \<Rightarrow> u8 list \<Rightarrow> u32 \<Rightarrow> 'z fs_state_scheme \<Rightarrow> (int, 'z fs_state_scheme) res" where
  "writei ip src off s =
     (let n = of_nat (length src) :: u32 in
      if i_type (inode_of s ip) = T_DEV then
        (if sint (i_major (inode_of s ip)) < 0 \<or> sint (i_major (inode_of s ip)) \<ge> int NDEV
            \<or> \<not> devsw s (sint (i_major (inode_of s ip)))
         then Ok (- 1) s
         else consolewrite ip src s)
      else if off > i_size (inode_of s ip) \<or> off + n < off then Ok (- 1) s
      else if off + n > of_nat (MAXFILE * BSIZE) then Ok (- 1) s
      else
        bind (writei_loop ip src off s) (\<lambda>off s.
        bind (if n > 0 \<and> off > i_size (inode_of s ip)
              then iupdate ip (upd_inode ip (\<lambda>u. u\<lparr>i_size := off\<rparr>) s)
              else Ok () s) (\<lambda>_ s.
        Ok (uint n) s)))"

section \<open>Directories\<close>

definition DIRENT_SIZE :: u32 where [kernel_defs]: "DIRENT_SIZE = 16"

definition namecmp :: "u8 list \<Rightarrow> u8 list \<Rightarrow> int" where
  "namecmp s t = strncmp s t DIRSIZ"

definition dirent_inum :: "u8 list \<Rightarrow> u16" where
  "dirent_inum de = half_at de 0"

definition dirent_name :: "u8 list \<Rightarrow> u8 list" where
  "dirent_name de = drop 2 de"

definition read_dirent :: "nat \<Rightarrow> u32 \<Rightarrow> 'z inp_state_scheme \<Rightarrow> (u8 list, 'z inp_state_scheme) res" where
  "read_dirent dp off s =
     bind (readi dp off DIRENT_SIZE s) (\<lambda>(r, de) s.
     if r \<noteq> uint DIRENT_SIZE then Panic ''dirlink read'' else Ok de s)"

fun dirlookup_loop ::
  "nat \<Rightarrow> nat \<Rightarrow> u8 list \<Rightarrow> u32 \<Rightarrow> 'z inp_state_scheme \<Rightarrow> ((nat \<times> u32) option, 'z inp_state_scheme) res" where
  "dirlookup_loop 0 dp name off s = Spin"
| "dirlookup_loop (Suc n) dp name off s =
     (if \<not> off < i_size (inode_of s dp) then Ok None s
      else
        bind (read_dirent dp off s) (\<lambda>de s.
        if dirent_inum de \<noteq> 0 \<and> namecmp name (dirent_name de) = 0 then
          bind (iget (i_dev (inode_of s dp)) (ucast (dirent_inum de)) s) (\<lambda>ip s. Ok (Some (ip, off)) s)
        else dirlookup_loop n dp name (off + DIRENT_SIZE) s))"

definition dir_fuel :: "nat \<Rightarrow> 'z fs_state_scheme \<Rightarrow> nat" where
  "dir_fuel dp s = Suc (Suc (unat (i_size (inode_of s dp)) div 16))"

definition dirlookup :: "nat \<Rightarrow> u8 list \<Rightarrow> 'z inp_state_scheme \<Rightarrow> ((nat \<times> u32) option, 'z inp_state_scheme) res" where
  "dirlookup dp name s =
     (if i_type (inode_of s dp) \<noteq> T_DIR then Panic ''dirlookup not DIR''
      else dirlookup_loop (dir_fuel dp s) dp name 0 s)"

fun free_dirent :: "nat \<Rightarrow> nat \<Rightarrow> u32 \<Rightarrow> 'z inp_state_scheme \<Rightarrow> (u32, 'z inp_state_scheme) res" where
  "free_dirent 0 dp off s = Spin"
| "free_dirent (Suc n) dp off s =
     (if \<not> off < i_size (inode_of s dp) then Ok off s
      else
        bind (read_dirent dp off s) (\<lambda>de s.
        if dirent_inum de = 0 then Ok off s else free_dirent n dp (off + DIRENT_SIZE) s))"

definition make_dirent :: "u8 list \<Rightarrow> u32 \<Rightarrow> u8 list" where
  "make_dirent name inum = set_half ([0, 0] @ strncpy (replicate DIRSIZ 0) name DIRSIZ) 0 (ucast inum)"

definition dirlink :: "nat \<Rightarrow> u8 list \<Rightarrow> u32 \<Rightarrow> 'z inp_state_scheme \<Rightarrow> (int, 'z inp_state_scheme) res" where
  "dirlink dp name inum s =
     bind (dirlookup dp name s) (\<lambda>found s.
     case found of
       Some (ip, _) \<Rightarrow> bind (iput ip s) (\<lambda>_ s. Ok (- 1) s)
     | None \<Rightarrow>
         bind (free_dirent (dir_fuel dp s) dp 0 s) (\<lambda>off s.
         bind (writei dp (make_dirent name inum) off s) (\<lambda>r s.
         if r \<noteq> uint DIRENT_SIZE then Panic ''dirlink'' else Ok 0 s)))"

section \<open>Path names\<close>

definition slash :: u8 where "slash = 47"

text \<open>
  \<^verbatim>\<open>skipelem\<close>: the rest of the path and the element, which overwrites the buffer \<^verbatim>\<open>name\<close>
  from its start; an element shorter than the buffer is terminated.
\<close>

definition skipelem :: "u8 list \<Rightarrow> u8 list \<Rightarrow> (u8 list \<times> u8 list) option" where
  "skipelem path name =
     (let path = dropWhile (\<lambda>c. c = slash) path in
      if deref path = 0 then None
      else
        let elem = takeWhile (\<lambda>c. c \<noteq> slash \<and> c \<noteq> 0) path;
            path = dropWhile (\<lambda>c. c \<noteq> slash \<and> c \<noteq> 0) path;
            len = length elem;
            name = (if len \<ge> DIRSIZ then take DIRSIZ elem else elem @ [0] @ drop (len + 1) name);
            path = dropWhile (\<lambda>c. c = slash) path
        in Some (path, name))"

lemma skipelem_SomeD:
  assumes "skipelem path name = Some (path', name')"
  shows "deref (dropWhile (\<lambda>c. c = slash) path) \<noteq> 0"
    and "path' = dropWhile (\<lambda>c. c = slash) (dropWhile (\<lambda>c. c \<noteq> slash \<and> c \<noteq> 0) (dropWhile (\<lambda>c. c = slash) path))"
  using assms by (auto simp: skipelem_def Let_def split: if_splits)

lemma deref_NonzeroE:
  assumes "deref p \<noteq> 0" obtains c q where "p = c # q" "c \<noteq> 0"
  using assms by (cases p) (simp_all add: deref_def)

lemma skipelem_shorter:
  assumes "skipelem path name = Some (path', name')" shows "length path' < length path"
proof -
  let ?q = "\<lambda>c. c \<noteq> slash \<and> c \<noteq> 0"
  define r where "r = dropWhile (\<lambda>c. c = slash) path"
  note d = skipelem_SomeD [OF assms, folded r_def]
  from d(1) obtain c q where r: "r = c # q" "c \<noteq> 0" by (rule deref_NonzeroE)
  have "c \<noteq> slash" using hd_dropWhile [of "\<lambda>c. c = slash" path] r unfolding r_def by force
  then have "dropWhile ?q r = dropWhile ?q q" using r by simp
  then have "length path' \<le> length (dropWhile ?q q)" unfolding d(2) by (simp only: length_dropWhile_le)
  also have "\<dots> \<le> length q" by (rule length_dropWhile_le)
  also have "\<dots> < length r" using r by simp
  also have "\<dots> \<le> length path" unfolding r_def by (rule length_dropWhile_le)
  finally show ?thesis .
qed

function namex_loop ::
  "u8 list \<Rightarrow> bool \<Rightarrow> u8 list \<Rightarrow> nat \<Rightarrow> 'z inp_state_scheme \<Rightarrow> ((nat \<times> u8 list) option, 'z inp_state_scheme) res" where
  "namex_loop path nameiparent name ip s =
     (case skipelem path name of
        None \<Rightarrow>
          if nameiparent then bind (iput ip s) (\<lambda>_ s. Ok None s) else Ok (Some (ip, name)) s
      | Some (path, name) \<Rightarrow>
          bind (ilock ip s) (\<lambda>_ s.
          if i_type (inode_of s ip) \<noteq> T_DIR then bind (iunlockput ip s) (\<lambda>_ s. Ok None s)
          else if nameiparent \<and> deref path = 0 then bind (iunlock ip s) (\<lambda>_ s. Ok (Some (ip, name)) s)
          else
            bind (dirlookup ip name s) (\<lambda>nxt s.
            case nxt of
              None \<Rightarrow> bind (iunlockput ip s) (\<lambda>_ s. Ok None s)
            | Some (nxt, _) \<Rightarrow> bind (iunlockput ip s) (\<lambda>_ s. namex_loop path nameiparent name nxt s))))"
  by pat_completeness auto
termination
  by (relation "measure (\<lambda>(path, p, name, ip, s). length path)") (auto dest: skipelem_shorter)

declare namex_loop.simps [simp del]

definition namex ::
  "u8 list \<Rightarrow> bool \<Rightarrow> u8 list \<Rightarrow> 'z inp_state_scheme \<Rightarrow> ((nat \<times> u8 list) option, 'z inp_state_scheme) res" where
  "namex path nameiparent name s =
     bind (if deref path = slash then iget ROOTDEV ROOTINO s
           else with_proc (\<lambda>me s. case p_cwd (pslot s me) of None \<Rightarrow> Fault | Some cwd \<Rightarrow> idup cwd s) s) (\<lambda>ip s.
     namex_loop path nameiparent name ip s)"

definition namei :: "u8 list \<Rightarrow> 'z inp_state_scheme \<Rightarrow> (nat option, 'z inp_state_scheme) res" where
  "namei path s = bind (namex path False (replicate DIRSIZ 0) s) (\<lambda>r s. Ok (map_option fst r) s)"

definition nameiparent ::
  "u8 list \<Rightarrow> u8 list \<Rightarrow> 'z inp_state_scheme \<Rightarrow> ((nat \<times> u8 list) option, 'z inp_state_scheme) res" where
  "nameiparent path name s = namex path True name s"

end
