(* ===== verification/Pipe.thy ===== *)
theory Pipe
  imports Dir
begin

text \<open>
  Pipes (\<^verbatim>\<open>pipe.c\<close>): a ring buffer with two running counters. The structure lies in a page
  of its own; the model keeps its fields by the address of the page. The bytes written are
  given as a list and the bytes read are returned as one. A writer that finds the ring full
  and a reader that finds it empty go to sleep and re-enter their loops.
\<close>

definition PIPESIZE :: nat where [kernel_defs]: "PIPESIZE = 512"

record pipe =
  pi_data :: "u8 list"
  pi_nread :: u32
  pi_nwrite :: u32
  pi_readopen :: bool
  pi_writeopen :: bool

record pipe_state = inp_state +
  pipes :: "u32 \<Rightarrow> pipe"

definition upd_pipe :: "u32 \<Rightarrow> (pipe \<Rightarrow> pipe) \<Rightarrow> 'z pipe_state_scheme \<Rightarrow> 'z pipe_state_scheme" where
  "upd_pipe p f s = s\<lparr>pipes := (pipes s)(p := f (pipes s p))\<rparr>"

section \<open>Closing\<close>

definition pipeclose :: "u32 \<Rightarrow> bool \<Rightarrow> 'z pipe_state_scheme \<Rightarrow> (unit, 'z pipe_state_scheme) res" where
  "pipeclose p writable s =
     bind (acquire (PipeLock p) s) (\<lambda>_ s.
     bind (if writable then wakeup (ChanPipeRead p) (upd_pipe p (\<lambda>u. u\<lparr>pi_writeopen := False\<rparr>) s)
           else wakeup (ChanPipeWrite p) (upd_pipe p (\<lambda>u. u\<lparr>pi_readopen := False\<rparr>) s)) (\<lambda>_ s.
     if \<not> pi_readopen (pipes s p) \<and> \<not> pi_writeopen (pipes s p)
     then bind (release (PipeLock p) s) (\<lambda>_ s. kfree p s)
     else release (PipeLock p) s))"

section \<open>The ring\<close>

definition pipe_full :: "pipe \<Rightarrow> bool" where
  "pipe_full u \<longleftrightarrow> pi_nwrite u = pi_nread u + of_nat PIPESIZE"

definition pipe_empty :: "pipe \<Rightarrow> bool" where
  "pipe_empty u \<longleftrightarrow> pi_nread u = pi_nwrite u"

definition ring_put :: "u8 \<Rightarrow> pipe \<Rightarrow> pipe" where
  "ring_put c u = u\<lparr>pi_data := (pi_data u)[unat (pi_nwrite u) mod PIPESIZE := c], pi_nwrite := pi_nwrite u + 1\<rparr>"

definition ring_get :: "pipe \<Rightarrow> u8 \<times> pipe" where
  "ring_get u = (pi_data u ! (unat (pi_nread u) mod PIPESIZE), u\<lparr>pi_nread := pi_nread u + 1\<rparr>)"

section \<open>Writing\<close>

text \<open>The loop with the bytes not yet written; \<^verbatim>\<open>n\<close> is the length of the whole request.\<close>

fun pipewrite_loop :: "u32 \<Rightarrow> int \<Rightarrow> u8 list \<Rightarrow> 'z pipe_state_scheme \<Rightarrow> (int, 'z pipe_state_scheme) res" where
  "pipewrite_loop p n [] s =
     bind (wakeup (ChanPipeRead p) s) (\<lambda>_ s. bind (release (PipeLock p) s) (\<lambda>_ s. Ok n s))"
| "pipewrite_loop p n (c # cs) s =
     (if pipe_full (pipes s p) then
        with_proc (\<lambda>me s.
          if \<not> pi_readopen (pipes s p) \<or> p_killed (pslot s me)
          then bind (release (PipeLock p) s) (\<lambda>_ s. Ok (- 1) s)
          else bind (wakeup (ChanPipeRead p) s) (\<lambda>_ s. sleep (ChanPipeWrite p) (Some (PipeLock p)) s)) s
      else pipewrite_loop p n cs (upd_pipe p (ring_put c) s))"

definition pipewrite :: "u32 \<Rightarrow> u8 list \<Rightarrow> 'z pipe_state_scheme \<Rightarrow> (int, 'z pipe_state_scheme) res" where
  "pipewrite p src s =
     bind (acquire (PipeLock p) s) (\<lambda>_ s. pipewrite_loop p (int (length src)) src s)"

definition pipewrite_resume ::
  "bool \<Rightarrow> u32 \<Rightarrow> int \<Rightarrow> u8 list \<Rightarrow> 'z pipe_state_scheme \<Rightarrow> (int, 'z pipe_state_scheme) res" where
  "pipewrite_resume saved p n rest s =
     bind (sleep_resume saved (PipeLock p) s) (\<lambda>_ s. pipewrite_loop p n rest s)"

section \<open>Reading\<close>

fun piperead_copy :: "nat \<Rightarrow> pipe \<Rightarrow> u8 list \<times> pipe" where
  "piperead_copy 0 u = ([], u)"
| "piperead_copy (Suc n) u =
     (if pipe_empty u then ([], u)
      else let (c, u) = ring_get u; (cs, u) = piperead_copy n u in (c # cs, u))"

definition piperead_loop :: "u32 \<Rightarrow> nat \<Rightarrow> 'z pipe_state_scheme \<Rightarrow> (int \<times> u8 list, 'z pipe_state_scheme) res" where
  "piperead_loop p n s =
     (if pipe_empty (pipes s p) \<and> pi_writeopen (pipes s p) then
        with_proc (\<lambda>me s.
          if p_killed (pslot s me) then bind (release (PipeLock p) s) (\<lambda>_ s. Ok (- 1, []) s)
          else sleep (ChanPipeRead p) (Some (PipeLock p)) s) s
      else
        let (cs, u) = piperead_copy n (pipes s p);
            s = upd_pipe p (\<lambda>_. u) s
        in bind (wakeup (ChanPipeWrite p) s) (\<lambda>_ s.
           bind (release (PipeLock p) s) (\<lambda>_ s. Ok (int (length cs), cs) s)))"

definition piperead :: "u32 \<Rightarrow> nat \<Rightarrow> 'z pipe_state_scheme \<Rightarrow> (int \<times> u8 list, 'z pipe_state_scheme) res" where
  "piperead p n s = bind (acquire (PipeLock p) s) (\<lambda>_ s. piperead_loop p n s)"

definition piperead_resume ::
  "bool \<Rightarrow> u32 \<Rightarrow> nat \<Rightarrow> 'z pipe_state_scheme \<Rightarrow> (int \<times> u8 list, 'z pipe_state_scheme) res" where
  "piperead_resume saved p n s = bind (sleep_resume saved (PipeLock p) s) (\<lambda>_ s. piperead_loop p n s)"

end
