(* ===== verification/File.thy ===== *)
theory File
  imports Pipe
begin

text \<open>
  The open-file table (\<^verbatim>\<open>file.c\<close>, \<^verbatim>\<open>file.h\<close>) and \<^verbatim>\<open>pipealloc\<close>. A pointer to an open file is
  its index in the table. User buffers are passed as byte lists, as in the layers below.
\<close>

datatype ftype = FD_NONE | FD_PIPE | FD_INODE

record file_rec =
  f_type :: ftype
  f_ref :: int
  f_readable :: bool
  f_writable :: bool
  f_pipe :: u32
  f_ip :: nat
  f_off :: u32

record file_state = pipe_state +
  ftable :: "file_rec list"

abbreviation file_of :: "'z file_state_scheme \<Rightarrow> nat \<Rightarrow> file_rec" where
  "file_of s f \<equiv> ftable s ! f"

definition upd_file :: "nat \<Rightarrow> (file_rec \<Rightarrow> file_rec) \<Rightarrow> 'z file_state_scheme \<Rightarrow> 'z file_state_scheme" where
  "upd_file f g s = s\<lparr>ftable := (ftable s)[f := g (file_of s f)]\<rparr>"

section \<open>Reference counts\<close>

definition fileinit :: "'z file_state_scheme \<Rightarrow> 'z file_state_scheme" where
  "fileinit s = initlock FtableLock ''ftable'' s"

definition filealloc :: "'z file_state_scheme \<Rightarrow> (nat option, 'z file_state_scheme) res" where
  "filealloc s =
     bind (acquire FtableLock s) (\<lambda>_ s.
     case scan (\<lambda>f. f_ref f = 0) (ftable s) of
       Some f \<Rightarrow> bind (release FtableLock (upd_file f (\<lambda>u. u\<lparr>f_ref := 1\<rparr>) s)) (\<lambda>_ s. Ok (Some f) s)
     | None \<Rightarrow> bind (release FtableLock s) (\<lambda>_ s. Ok None s))"

definition filedup :: "nat \<Rightarrow> 'z file_state_scheme \<Rightarrow> (nat, 'z file_state_scheme) res" where
  "filedup f s =
     bind (acquire FtableLock s) (\<lambda>_ s.
     if f_ref (file_of s f) < 1 then Panic ''filedup''
     else bind (release FtableLock (upd_file f (\<lambda>u. u\<lparr>f_ref := f_ref u + 1\<rparr>) s)) (\<lambda>_ s. Ok f s))"

definition fileclose :: "nat \<Rightarrow> 'z file_state_scheme \<Rightarrow> (unit, 'z file_state_scheme) res" where
  "fileclose f s =
     bind (acquire FtableLock s) (\<lambda>_ s.
     if f_ref (file_of s f) < 1 then Panic ''fileclose''
     else
       let s = upd_file f (\<lambda>u. u\<lparr>f_ref := f_ref u - 1\<rparr>) s
       in if f_ref (file_of s f) > 0 then release FtableLock s
          else
            let ff = file_of s f;
                s = upd_file f (\<lambda>u. u\<lparr>f_ref := 0, f_type := FD_NONE\<rparr>) s
            in bind (release FtableLock s) (\<lambda>_ s.
               if f_type ff = FD_PIPE then pipeclose (f_pipe ff) (f_writable ff) s
               else if f_type ff = FD_INODE then
                 bind (begin_op s) (\<lambda>_ s. bind (iput (f_ip ff) s) (\<lambda>_ s. end_op s))
               else Ok () s))"

section \<open>Operations on an open file\<close>

definition filestat :: "nat \<Rightarrow> 'z file_state_scheme \<Rightarrow> (stat option, 'z file_state_scheme) res" where
  "filestat f s =
     (if f_type (file_of s f) = FD_INODE then
        let ip = f_ip (file_of s f)
        in bind (ilock ip s) (\<lambda>_ s.
           let st = stati ip s
           in bind (iunlock ip s) (\<lambda>_ s. Ok (Some st) s))
      else Ok None s)"

definition fileread :: "nat \<Rightarrow> u32 \<Rightarrow> 'z file_state_scheme \<Rightarrow> (int \<times> u8 list, 'z file_state_scheme) res" where
  "fileread f n s =
     (if \<not> f_readable (file_of s f) then Ok (- 1, []) s
      else case f_type (file_of s f) of
        FD_PIPE \<Rightarrow> piperead (f_pipe (file_of s f)) (nat (sint n)) s
      | FD_INODE \<Rightarrow>
          let ip = f_ip (file_of s f)
          in bind (ilock ip s) (\<lambda>_ s.
             bind (readi ip (f_off (file_of s f)) n s) (\<lambda>(r, bs) s.
             let s = (if r > 0 then upd_file f (\<lambda>u. u\<lparr>f_off := f_off u + of_int r\<rparr>) s else s)
             in bind (iunlock ip s) (\<lambda>_ s. Ok (r, bs) s)))
      | FD_NONE \<Rightarrow> Panic ''fileread'')"

text \<open>The largest piece of a write that fits into one transaction.\<close>

definition write_max :: nat where
  "write_max = ((LOGSIZE - 1 - 1 - 2) div 2) * 512"

function filewrite_loop :: "nat \<Rightarrow> u8 list \<Rightarrow> 'z file_state_scheme \<Rightarrow> (bool, 'z file_state_scheme) res" where
  "filewrite_loop f src s =
     (if src = [] then Ok True s
      else
        let n1 = min (length src) write_max;
            ip = f_ip (file_of s f)
        in bind (begin_op s) (\<lambda>_ s.
           bind (ilock ip s) (\<lambda>_ s.
           bind (writei ip (take n1 src) (f_off (file_of s f)) s) (\<lambda>r s.
           let s = (if r > 0 then upd_file f (\<lambda>u. u\<lparr>f_off := f_off u + of_int r\<rparr>) s else s)
           in bind (iunlock ip s) (\<lambda>_ s.
              bind (end_op s) (\<lambda>_ s.
              if r < 0 then Ok False s
              else if r \<noteq> int n1 then Panic ''short filewrite''
              else filewrite_loop f (drop n1 src) s))))))"
  by pat_completeness auto
termination
  by (relation "measure (\<lambda>(f, src, s). length src)") (auto simp: write_max_def LOGSIZE_def MAXOPBLOCKS_def)

declare filewrite_loop.simps [simp del]

definition filewrite :: "nat \<Rightarrow> u8 list \<Rightarrow> 'z file_state_scheme \<Rightarrow> (int, 'z file_state_scheme) res" where
  "filewrite f src s =
     (if \<not> f_writable (file_of s f) then Ok (- 1) s
      else case f_type (file_of s f) of
        FD_PIPE \<Rightarrow> pipewrite (f_pipe (file_of s f)) src s
      | FD_INODE \<Rightarrow>
          bind (filewrite_loop f src s) (\<lambda>complete s.
          Ok (if complete then int (length src) else - 1) s)
      | FD_NONE \<Rightarrow> Panic ''filewrite'')"

section \<open>Creating a pipe\<close>

definition close_opt :: "nat option \<Rightarrow> 'z file_state_scheme \<Rightarrow> (unit, 'z file_state_scheme) res" where
  "close_opt f s = (case f of None \<Rightarrow> Ok () s | Some f \<Rightarrow> fileclose f s)"

definition pipealloc :: "'z file_state_scheme \<Rightarrow> ((nat \<times> nat) option, 'z file_state_scheme) res" where
  "pipealloc s =
     (let bad = (\<lambda>f0 f1 s. bind (close_opt f0 s) (\<lambda>_ s. bind (close_opt f1 s) (\<lambda>_ s. Ok None s)))
      in bind (filealloc s) (\<lambda>r0 s.
         case r0 of
           None \<Rightarrow> bad None None s
         | Some f0 \<Rightarrow>
             bind (filealloc s) (\<lambda>r1 s.
             case r1 of
               None \<Rightarrow> bad (Some f0) None s
             | Some f1 \<Rightarrow>
                 bind (kalloc s) (\<lambda>p s.
                 if p = 0 then bad (Some f0) (Some f1) s
                 else
                   let s = upd_pipe p (\<lambda>u. u\<lparr>pi_readopen := True, pi_writeopen := True, pi_nwrite := 0, pi_nread := 0\<rparr>) s;
                       s = initlock (PipeLock p) ''pipe'' s;
                       s = upd_file f0 (\<lambda>u. u\<lparr>f_type := FD_PIPE, f_readable := True, f_writable := False, f_pipe := p\<rparr>) s;
                       s = upd_file f1 (\<lambda>u. u\<lparr>f_type := FD_PIPE, f_readable := False, f_writable := True, f_pipe := p\<rparr>) s
                   in Ok (Some (f0, f1)) s))))"

end
