(* ===== verification/Life.thy ===== *)
theory Life
  imports File
begin

text \<open>
  The life of a process: the first process, \<^verbatim>\<open>fork\<close>, \<^verbatim>\<open>exit\<close>, \<^verbatim>\<open>forkret\<close> (\<^verbatim>\<open>proc.c\<close>),
  \<^verbatim>\<open>loaduvm\<close> (\<^verbatim>\<open>vm.c\<close>) and \<^verbatim>\<open>exec\<close> (\<^verbatim>\<open>exec.c\<close>, \<^verbatim>\<open>elf.h\<close>). The trap frame is a structure on
  the kernel stack, written through its offsets. The image of \<^verbatim>\<open>initcode\<close>, which the build
  generates, is an argument.
\<close>

section \<open>The trap frame\<close>

definition tf_eax :: u32 where "tf_eax = 28"
definition tf_es :: u32 where "tf_es = 40"
definition tf_ds :: u32 where "tf_ds = 44"
definition tf_trapno :: u32 where "tf_trapno = 48"
definition tf_err :: u32 where "tf_err = 52"
definition tf_eip :: u32 where "tf_eip = 56"
definition tf_cs :: u32 where "tf_cs = 60"
definition tf_eflags :: u32 where "tf_eflags = 64"
definition tf_esp :: u32 where "tf_esp = 68"
definition tf_ss :: u32 where "tf_ss = 72"

definition st16 :: "memory \<Rightarrow> u32 \<Rightarrow> u16 \<Rightarrow> memory" where
  "st16 m a v = m(a := ucast v, a + 1 := ucast (drop_bit 8 v))"

definition ld16 :: "memory \<Rightarrow> u32 \<Rightarrow> u16" where
  "ld16 m a = ucast (m a) OR push_bit 8 (ucast (m (a + 1)))"

definition user_cs :: u16 where "user_cs = (4 * 8) OR 3"
definition user_ds :: u16 where "user_ds = (5 * 8) OR 3"
definition FL_IF :: u32 where "FL_IF = 0x200"

record life_state = file_state +
  forkret_first :: bool

section \<open>The first process\<close>

definition init_frame :: "u32 \<Rightarrow> memory \<Rightarrow> memory" where
  "init_frame tf m =
     (let m = memset m tf 0 sizeof_trapframe;
          m = st16 m (tf + tf_cs) user_cs;
          m = st16 m (tf + tf_ds) user_ds;
          m = st16 m (tf + tf_es) (ld16 m (tf + tf_ds));
          m = st16 m (tf + tf_ss) (ld16 m (tf + tf_ds));
          m = st32 m (tf + tf_eflags) FL_IF;
          m = st32 m (tf + tf_esp) PGSIZE
      in st32 m (tf + tf_eip) 0)"

definition userinit :: "u8 list \<Rightarrow> 'z inp_state_scheme \<Rightarrow> (unit, 'z inp_state_scheme) res" where
  "userinit initcode s =
     bind (allocproc s) (\<lambda>r s.
     let s = s\<lparr>initproc := r\<rparr>
     in case r of
          None \<Rightarrow> Fault
        | Some p \<Rightarrow>
            bind (setupkvm s) (\<lambda>pgdir s.
            let s = upd_proc p (\<lambda>u. u\<lparr>p_pgdir := pgdir\<rparr>) s
            in if pgdir = 0 then Panic ''userinit: out of memory?''
               else
                 bind (inituvm pgdir initcode s) (\<lambda>_ s.
                 let s = upd_proc p (\<lambda>u. u\<lparr>p_sz := PGSIZE\<rparr>) s;
                     s = upd_mem (init_frame (p_tf (pslot s p))) s;
                     s = upd_proc p (\<lambda>u. u\<lparr>p_name := safestrcpy (p_name u) (bytes ''initcode'') 16\<rparr>) s
                 in bind (namei (bytes ''/'') s) (\<lambda>cwd s.
                    let s = upd_proc p (\<lambda>u. u\<lparr>p_cwd := cwd\<rparr>) s
                    in bind (acquire PtableLock s) (\<lambda>_ s.
                       release PtableLock (upd_proc p (\<lambda>u. u\<lparr>p_state := RUNNABLE, p_priority := ticks s\<rparr>) s))))))"

section \<open>fork\<close>

text \<open>The loop over the descriptors: every open file of the parent gains a reference.\<close>

fun fork_files :: "nat list \<Rightarrow> nat \<Rightarrow> nat \<Rightarrow> 'z file_state_scheme \<Rightarrow> (unit, 'z file_state_scheme) res" where
  "fork_files [] me np s = Ok () s"
| "fork_files (i # is) me np s =
     (case p_ofile (pslot s me) ! i of
        None \<Rightarrow> fork_files is me np s
      | Some f \<Rightarrow>
          bind (filedup f s) (\<lambda>f s.
          fork_files is me np (upd_proc np (\<lambda>u. u\<lparr>p_ofile := (p_ofile u)[i := Some f]\<rparr>) s)))"

text \<open>The last step of \<^verbatim>\<open>fork\<close> and of \<^verbatim>\<open>userinit\<close>: the new process may now be scheduled.\<close>

definition make_runnable :: "nat \<Rightarrow> 'z proc_state_scheme \<Rightarrow> (unit, 'z proc_state_scheme) res" where
  "make_runnable np s =
     bind (acquire PtableLock s) (\<lambda>_ s.
     release PtableLock (upd_proc np (\<lambda>u. u\<lparr>p_state := RUNNABLE, p_priority := ticks s\<rparr>) s))"

definition fork :: "'z file_state_scheme \<Rightarrow> (u32, 'z file_state_scheme) res" where
  "fork s =
     bind (allocproc s) (\<lambda>r s.
     case r of
       None \<Rightarrow> Ok (- 1) s
     | Some np \<Rightarrow>
         with_proc (\<lambda>me s.
           bind (copyuvm (p_pgdir (pslot s me)) (p_sz (pslot s me)) s) (\<lambda>pgdir s.
           let s = upd_proc np (\<lambda>u. u\<lparr>p_pgdir := pgdir\<rparr>) s
           in if pgdir = 0 then
                bind (kfree (p_kstack (pslot s np)) s) (\<lambda>_ s.
                Ok (- 1) (upd_proc np (\<lambda>u. u\<lparr>p_kstack := 0, p_state := UNUSED\<rparr>) s))
              else
                let s = upd_proc np (\<lambda>u. u\<lparr>p_sz := p_sz (pslot s me), p_parent := Some me\<rparr>) s;
                    s = upd_mem (\<lambda>m. copy_up m (p_tf (pslot s np)) (p_tf (pslot s me)) (unat sizeof_trapframe)) s;
                    s = upd_mem (\<lambda>m. st32 m (p_tf (pslot s np) + tf_eax) 0) s
                in bind (fork_files [0..<NOFILE] me np s) (\<lambda>_ s.
                   case p_cwd (pslot s me) of
                     None \<Rightarrow> Fault
                   | Some d \<Rightarrow>
                       bind (idup d s) (\<lambda>cwd s.
                       let s = upd_proc np (\<lambda>u. u\<lparr>p_cwd := Some cwd\<rparr>) s;
                           s = upd_proc np (\<lambda>u. u\<lparr>p_name := safestrcpy (p_name u) (p_name (pslot s me)) 16\<rparr>) s;
                           pid = p_pid (pslot s np)
                       in bind (make_runnable np s) (\<lambda>_ s. Ok pid s))))) s)"

section \<open>exit\<close>

fun close_files :: "nat list \<Rightarrow> nat \<Rightarrow> 'z file_state_scheme \<Rightarrow> (unit, 'z file_state_scheme) res" where
  "close_files [] me s = Ok () s"
| "close_files (fd # fds) me s =
     (case p_ofile (pslot s me) ! fd of
        None \<Rightarrow> close_files fds me s
      | Some f \<Rightarrow>
          bind (fileclose f s) (\<lambda>_ s.
          close_files fds me (upd_proc me (\<lambda>u. u\<lparr>p_ofile := (p_ofile u)[fd := None]\<rparr>) s)))"

fun reparent_loop :: "nat list \<Rightarrow> nat \<Rightarrow> 'z proc_state_scheme \<Rightarrow> 'z proc_state_scheme" where
  "reparent_loop [] me s = s"
| "reparent_loop (i # is) me s =
     (if p_parent (pslot s i) = Some me then
        let s = upd_proc i (\<lambda>p. p\<lparr>p_parent := initproc s\<rparr>) s;
            s = (if p_state (pslot s i) = ZOMBIE then wakeup1 (map_option ChanProc (initproc s)) s else s)
        in reparent_loop is me s
      else reparent_loop is me s)"

text \<open>The critical section at the end of \<^verbatim>\<open>exit\<close>, which does not return.\<close>

definition exit_section :: "nat \<Rightarrow> 'z proc_state_scheme \<Rightarrow> 'z proc_state_scheme" where
  "exit_section me s =
     (let s = wakeup1 (map_option ChanProc (p_parent (pslot s me))) s;
          s = reparent_loop [0..<NPROC] me s
      in upd_proc me (\<lambda>p. p\<lparr>p_state := ZOMBIE, p_etime := ticks s\<rparr>) s)"

definition exit :: "'z file_state_scheme \<Rightarrow> ('a, 'z file_state_scheme) res" where
  "exit s =
     with_proc (\<lambda>me s.
       if initproc s = Some me then Panic ''init exiting''
       else
         bind (close_files [0..<NOFILE] me s) (\<lambda>_ s.
         bind (begin_op s) (\<lambda>_ s.
         bind (case p_cwd (pslot s me) of None \<Rightarrow> Fault | Some d \<Rightarrow> iput d s) (\<lambda>_ s.
         bind (end_op s) (\<lambda>_ s.
         let s = upd_proc me (\<lambda>p. p\<lparr>p_cwd := None\<rparr>) s
         in bind (acquire PtableLock s) (\<lambda>_ s.
            sched (exit_section me s))))))) s"

definition forkret :: "'z life_state_scheme \<Rightarrow> (unit, 'z life_state_scheme) res" where
  "forkret s =
     bind (release PtableLock s) (\<lambda>_ s.
     if forkret_first s then
       bind (iinit ROOTDEV (s\<lparr>forkret_first := False\<rparr>)) (\<lambda>_ s. initlog ROOTDEV s)
     else Ok () s)"

section \<open>Loading a program\<close>

fun loaduvm_loop ::
  "nat \<Rightarrow> u32 \<Rightarrow> u32 \<Rightarrow> nat \<Rightarrow> u32 \<Rightarrow> u32 \<Rightarrow> u32 \<Rightarrow> 'z inp_state_scheme \<Rightarrow> (int, 'z inp_state_scheme) res" where
  "loaduvm_loop 0 pgdir addr ip offset sz i s = Spin"
| "loaduvm_loop (Suc k) pgdir addr ip offset sz i s =
     (if \<not> i < sz then Ok 0 s
      else
        bind (walkpgdir pgdir (addr + i) False s) (\<lambda>pte s.
        if pte = 0 then Panic ''loaduvm: address should exist''
        else
          let pa = PTE_ADDR (ld32 (mem s) pte);
              n = (if sz - i < PGSIZE then sz - i else PGSIZE)
          in bind (readi ip (offset + i) n s) (\<lambda>(r, bs) s.
             let s = upd_mem (\<lambda>m. put m (P2V pa) bs) s
             in if r \<noteq> uint n then Ok (- 1) s
                else loaduvm_loop k pgdir addr ip offset sz (i + PGSIZE) s)))"

definition loaduvm ::
  "u32 \<Rightarrow> u32 \<Rightarrow> nat \<Rightarrow> u32 \<Rightarrow> u32 \<Rightarrow> 'z inp_state_scheme \<Rightarrow> (int, 'z inp_state_scheme) res" where
  "loaduvm pgdir addr ip offset sz s =
     (if addr mod PGSIZE \<noteq> 0 then Panic ''loaduvm: addr must be page aligned''
      else loaduvm_loop pass_fuel pgdir addr ip offset sz 0 s)"

definition ELF_MAGIC :: u32 where "ELF_MAGIC = 0x464C457F"
definition ELF_PROG_LOAD :: u32 where "ELF_PROG_LOAD = 1"
definition sizeof_elfhdr :: u32 where "sizeof_elfhdr = 52"
definition sizeof_proghdr :: u32 where "sizeof_proghdr = 32"

text \<open>
  Loading the segments; \<^const>\<open>None\<close> is a jump to \<^verbatim>\<open>bad\<close>, with the value that \<^verbatim>\<open>sz\<close> has there
  not used any more.
\<close>

fun load_segments ::
  "nat \<Rightarrow> u32 \<Rightarrow> u32 \<Rightarrow> nat \<Rightarrow> u32 \<Rightarrow> 'z inp_state_scheme \<Rightarrow> (u32 option, 'z inp_state_scheme) res" where
  "load_segments 0 off pgdir ip sz s = Ok (Some sz) s"
| "load_segments (Suc k) off pgdir ip sz s =
     bind (readi ip off sizeof_proghdr s) (\<lambda>(r, ph) s.
     if r \<noteq> uint sizeof_proghdr then Ok None s
     else
       let type = word_at ph 0; poff = word_at ph 4; vaddr = word_at ph 8;
           filesz = word_at ph 16; memsz = word_at ph 20
       in if type \<noteq> ELF_PROG_LOAD then load_segments k (off + sizeof_proghdr) pgdir ip sz s
          else if memsz < filesz then Ok None s
          else if vaddr + memsz < vaddr then Ok None s
          else
            bind (allocuvm pgdir sz (vaddr + memsz) s) (\<lambda>sz s.
            if sz = 0 then Ok None s
            else if vaddr mod PGSIZE \<noteq> 0 then Ok None s
            else
              bind (loaduvm pgdir vaddr ip poff filesz s) (\<lambda>r s.
              if r < 0 then Ok None s
              else load_segments k (off + sizeof_proghdr) pgdir ip sz s)))"

text \<open>
  Pushing the argument strings: the stack pointer and the addresses of the strings, or
  \<^const>\<open>None\<close> for a jump to \<^verbatim>\<open>bad\<close>.
\<close>

fun push_args ::
  "u8 list list \<Rightarrow> nat \<Rightarrow> u32 \<Rightarrow> u32 list \<Rightarrow> u32 \<Rightarrow> 'z kmem_state_scheme \<Rightarrow> ((u32 \<times> u32 list) option, 'z kmem_state_scheme) res" where
  "push_args [] argc sp ustack pgdir s = Ok (Some (sp, ustack)) s"
| "push_args (arg # args) argc sp ustack pgdir s =
     (if argc \<ge> MAXARG then Ok None s
      else
        let sp = (sp - (of_nat (strlen arg) + 1)) AND NOT 3
        in bind (copyout pgdir sp (take (strlen arg) arg @ [0]) s) (\<lambda>r s.
           if r < 0 then Ok None s
           else push_args args (Suc argc) sp (ustack @ [sp]) pgdir s))"

definition word_bytes :: "u32 \<Rightarrow> u8 list" where
  "word_bytes w = [ucast w, ucast (drop_bit 8 w), ucast (drop_bit 16 w), ucast (drop_bit 24 w)]"

definition program_name :: "u8 list \<Rightarrow> u8 list" where
  "program_name path =
     (let p = cstr path in rev (takeWhile (\<lambda>c. c \<noteq> slash) (rev p)))"

text \<open>
  \<^verbatim>\<open>exec\<close> in three parts: up to the loaded segments, the user stack, and the switch to the
  new image. The test of the header compares the result of \<^verbatim>\<open>readi\<close> as an unsigned number,
  so that a failed read passes it and the header used next was never written.
\<close>

definition exec_bad :: "u32 \<Rightarrow> nat option \<Rightarrow> 'z inp_state_scheme \<Rightarrow> (int, 'z inp_state_scheme) res" where
  "exec_bad pgdir ip s =
     bind (if pgdir \<noteq> 0 then freevm pgdir s else Ok () s) (\<lambda>_ s.
     bind (case ip of None \<Rightarrow> Ok () s
           | Some ip \<Rightarrow> bind (iunlockput ip s) (\<lambda>_ s. end_op s)) (\<lambda>_ s.
     Ok (- 1) s))"

definition exec_commit ::
  "u8 list \<Rightarrow> u32 \<Rightarrow> u32 \<Rightarrow> u32 \<Rightarrow> u32 \<Rightarrow> 'z proc_state_scheme \<Rightarrow> (int, 'z proc_state_scheme) res" where
  "exec_commit path pgdir sz entry' sp =
     with_proc (\<lambda>me s.
       let s = upd_proc me (\<lambda>p. p\<lparr>p_name := safestrcpy (p_name p) (program_name path) 16\<rparr>) s;
           oldpgdir = p_pgdir (pslot s me);
           s = upd_proc me (\<lambda>p. p\<lparr>p_pgdir := pgdir, p_sz := sz, p_ctime := ticks s\<rparr>) s;
           s = upd_mem (\<lambda>m. st32 m (p_tf (pslot s me) + tf_eip) entry') s;
           s = upd_mem (\<lambda>m. st32 m (p_tf (pslot s me) + tf_esp) sp) s
       in bind (switchuvm me s) (\<lambda>_ s.
          bind (freevm oldpgdir s) (\<lambda>_ s. Ok 0 s)))"

definition exec_stack ::
  "u8 list \<Rightarrow> u8 list list \<Rightarrow> u32 \<Rightarrow> u32 \<Rightarrow> u32 \<Rightarrow> 'z inp_state_scheme \<Rightarrow> (int, 'z inp_state_scheme) res" where
  "exec_stack path argv pgdir sz entry' s =
     (let sz = PGROUNDUP sz
      in bind (allocuvm pgdir sz (sz + 2 * PGSIZE) s) (\<lambda>sz s.
         if sz = 0 then exec_bad pgdir None s
         else
           bind (clearpteu pgdir (sz - 2 * PGSIZE) s) (\<lambda>_ s.
           bind (push_args argv 0 sz [] pgdir s) (\<lambda>r s.
           case r of
             None \<Rightarrow> exec_bad pgdir None s
           | Some (sp, ptrs) \<Rightarrow>
               let argc = of_nat (length argv) :: u32;
                   ustack = [0xffffffff, argc, sp - (argc + 1) * 4] @ ptrs @ [0];
                   sp = sp - (3 + argc + 1) * 4
               in bind (copyout pgdir sp (concat (map word_bytes ustack)) s) (\<lambda>r s.
                  if r < 0 then exec_bad pgdir None s
                  else exec_commit path pgdir sz entry' sp s)))))"

definition exec :: "u8 list \<Rightarrow> u8 list list \<Rightarrow> 'z inp_state_scheme \<Rightarrow> (int, 'z inp_state_scheme) res" where
  "exec path argv s =
     bind (begin_op s) (\<lambda>_ s.
     bind (namei path s) (\<lambda>r s.
     case r of
       None \<Rightarrow> bind (end_op s) (\<lambda>_ s. Ok (- 1) s)
     | Some ip \<Rightarrow>
         bind (ilock ip s) (\<lambda>_ s.
         bind (readi ip 0 sizeof_elfhdr s) (\<lambda>(r, elf) s.
         if (of_int r :: u32) < sizeof_elfhdr then exec_bad 0 (Some ip) s
         else if r < 0 then Fault
         else if word_at elf 0 \<noteq> ELF_MAGIC then exec_bad 0 (Some ip) s
         else
           bind (setupkvm s) (\<lambda>pgdir s.
           if pgdir = 0 then exec_bad 0 (Some ip) s
           else
             bind (load_segments (unat (half_at elf 44)) (word_at elf 28) pgdir ip 0 s) (\<lambda>r s.
             case r of
               None \<Rightarrow> exec_bad pgdir (Some ip) s
             | Some sz \<Rightarrow>
                 bind (iunlockput ip s) (\<lambda>_ s.
                 bind (end_op s) (\<lambda>_ s.
                 exec_stack path argv pgdir sz (word_at elf 24) s))))))))"

end
