(* ===== verification/Boot.thy ===== *)
theory Boot
  imports Procs Life
begin

text \<open>
  One concrete state of the whole kernel, with a given process table, tick count and
  scheduling policy: no lock is held, the buffer cache, the inode cache and the table of open
  files are empty, the console is blank. The examples of the later theories start from it.
\<close>

definition blank_buf :: "nat \<Rightarrow> buf" where
  "blank_buf i = \<lparr>b_flags = 0, b_dev = 0xffffffff, b_blockno = 0, b_refcnt = 0,
     b_prev = (if i = 0 then NBUF else i - 1), b_next = (if i = NBUF then 0 else i + 1), b_data = replicate BSIZE 0\<rparr>"

definition blank_inode :: inode where
  "blank_inode = \<lparr>i_type = 0, i_major = 0, i_minor = 0, i_nlink = 0, i_size = 0,
     i_addrs = replicate (NDIRECT + 1) 0, i_dev = 0, i_inum = 0, i_ref = 0, i_flags = 0\<rparr>"

definition blank_pipe :: pipe where
  "blank_pipe = \<lparr>pi_data = replicate PIPESIZE 0, pi_nread = 0, pi_nwrite = 0, pi_readopen = True, pi_writeopen = True\<rparr>"

definition blank_file :: file_rec where
  "blank_file = \<lparr>f_type = FD_NONE, f_ref = 0, f_readable = False, f_writable = False, f_pipe = 0, f_ip = 0, f_off = 0\<rparr>"

definition small_sb :: superblock where
  "small_sb = \<lparr>sb_size = 1000, sb_nblocks = 941, sb_ninodes = 200, sb_nlog = 30, sb_logstart = 2,
     sb_inodestart = 32, sb_bmapstart = 58\<rparr>"

definition idle_state :: "proc list \<Rightarrow> u32 \<Rightarrow> int \<Rightarrow> life_state" where
  "idle_state ps now st = proc_state.extend (table_state ps now st)
     \<lparr>slocks = (\<lambda>_. \<lparr>sl_locked = 0, sl_name = [], sl_pid = 0\<rparr>),
      bufs = blank_buf, idequeue = [], havedisk1 = True, disk = (\<lambda>_. replicate BSIZE 0), disk_sel = (0, 0),
      disk_err = False, disk_writes = [],
      log = \<lparr>log_start = 2, log_size = 30, log_outstanding = 0, log_committing = False, log_dev = 1, lh_n = 0,
        lh_block = replicate LOGSIZE 0\<rparr>,
      sb = small_sb, icache = replicate NINODE blank_inode, devsw = (\<lambda>d. d = 1),
      input = \<lparr>in_buf = replicate INPUT_BUF 0, in_r = 0, in_w = 0, in_e = 0\<rparr>, kbd_shift = 0,
      pipes = (\<lambda>_. blank_pipe), ftable = replicate NFILE blank_file, forkret_first = True\<rparr>"

lemma idle_state_sel [simp]:
  "ptable (idle_state ps now st) = ps" "ticks (idle_state ps now st) = now" "strategy (idle_state ps now st) = st"
  "nextpid (idle_state ps now st) = 3" "initproc (idle_state ps now st) = None"
  "pipes (idle_state ps now st) = (\<lambda>_. blank_pipe)" "bufs (idle_state ps now st) = blank_buf"
  "ftable (idle_state ps now st) = replicate NFILE blank_file" "icache (idle_state ps now st) = replicate NINODE blank_inode"
  "sb (idle_state ps now st) = small_sb" "idequeue (idle_state ps now st) = []"
  "input (idle_state ps now st) = \<lparr>in_buf = replicate INPUT_BUF 0, in_r = 0, in_w = 0, in_e = 0\<rparr>"
  by (simp_all add: idle_state_def table_state_def cons_state.defs proc_state.defs)

lemma idle_state_machine [simp]:
  "cpus (idle_state ps now st) = cpus boot_machine" "cur (idle_state ps now st) = cur boot_machine"
  "locks (idle_state ps now st) = locks boot_machine" "use_lock (idle_state ps now st) = use_lock boot_kmem"
  "mem (idle_state ps now st) = mem boot_kmem"
  by (simp_all add: idle_state_def table_state_def boot_console_def boot_kmem_def cons_state.defs proc_state.defs
      kmem_state.defs machine.defs)

lemma idle_state_ready [simp]: "ready L (idle_state ps now st)"
  by (simp add: ready_def free_lock_def boot_machine_def idle_cpu_def cpu_def)

end
