(* ===== verification/Table.thy ===== *)
theory Table
  imports Frames Boot
begin

text \<open>
  The invariant of the process table: pids are unique, parents are alive, a process runs on
  one CPU at most. A step is one call of the table's operations on one CPU, up to the point
  where it returns or leaves the CPU; leaving includes the part of the scheduler that forgets
  the process. Every other action of the kernel is a step that keeps the pid, the state and
  the parent of every slot.
\<close>

section \<open>The part of the state the invariant is about\<close>

type_synonym table = "(nat \<times> (nat \<Rightarrow> nat option) \<times> u32 \<times> nat option) \<times> proc list"

definition tab :: "'z proc_state_scheme \<Rightarrow> table" where
  "tab s = (core s, ptable s)"

interpretation tab_view: sched_frame "tab :: 'z proc_state_scheme \<Rightarrow> table"
  by unfold_locales (simp_all add: tab_def core_def)

interpretation tab_mem_view: space_frame "tab :: 'z proc_state_scheme \<Rightarrow> table"
  by unfold_locales (simp_all add: tab_def core_def)

definition live :: "procstate \<Rightarrow> bool" where
  "live st \<longleftrightarrow> st = SLEEPING \<or> st = RUNNABLE \<or> st = RUNNING"

text \<open>
  \<open>run\<close> gives the process of every CPU, \<open>np\<close> the next pid, \<open>ip\<close> the first process.
\<close>

definition table_ok :: "(nat \<Rightarrow> nat option) \<Rightarrow> u32 \<Rightarrow> nat option \<Rightarrow> proc list \<Rightarrow> bool" where
  "table_ok run np ip ps \<longleftrightarrow> length ps = NPROC \<and>
     (\<forall>i < NPROC. p_pid (ps ! i) < np \<and> (p_state (ps ! i) \<noteq> UNUSED \<longrightarrow> p_pid (ps ! i) \<noteq> 0)) \<and>
     (\<forall>i < NPROC. \<forall>j < NPROC. p_pid (ps ! i) = p_pid (ps ! j) \<longrightarrow> i = j \<or> p_pid (ps ! i) = 0) \<and>
     (\<forall>i < NPROC. \<forall>j. p_parent (ps ! i) = Some j \<longrightarrow> j < NPROC \<and> live (p_state (ps ! j))) \<and>
     (\<forall>k. ip = Some k \<longrightarrow> k < NPROC \<and> live (p_state (ps ! k))) \<and>
     (\<forall>c i. run c = Some i \<longrightarrow> i < NPROC \<and> p_state (ps ! i) = RUNNING) \<and>
     (\<forall>i < NPROC. p_state (ps ! i) = RUNNING \<longrightarrow> (\<exists>c. run c = Some i)) \<and>
     (\<forall>c d i. run c = Some i \<longrightarrow> run d = Some i \<longrightarrow> c = d)"

definition tab_ok :: "'z proc_state_scheme \<Rightarrow> bool" where
  "tab_ok s \<longleftrightarrow> table_ok (\<lambda>c. cpu_proc (cpus s c)) (nextpid s) (initproc s) (ptable s)"

lemma tab_ok_cong: "tab_ok s \<Longrightarrow> tab t = tab s \<Longrightarrow> tab_ok t"
  by (simp add: tab_ok_def tab_def core_def)

section \<open>Changes of the table that keep the invariant\<close>

text \<open>A slot at most wakes up.\<close>

definition calm :: "proc \<Rightarrow> proc \<Rightarrow> bool" where
  "calm p q \<longleftrightarrow> p_pid q = p_pid p \<and> p_parent q = p_parent p \<and>
     (p_state q = p_state p \<or> p_state p = SLEEPING \<and> p_state q = RUNNABLE)"

lemma calm_refl [simp]: "calm p p"
  by (simp add: calm_def)

lemma calm_live: "calm p q \<Longrightarrow> live (p_state q) = live (p_state p)"
  by (auto simp: calm_def live_def)

lemma table_ok_calm:
  assumes "table_ok run np ip ps" "length qs = length ps" "\<And>i. i < length ps \<Longrightarrow> calm (ps ! i) (qs ! i)"
  shows "table_ok run np ip qs"
proof -
  have c: "calm (ps ! i) (qs ! i)" if "i < NPROC" for i
    using assms that by (simp add: table_ok_def)
  then have "p_pid (qs ! i) = p_pid (ps ! i)" "p_parent (qs ! i) = p_parent (ps ! i)"
    "live (p_state (qs ! i)) = live (p_state (ps ! i))" "(p_state (qs ! i) = RUNNING) = (p_state (ps ! i) = RUNNING)"
    "(p_state (qs ! i) = UNUSED) = (p_state (ps ! i) = UNUSED)" if "i < NPROC" for i
    using c [OF that] by (auto simp: calm_def live_def)
  with assms(1,2) show ?thesis
    unfolding table_ok_def by simp
qed

text \<open>One slot changes, and with it possibly which CPU runs it and the next pid.\<close>

lemma table_okD:
  assumes "table_ok run np ip ps"
  shows "length ps = NPROC"
    and "\<And>i. i < NPROC \<Longrightarrow> p_pid (ps ! i) < np"
    and "\<And>i. i < NPROC \<Longrightarrow> p_state (ps ! i) \<noteq> UNUSED \<Longrightarrow> p_pid (ps ! i) \<noteq> 0"
    and "\<And>i j. \<lbrakk>i < NPROC; j < NPROC; p_pid (ps ! i) = p_pid (ps ! j)\<rbrakk> \<Longrightarrow> i = j \<or> p_pid (ps ! i) = 0"
    and "\<And>i j. i < NPROC \<Longrightarrow> p_parent (ps ! i) = Some j \<Longrightarrow> j < NPROC \<and> live (p_state (ps ! j))"
    and "\<And>k. ip = Some k \<Longrightarrow> k < NPROC \<and> live (p_state (ps ! k))"
    and "\<And>c i. run c = Some i \<Longrightarrow> i < NPROC \<and> p_state (ps ! i) = RUNNING"
    and "\<And>i. i < NPROC \<Longrightarrow> p_state (ps ! i) = RUNNING \<Longrightarrow> \<exists>c. run c = Some i"
    and "\<And>c d i. run c = Some i \<Longrightarrow> run d = Some i \<Longrightarrow> c = d"
  using assms unfolding table_ok_def by blast+

lemma table_ok_update:
  assumes ok: "table_ok run np ip ps" and i: "i < NPROC"
    and pid: "p_pid p < np'" "np \<le> np'" "p_state p \<noteq> UNUSED \<Longrightarrow> p_pid p \<noteq> 0"
      "\<And>j. \<lbrakk>j < NPROC; j \<noteq> i; p_pid (ps ! j) = p_pid p\<rbrakk> \<Longrightarrow> p_pid p = 0"
    and parent: "\<And>j. p_parent p = Some j \<Longrightarrow> j < NPROC \<and> live (p_state (ps[i := p] ! j))"
    and dead: "\<And>j. \<lbrakk>\<not> live (p_state p); j < NPROC; j \<noteq> i\<rbrakk> \<Longrightarrow> p_parent (ps ! j) \<noteq> Some i"
      "\<not> live (p_state p) \<Longrightarrow> ip \<noteq> Some i"
    and run: "\<And>c j. j \<noteq> i \<Longrightarrow> run' c = Some j \<longleftrightarrow> run c = Some j"
      "\<And>c. run' c = Some i \<Longrightarrow> p_state p = RUNNING" "p_state p = RUNNING \<Longrightarrow> \<exists>c. run' c = Some i"
      "\<And>c d. run' c = Some i \<Longrightarrow> run' d = Some i \<Longrightarrow> c = d"
  shows "table_ok run' np' ip (ps[i := p])"
proof -
  note D = table_okD [OF ok]
  have upd: "ps[i := p] ! k = (if k = i then p else ps ! k)" if "k < NPROC" for k
    using D(1) that i by (simp add: nth_list_update)
  show ?thesis
    unfolding table_ok_def
  proof (intro conjI allI impI)
    show "length (ps[i := p]) = NPROC" using D(1) by simp
  next
    fix k assume k: "k < NPROC"
    show "p_pid (ps[i := p] ! k) < np'" using upd [OF k] pid(1,2) D(2) [OF k] by (simp add: order.strict_trans2)
    show "p_pid (ps[i := p] ! k) \<noteq> 0" if "p_state (ps[i := p] ! k) \<noteq> UNUSED"
      using upd [OF k] that pid(3) D(3) [OF k] by (simp split: if_splits)
    show "\<exists>c. run' c = Some k" if "p_state (ps[i := p] ! k) = RUNNING"
      using upd [OF k] that run(3) D(8) [OF k] run(1) [of k] by (cases "k = i") simp_all
    fix j
    show "k = j \<or> p_pid (ps[i := p] ! k) = 0" if "j < NPROC" "p_pid (ps[i := p] ! k) = p_pid (ps[i := p] ! j)"
      using upd [OF k] upd [OF that(1)] that(2) pid(4) [OF k] pid(4) [OF that(1)] D(4) [OF k that(1)]
      by (cases "k = i"; cases "j = i") simp_all
    assume par: "p_parent (ps[i := p] ! k) = Some j"
    have "j < NPROC \<and> live (p_state (ps[i := p] ! j))"
    proof (cases "k = i")
      case True
      with par upd [OF k] parent [of j] show ?thesis by simp
    next
      case False
      with par upd [OF k] D(5) [OF k, of j] have "j < NPROC \<and> live (p_state (ps ! j))" by simp
      with False par upd [OF k] dead(1) [OF _ k] upd [of j] show ?thesis by (cases "j = i") auto
    qed
    then show "j < NPROC" "live (p_state (ps[i := p] ! j))" by simp_all
  next
    fix k assume "ip = Some k"
    then have "k < NPROC \<and> live (p_state (ps[i := p] ! k))"
      using D(6) [of k] dead(2) upd [of k] by (cases "k = i"; cases "live (p_state p)") simp_all
    then show "k < NPROC" "live (p_state (ps[i := p] ! k))" by simp_all
  next
    fix c k assume c: "run' c = Some k"
    then have "k < NPROC \<and> p_state (ps[i := p] ! k) = RUNNING"
      using run(1) [of k c] run(2) [of c] D(7) [of c k] i upd [of k] by (cases "k = i") simp_all
    then show "k < NPROC" "p_state (ps[i := p] ! k) = RUNNING" by simp_all
    fix d assume "run' d = Some k"
    with c show "c = d"
      using run(1) [of k c] run(1) [of k d] run(4) [of c d] D(9) [of c k d] by (cases "k = i") simp_all
  qed
qed

section \<open>Waking and killing\<close>

lemma tab_ok_calm:
  assumes "tab_ok s" "core t = core s" "length (ptable t) = length (ptable s)"
    and "\<And>i. i < length (ptable s) \<Longrightarrow> calm (pslot s i) (pslot t i)"
  shows "tab_ok t"
  using assms table_ok_calm [of _ _ _ "ptable s" "ptable t"] by (simp add: tab_ok_def core_def)

lemma core_upd [simp]: "core (upd_proc i f s) = core s" "core (wakeup1 ch s) = core s"
  by (simp_all add: core_def)

lemma update_nth: "xs[i := x] ! j = (if j = i \<and> j < length xs then x else xs ! j)"
  by (cases "j = i") (simp_all add: nth_list_update list_update_beyond)

lemma tab_ok_upd:
  "tab_ok s \<Longrightarrow> calm (pslot s i) (f (pslot s i)) \<Longrightarrow> tab_ok (upd_proc i f s)"
  by (rule tab_ok_calm, assumption) (auto simp: upd_proc_def update_nth core_def)

lemma tab_ok_wakeup1: "tab_ok s \<Longrightarrow> tab_ok (wakeup1 ch s)"
  by (rule tab_ok_calm, assumption) (simp_all add: pslot_wakeup1 calm_def)

lemma post_tab: "keeps tab (tab s) r \<Longrightarrow> tab_ok s \<Longrightarrow> post tab_ok r"
  by (erule post_keeps) (rule tab_ok_cong)

lemmas post_acquire = post_tab [OF tab_view.keeps_acquire [OF refl]]
lemmas post_release = post_tab [OF tab_view.keeps_release [OF refl]]

lemma wakeup_keeps_table: "tab_ok s \<Longrightarrow> post tab_ok (wakeup ch s)"
  unfolding wakeup_def by (intro post_bind [OF post_acquire] post_release tab_ok_wakeup1)

lemma kill_keeps_table: "tab_ok s \<Longrightarrow> post tab_ok (kill pid s)"
  unfolding kill_def
  by (rule post_bind [OF post_acquire], assumption)
    (auto simp: Let_def calm_def intro!: post_bind [OF post_release] tab_ok_upd split: option.split)

section \<open>Reaping\<close>

lemma tab_ok_update:
  assumes "tab_ok s" "i < NPROC" "ptable t = (ptable s)[i := p]" "nextpid s \<le> nextpid t" "initproc t = initproc s"
    and "p_pid p < nextpid t" "p_state p \<noteq> UNUSED \<Longrightarrow> p_pid p \<noteq> 0"
    and "\<And>j. \<lbrakk>j < NPROC; j \<noteq> i; p_pid (pslot s j) = p_pid p\<rbrakk> \<Longrightarrow> p_pid p = 0"
    and "\<And>j. p_parent p = Some j \<Longrightarrow> j < NPROC \<and> live (p_state (pslot t j))"
    and "\<And>j. \<lbrakk>\<not> live (p_state p); j < NPROC; j \<noteq> i\<rbrakk> \<Longrightarrow> p_parent (pslot s j) \<noteq> Some i"
    and "\<not> live (p_state p) \<Longrightarrow> initproc s \<noteq> Some i"
    and "\<And>c j. j \<noteq> i \<Longrightarrow> cpu_proc (cpus t c) = Some j \<longleftrightarrow> cpu_proc (cpus s c) = Some j"
    and "\<And>c. cpu_proc (cpus t c) = Some i \<Longrightarrow> p_state p = RUNNING"
    and "p_state p = RUNNING \<Longrightarrow> \<exists>c. cpu_proc (cpus t c) = Some i"
    and "\<And>c d. cpu_proc (cpus t c) = Some i \<Longrightarrow> cpu_proc (cpus t d) = Some i \<Longrightarrow> c = d"
  shows "tab_ok t"
  unfolding tab_ok_def assms(3,5)
  by (rule table_ok_update [OF assms(1) [unfolded tab_ok_def]])
    (use assms in \<open>simp_all add: assms(3) [symmetric]\<close>)

lemmas tab_okD = table_okD [OF iffD1 [OF tab_ok_def]]

text \<open>A slot that is not live has no children, is not the first process and is on no CPU.\<close>

lemma tab_ok_dead:
  assumes "tab_ok s" "\<not> live (p_state (pslot s i))"
  shows "j < NPROC \<Longrightarrow> p_parent (pslot s j) \<noteq> Some i" "initproc s \<noteq> Some i" "cpu_proc (cpus s c) \<noteq> Some i"
  using tab_okD(5) [OF assms(1), of j i] tab_okD(6) [OF assms(1), of i] tab_okD(7) [OF assms(1), of c i] assms(2)
  by (auto simp: live_def)

lemma tab_ok_dead_update:
  assumes "tab_ok s" "\<not> live (p_state (pslot s i))" "i < NPROC" "ptable t = (ptable s)[i := p]" "core t = core s"
    and "p_state p \<noteq> RUNNING" "p_pid p = p_pid (pslot s i) \<or> p_pid p = 0 \<and> p_state p = UNUSED"
    and "p_state p \<noteq> UNUSED \<Longrightarrow> p_state (pslot s i) \<noteq> UNUSED"
    and "\<And>j. p_parent p = Some j \<Longrightarrow> p_parent (pslot s i) = Some j \<or> j < NPROC \<and> live (p_state (pslot s j))"
  shows "tab_ok t"
proof -
  note dead = tab_ok_dead [OF assms(1,2)]
  have c: "cpu_proc (cpus t c) = cpu_proc (cpus s c)" "nextpid t = nextpid s" "initproc t = initproc s" for c
    using assms(5) by (auto simp: core_def fun_eq_iff)
  have "0 < nextpid s" using tab_okD(2) [OF assms(1), of 0] by (simp add: NPROC_def) (metis word_not_simps(1) word_gt_0)
  moreover have "live (p_state (pslot t j))" "j < NPROC" if "p_parent p = Some j" for j
    using assms(9) [OF that] tab_okD(5) [OF assms(1,3), of j] assms(2,4) tab_okD(1) [OF assms(1)]
    by (auto simp: update_nth)
  moreover have "p_pid p \<noteq> 0" if "p_state p \<noteq> UNUSED"
    using that assms(7,8) tab_okD(3) [OF assms(1,3)] by auto
  moreover have "p_pid p = 0" if "j < NPROC" "j \<noteq> i" "p_pid (pslot s j) = p_pid p" for j
    using that assms(3,7) tab_okD(4) [OF assms(1), of i j] by auto
  moreover have "p_pid p < nextpid t"
    using assms(7) tab_okD(2) [OF assms(1,3)] calculation(1) c by auto
  ultimately show ?thesis
    by (intro tab_ok_update [OF assms(1,3,4)]) (use c dead assms(6) in auto)
qed

lemma tab_ok_dead_upd:
  assumes "tab_ok s" "\<not> live (p_state (pslot s i))" "i < NPROC"
    and "let p = f (pslot s i) in p_state p \<noteq> RUNNING \<and> (p_state p \<noteq> UNUSED \<longrightarrow> p_state (pslot s i) \<noteq> UNUSED) \<and>
      (p_pid p = p_pid (pslot s i) \<or> p_pid p = 0 \<and> p_state p = UNUSED) \<and>
      (\<forall>j. p_parent p = Some j \<longrightarrow> p_parent (pslot s i) = Some j \<or> j < NPROC \<and> live (p_state (pslot s j)))"
  shows "tab_ok (upd_proc i f s)"
  by (rule tab_ok_dead_update [OF assms(1-3), where p = "f (pslot s i)"])
    (use assms(4) in \<open>simp_all add: upd_proc_def core_def Let_def\<close>)

lemma reaped_slot:
  assumes "tab_ok s" "i < NPROC" "p_state (pslot s i) = ZOMBIE"
    and "tab s1 = tab s" "tab s3 = tab (upd_proc i (\<lambda>p. p\<lparr>p_kstack := 0\<rparr>) s1)"
  shows "tab_ok (upd_proc i (\<lambda>p. p\<lparr>p_state := UNUSED, p_pid := 0, p_parent := None,
    p_name := (p_name p)[0 := 0], p_killed := False\<rparr>) s3)"
proof -
  have "tab_ok s1" "ptable s1 = ptable s" using assms(4) tab_ok_cong [OF assms(1)] by (auto simp: tab_def)
  then have "tab_ok (upd_proc i (\<lambda>p. p\<lparr>p_kstack := 0\<rparr>) s1)"
      "p_state (pslot (upd_proc i (\<lambda>p. p\<lparr>p_kstack := 0\<rparr>) s1) i) = ZOMBIE"
    using assms tab_okD(1) [of s] by (simp_all add: tab_ok_upd calm_def pslot_upd_proc)
  then have "tab_ok s3" "p_state (pslot s3 i) = ZOMBIE"
    using assms(5) tab_ok_cong [of "upd_proc i (\<lambda>p. p\<lparr>p_kstack := 0\<rparr>) s1" s3] by (auto simp: tab_def)
  then show ?thesis
    by (intro tab_ok_dead_upd assms(2)) (simp_all add: live_def)
qed

lemma reap_keeps_table:
  assumes "tab_ok s" "i < NPROC" "p_state (pslot s i) = ZOMBIE"
  shows "post tab_ok (reap i s)"
  unfolding reap_def Let_def
  by (rule post_bind_keeps [OF tab_mem_view.keeps_kfree [OF refl]],
      rule post_bind_keeps [OF tab_mem_view.keeps_freevm [OF refl]],
      rule post_bind [OF post_release [OF reaped_slot [OF assms]]]) simp_all

lemma wait22_found_keeps_table:
  assumes "tab_ok s" "i < NPROC" "p_state (pslot s i) = ZOMBIE"
  shows "post tab_ok (wait22_found wtime rtime i s)"
  unfolding wait22_found_def Let_def
  by (rule post_bind_keeps [OF tab_mem_view.keeps_ust8 [OF refl]],
      rule post_bind_keeps [OF tab_mem_view.keeps_ust8],
      assumption, rule reap_keeps_table) (use assms tab_ok_cong [OF assms(1)] in \<open>auto simp: tab_def\<close>)

lemma wait33_found_keeps_table:
  assumes "tab_ok s" "i < NPROC" "p_state (pslot s i) = ZOMBIE"
  shows "post tab_ok (wait33_found wtime rtime cid q3rtime q3tatime q2rtime q2tatime i s)"
  unfolding wait33_found_def Let_def
  by (rule post_bind_keeps [where v = "tab s"],
      rule tab_mem_view.keeps_ust8 [OF refl]
    | (rule post_bind_keeps [where v = "tab s"], rule tab_mem_view.keeps_ust8, assumption)
    | (rule post_bind_keeps [where v = "tab s"], rule tab_view.keeps_cprintf, assumption)
    | (rule reap_keeps_table, use assms tab_ok_cong [OF assms(1)] in \<open>auto simp: tab_def\<close>))+

lemma wait_pass_keeps_table:
  assumes "tab_ok s" "\<And>i t. \<lbrakk>tab_ok t; i < NPROC; p_state (pslot t i) = ZOMBIE\<rbrakk> \<Longrightarrow> post tab_ok (found i t)"
  shows "post tab_ok (wait_pass found s)"
  using assms(1) tab_okD(1) [OF assms(1)]
  by (auto simp: wait_pass_def with_proc_def Let_def scan_Some_iff
      intro!: assms(2) post_bind [OF post_release] post_sleep split: option.split)

lemma wait_keeps_table:
  assumes "tab_ok s"
  shows "post tab_ok (wait s)" "post tab_ok (wait22 wtime rtime s)"
    "post tab_ok (wait33 wtime rtime cid q3rtime q3tatime q2rtime q2tatime s)"
  unfolding wait_def wait22_def wait33_def
  by (rule post_bind [OF post_acquire [OF assms]], rule wait_pass_keeps_table;
      simp add: reap_keeps_table wait22_found_keeps_table wait33_found_keeps_table)+

section \<open>Leaving and taking the CPU\<close>

text \<open>What the scheduler does when the process has switched back to it.\<close>

definition off_cpu :: "'z proc_state_scheme \<Rightarrow> 'z proc_state_scheme" where
  "off_cpu s = set_cpu_proc None (switchkvm s)"

lemma off_cpu_sel [simp]:
  "ptable (off_cpu s) = ptable s" "nextpid (off_cpu s) = nextpid s" "initproc (off_cpu s) = initproc s"
  "cpu_proc (cpus (off_cpu s) c) = (if c = cur s then None else cpu_proc (cpus s c))"
  by (simp_all add: off_cpu_def set_cpu_proc_def switchkvm_def machine_defs)

lemma tab_ok_off:
  assumes "tab_ok s" "cpu_proc (cpu s) = Some me" "core t = core s" "ptable t = (ptable s)[me := p]"
    and "p_pid p = p_pid (pslot s me)" "p_parent p = p_parent (pslot s me)" "p_state p \<noteq> UNUSED" "p_state p \<noteq> RUNNING"
    and "\<not> live (p_state p) \<Longrightarrow> initproc s \<noteq> Some me \<and> (\<forall>j < NPROC. p_parent (pslot s j) \<noteq> Some me)"
  shows "tab_ok (off_cpu t)"
proof -
  have run: "cpu_proc (cpus s (cur s)) = Some me" using assms(2) by (simp add: cpu_def)
  then have me: "me < NPROC" "p_state (pslot s me) = RUNNING" using tab_okD(7) [OF assms(1)] by blast+
  have c: "cpu_proc (cpus t c) = cpu_proc (cpus s c)" "nextpid t = nextpid s" "initproc t = initproc s" "cur t = cur s" for c
    using assms(3) by (auto simp: core_def fun_eq_iff)
  have one: "c = cur s" if "cpu_proc (cpus s c) = Some me" for c
    using tab_okD(9) [OF assms(1) that run] .
  have "j < NPROC \<and> live (p_state (pslot t j))" if "p_parent p = Some j" for j
  proof (cases "j = me")
    case True
    with that assms(6,9) me(1) have "live (p_state p)" by auto
    with True me(1) assms(4) tab_okD(1) [OF assms(1)] show ?thesis by (simp add: update_nth)
  next
    case False
    with that assms(4,6) tab_okD(5) [OF assms(1) me(1), of j] show ?thesis by (simp add: update_nth)
  qed
  moreover have "p_pid p = 0" if "j < NPROC" "j \<noteq> me" "p_pid (pslot s j) = p_pid p" for j
    using that assms(5) tab_okD(4) [OF assms(1) me(1), of j] by auto
  moreover have "cpu_proc (cpus (off_cpu t) c) = Some j \<longleftrightarrow> cpu_proc (cpus s c) = Some j" if "j \<noteq> me" for c j
    using c run that by simp
  moreover have "cpu_proc (cpus (off_cpu t) c) \<noteq> Some me" for c
    using c one [of c] by auto
  ultimately show ?thesis
    by (intro tab_ok_update [OF assms(1) me(1), where p = p])
      (use c assms(4,5,7-9) tab_okD(2,3) [OF assms(1) me(1)] me in simp_all)
qed

lemma tab_cpu: "tab t = tab s \<Longrightarrow> cpu_proc (cpu t) = cpu_proc (cpu s)"
  by (simp add: tab_def core_def cpu_def fun_eq_iff)

lemma tabD: "tab t = tab s \<Longrightarrow> ptable t = ptable s \<and> core t = core s"
  by (simp add: tab_def)

lemma core_tab: "core (upd_proc i f s) = core s"
  by simp

text \<open>The common end of \<^verbatim>\<open>yield\<close> and \<^verbatim>\<open>sleep\<close>: the slot is updated and \<^verbatim>\<open>sched\<close> switches away.\<close>

lemma sched_off_table:
  assumes "tab_ok s" "tab u = tab s" "cpu_proc (cpu s) = Some me" "sched (upd_proc me f u) = Switched t"
    and "\<And>p. p_pid (f p) = p_pid p \<and> p_parent (f p) = p_parent p \<and> live (p_state (f p)) \<and> p_state (f p) \<noteq> RUNNING"
  shows "tab_ok (off_cpu t)"
proof -
  have "tab t = tab (upd_proc me f u)"
    using keepsD_switched [OF tab_view.keeps_sched [OF refl] assms(4)] .
  then have t: "core t = core s" "ptable t = (ptable s)[me := f (pslot s me)]"
    using assms(2) by (auto simp: tab_def upd_proc_def core_def)
  show ?thesis
    by (rule tab_ok_off [OF assms(1,3) t]) (use assms(5) [of "pslot s me"] in \<open>auto simp: live_def\<close>)
qed

lemma yield_off_table:
  fixes s :: "'z proc_state_scheme"
  assumes "tab_ok s" "yield s = (Switched t :: ('b, 'z proc_state_scheme) res)"
  shows "tab_ok (off_cpu t)"
proof -
  from assms(2) obtain u me where u: "acquire PtableLock s = Ok () u" "cpu_proc (cpu u) = Some me"
    "sched (upd_proc me (\<lambda>p. p\<lparr>p_priority := ticks u, p_state := RUNNABLE\<rparr>) u) = (Switched t :: ('b, 'z proc_state_scheme) res)"
    by (auto simp: yield_def with_proc_def bind_eq_Switched split: option.splits)
  then have tab: "tab u = tab s" using keepsD [OF tab_view.keeps_acquire [OF refl]] by blast
  with u show ?thesis
    by (intro sched_off_table [OF assms(1) tab _ u(3)]) (simp_all add: tab_cpu [OF tab] live_def)
qed

lemma sleep_off_table:
  fixes s :: "'z proc_state_scheme"
  assumes "tab_ok s" "sleep ch lk s = (Switched t :: ('b, 'z proc_state_scheme) res)"
  shows "tab_ok (off_cpu t)"
proof -
  from assms(2) obtain u me where me: "cpu_proc (cpu s) = Some me"
    and u: "sched (upd_proc me (\<lambda>p. p\<lparr>p_chan := Some ch, p_state := SLEEPING\<rparr>) u) = (Switched t :: ('b, 'z proc_state_scheme) res)"
    and l: "u = s \<or> (\<exists>l v. acquire PtableLock s = Ok () v \<and> release l v = Ok () u)"
    by (auto simp: sleep_def bind_eq_Switched split: option.splits if_splits)
  have tab: "tab u = tab s"
    using l keepsD [OF tab_view.keeps_acquire [OF refl]] keepsD [OF tab_view.keeps_release [OF refl]] by metis
  show ?thesis
    by (rule sched_off_table [OF assms(1) tab me u]) (simp add: live_def)
qed

text \<open>Taking a runnable process: the scheduler up to the \<^verbatim>\<open>swtch\<close> into it.\<close>

lemma switchuvm_not_switched [simp]: "switchuvm i s \<noteq> Switched t"
  by (auto simp: switchuvm_def with_proc_def popcli_def Let_def split: option.splits if_splits)

lemma dispatch_on_table:
  assumes "tab_ok s" "cpu_proc (cpu s) = None" "i < NPROC" "p_state (pslot s i) = RUNNABLE"
    and "dispatch (\<lambda>_. Switched) stamp i (set_cpu_proc (Some i) s) = Switched t"
  shows "tab_ok t"
proof -
  let ?s1 = "upd_proc i (\<lambda>p. p\<lparr>p_myquantum := 0\<rparr>) (set_cpu_proc (Some i) s)"
  obtain s2 where s2: "switchuvm i ?s1 = Ok () s2" and t: "t = upd_proc i (\<lambda>p. p\<lparr>p_state := RUNNING\<rparr>)
      (if stamp then upd_proc i (\<lambda>p. p\<lparr>p_priority := ticks s2\<rparr>) s2 else s2)"
    using assms(5) by (auto simp: dispatch_def Let_def bind_eq_Switched)
  have tab: "tab s2 = tab ?s1" using keepsD [OF tab_view.keeps_switchuvm [OF refl] s2] .
  have run: "cpu_proc (cpus t c) = (if c = cur s then Some i else cpu_proc (cpus s c))" "nextpid t = nextpid s" "initproc t = initproc s" for c
    using tab by (auto simp: t tab_def core_def fun_eq_iff set_cpu_proc_def machine_defs)
  define p where "p = (if stamp then \<lambda>p. p\<lparr>p_priority := ticks s2\<rparr> else id)
    ((pslot s i)\<lparr>p_myquantum := 0\<rparr>)\<lparr>p_state := RUNNING\<rparr>"
  have i: "i < length (ptable s)" using assms(3) tab_okD(1) [OF assms(1)] by simp
  have "ptable s2 = (ptable s)[i := (pslot s i)\<lparr>p_myquantum := 0\<rparr>]"
    using tab by (simp add: tab_def upd_proc_def set_cpu_proc_def machine_defs)
  then have pt: "ptable t = (ptable s)[i := p]"
    using i by (simp add: t p_def upd_proc_def)
  have p: "p_pid p = p_pid (pslot s i)" "p_parent p = p_parent (pslot s i)" "p_state p = RUNNING"
    by (simp_all add: p_def)
  have idle: "cpu_proc (cpus s (cur s)) = None" using assms(2) by (simp add: cpu_def)
  have notrun: "cpu_proc (cpus s c) \<noteq> Some i" for c
    using tab_okD(7) [OF assms(1), of c i] assms(4) by auto
  have "j < NPROC \<and> live (p_state (pslot t j))" if "p_parent p = Some j" for j
    using that p tab_okD(5) [OF assms(1,3), of j] i by (auto simp: pt update_nth live_def)
  moreover have "p_pid p = 0" if "j < NPROC" "j \<noteq> i" "p_pid (pslot s j) = p_pid p" for j
    using that p tab_okD(4) [OF assms(1,3), of j] by auto
  ultimately show ?thesis
    by (intro tab_ok_update [OF assms(1,3) pt])
      (use p run idle notrun assms(4) tab_okD(2,3) [OF assms(1,3)] in \<open>auto simp: live_def split: if_splits\<close>)
qed

section \<open>Exit\<close>

lemma tab_ok_reparent:
  assumes "tab_ok s"
  shows "tab_ok (upd_proc i (\<lambda>p. p\<lparr>p_parent := initproc s\<rparr>) s)"
proof -
  let ?ps = "(ptable s)[i := (pslot s i)\<lparr>p_parent := initproc s\<rparr>]"
  have same: "p_state (?ps ! j) = p_state (pslot s j)" "p_pid (?ps ! j) = p_pid (pslot s j)" for j
    by (simp_all add: update_nth)
  have "k < NPROC \<and> live (p_state (pslot s k))" if "j < NPROC" "p_parent (?ps ! j) = Some k" for j k
    using that tab_okD(5) [OF assms that(1), of k] tab_okD(6) [OF assms, of k] by (simp add: update_nth split: if_splits)
  then have "table_ok (\<lambda>c. cpu_proc (cpus s c)) (nextpid s) (initproc s) ?ps"
    using assms [unfolded tab_ok_def table_ok_def] unfolding table_ok_def same length_list_update by blast
  then show ?thesis by (simp add: tab_ok_def upd_proc_def)
qed

lemma wakeup1_slot:
  "j < length (ptable s) \<Longrightarrow> p_parent (pslot (wakeup1 ch s) j) = p_parent (pslot s j)"
  "j < length (ptable s) \<Longrightarrow> p_pid (pslot (wakeup1 ch s) j) = p_pid (pslot s j)"
  by (simp_all add: pslot_wakeup1)

lemma core_initproc: "core t = core s \<Longrightarrow> initproc t = initproc s"
  by (simp add: core_def)

lemma reparent_loop_table:
  "\<lbrakk>tab_ok s; initproc s \<noteq> Some me; set is \<subseteq> {..<NPROC}\<rbrakk> \<Longrightarrow>
    tab_ok (reparent_loop is me s) \<and> core (reparent_loop is me s) = core s \<and>
    (\<forall>j < NPROC. (p_parent (pslot s j) = Some me \<longrightarrow> j \<in> set is) \<longrightarrow>
      p_parent (pslot (reparent_loop is me s) j) \<noteq> Some me)"
proof (induction "is" arbitrary: s)
  case (Cons i "is")
  let ?s1 = "upd_proc i (\<lambda>p. p\<lparr>p_parent := initproc s\<rparr>) s"
  let ?s2 = "if p_state (pslot ?s1 i) = ZOMBIE then wakeup1 (map_option ChanProc (initproc ?s1)) ?s1 else ?s1"
  have len: "length (ptable s) = NPROC" and i: "i < NPROC" using tab_okD(1) [OF Cons.prems(1)] Cons.prems(3) by simp_all
  show ?case
  proof (cases "p_parent (pslot s i) = Some me")
    case True
    have s2: "tab_ok ?s2" using tab_ok_reparent [OF Cons.prems(1)] by (simp add: tab_ok_wakeup1)
    have core: "core ?s2 = core s" by simp
    have par: "p_parent (pslot ?s2 j) = (if j = i then initproc s else p_parent (pslot s j))" if "j < NPROC" for j
      using that len i by (simp add: wakeup1_slot pslot_upd_proc)
    have "reparent_loop (i # is) me s = reparent_loop is me ?s2" using True by simp
    moreover note Cons.IH [OF s2]
    moreover have "initproc ?s2 \<noteq> Some me" using Cons.prems(2) core_initproc [OF core] by simp
    ultimately show ?thesis
      using Cons.prems(2,3) par core by (auto split: if_splits)
  next
    case False
    with Cons show ?thesis by auto
  qed
qed simp
lemma exit_off_table:
  fixes s :: "'z proc_state_scheme"
  assumes "tab_ok s" "cpu_proc (cpu s) = Some me" "initproc s \<noteq> Some me"
    and "bind (acquire PtableLock s) (\<lambda>_ s. sched (exit_section me s)) = (Switched t :: ('b, 'z proc_state_scheme) res)"
  shows "tab_ok (off_cpu t)"
proof -
  from assms(4) obtain u where u: "acquire PtableLock s = Ok () u"
    and sw: "sched (exit_section me u) = (Switched t :: ('b, 'z proc_state_scheme) res)"
    by (auto simp: bind_eq_Switched)
  have tab: "tab u = tab s" using keepsD [OF tab_view.keeps_acquire [OF refl] u] .
  let ?w = "wakeup1 (map_option ChanProc (p_parent (pslot u me))) u"
  let ?r = "reparent_loop [0..<NPROC] me ?w"
  have "tab_ok ?w" using tab_ok_cong [OF assms(1) tab] by (rule tab_ok_wakeup1)
  moreover have core: "core ?w = core s" using tab by (simp add: tab_def)
  ultimately have r: "tab_ok ?r" "core ?r = core s" "\<And>j. j < NPROC \<Longrightarrow> p_parent (pslot ?r j) \<noteq> Some me"
    using reparent_loop_table [of ?w me "[0..<NPROC]"] assms(3) core_initproc [OF core] by (auto simp: atLeast0LessThan)
  have run: "cpu_proc (cpu ?r) = Some me" "initproc ?r = initproc s"
    using r(2) assms(2) by (auto simp: core_def cpu_def fun_eq_iff)
  define p where "p = (pslot ?r me)\<lparr>p_state := ZOMBIE, p_etime := ticks ?r\<rparr>"
  have "tab t = tab (exit_section me u)" using keepsD_switched [OF tab_view.keeps_sched [OF refl] sw] .
  then have t: "core t = core ?r" "ptable t = (ptable ?r)[me := p]"
    by (simp_all add: tab_def exit_section_def Let_def upd_proc_def core_def p_def)
  show ?thesis
    by (rule tab_ok_off [OF r(1) run(1) t]) (use r(3) run(2) assms(3) in \<open>simp_all add: p_def live_def\<close>)
qed

section \<open>Fork and the first process\<close>

lemma nextpid_grows:
  assumes "np \<noteq> (- 1 :: u32)"
  shows "x < np \<Longrightarrow> x < np + 1" "np < np + 1" "np \<le> np + 1"
proof -
  have "np + 1 \<noteq> 0" using assms by (simp add: eq_neg_iff_add_eq_0)
  then have "unat np = unat (np + 1) - 1" "0 < unat (np + 1)" using unat_pred [of "np + 1"] by (simp_all add: unat_gt_0)
  then show "x < np \<Longrightarrow> x < np + 1" "np < np + 1" "np \<le> np + 1"
    by (simp_all add: word_less_nat_alt word_le_nat_alt)
qed

text \<open>The slot of a process under construction.\<close>

definition embryo :: "nat \<Rightarrow> nat option \<Rightarrow> 'z proc_state_scheme \<Rightarrow> bool" where
  "embryo np me s \<longleftrightarrow> tab_ok s \<and> np < NPROC \<and> p_state (pslot s np) = EMBRYO \<and> cpu_proc (cpu s) = me"

lemma embryo_cong: "embryo np me s \<Longrightarrow> tab t = tab s \<Longrightarrow> embryo np me t"
  using tab_ok_cong [of s t] tab_cpu [of t s] by (simp add: embryo_def tab_def)

lemma embryo_upd:
  assumes "embryo np me s" "\<And>p. p_pid (f p) = p_pid p \<and> p_state (f p) = p_state p \<and> p_parent (f p) = p_parent p"
  shows "embryo np me (upd_proc i f s)"
  using assms tab_ok_upd [of s i f] by (auto simp: embryo_def calm_def upd_proc_def update_nth cpu_def)

lemma embryo_upd_mem: "embryo np me s \<Longrightarrow> embryo np me (upd_mem f s)"
  by (erule embryo_cong) simp

lemma embryo_abandon:
  assumes "embryo np me s" "\<And>p. p_pid (f p) = p_pid p \<and> p_state (f p) = UNUSED \<and> p_parent (f p) = p_parent p"
  shows "tab_ok (upd_proc np f s)"
  using assms by (intro tab_ok_dead_upd) (auto simp: embryo_def live_def)

lemma take_slot:
  assumes "tab_ok s" "nextpid s \<noteq> - 1" "i < NPROC" "p_state (pslot s i) = UNUSED"
    and "p_pid p = nextpid s" "p_state p = EMBRYO" "p_parent p = p_parent (pslot s i)"
    and "ptable t = (ptable s)[i := p]" "core t = core (s\<lparr>nextpid := nextpid s + 1\<rparr>)"
  shows "embryo i (cpu_proc (cpu s)) t"
proof -
  have c: "cpu_proc (cpus t c) = cpu_proc (cpus s c)" "nextpid t = nextpid s + 1" "initproc t = initproc s" "cur t = cur s" for c
    using assms(9) by (auto simp: core_def fun_eq_iff)
  have dead: "\<not> live (p_state (pslot s i))" using assms(4) by (simp add: live_def)
  have nz: "nextpid s \<noteq> 0" using tab_okD(2) [OF assms(1,3)] by auto
  have "j < NPROC \<and> live (p_state (pslot t j))" if "p_parent p = Some j" for j
    using that tab_okD(5) [OF assms(1,3), of j] dead assms(7) by (auto simp: assms(8) update_nth)
  moreover have "p_pid (pslot s j) \<noteq> nextpid s" if "j < NPROC" for j
    using tab_okD(2) [OF assms(1) that] by auto
  ultimately have "tab_ok t"
    by (intro tab_ok_update [OF assms(1,3,8)])
      (use c tab_ok_dead [OF assms(1) dead] assms(5,6) nz nextpid_grows [OF assms(2)] in simp_all)
  then show ?thesis
    using assms(3,6,8) c tab_okD(1) [OF assms(1)] by (simp add: embryo_def cpu_def)
qed

lemma allocproc_table:
  assumes "tab_ok s" "nextpid s \<noteq> - 1" "allocproc s = Ok r t"
  shows "case r of None \<Rightarrow> tab_ok t | Some i \<Rightarrow> embryo i (cpu_proc (cpu s)) t"
proof -
  from assms(3) obtain s1 where s1: "acquire PtableLock s = Ok () s1"
    by (auto simp: allocproc_def)
  have tab1: "tab s1 = tab s" using keepsD [OF tab_view.keeps_acquire [OF refl] s1] .
  note ok1 = tab_ok_cong [OF assms(1) tab1]
  have np1: "nextpid s1 = nextpid s" using tab1 by (simp add: tab_def core_def)
  show ?thesis
  proof (cases "scan (\<lambda>p. p_state p = UNUSED) (ptable s1)")
    case None
    with assms(3) s1 have "release PtableLock s1 = Ok () t" "r = None" by (auto simp: allocproc_def)
    with postD [OF post_release [OF ok1]] show ?thesis by simp
  next
    case (Some i)
    then have i: "i < NPROC" "p_state (pslot s1 i) = UNUSED" using tab_okD(1) [OF ok1] by (simp_all add: scan_Some_iff)
    define s2 where "s2 = upd_proc i (newborn s1) (s1\<lparr>nextpid := nextpid s1 + 1\<rparr>)"
    have "newborn s1 = (\<lambda>p. p\<lparr>p_q3rtime := - 1, p_q3tatime := - 1, p_q2tatime := - 1, p_q2rtime := - 1,
      p_state := EMBRYO, p_pid := nextpid s1, p_ctime := ticks s1, p_rtime := 0, p_GRT := 0, p_cid := 0,
      p_myquantum := 0, p_queuelevel := 3, p_priority := ticks s1\<rparr>)" by (simp add: newborn_def fun_eq_iff)
    then obtain s3 s4 k where s3: "release PtableLock s2 = Ok () s3" and s4: "kalloc s3 = Ok k s4"
      and t: "(if k = 0 then Ok None (upd_proc i (\<lambda>p. p\<lparr>p_state := UNUSED\<rparr>) (upd_proc i (\<lambda>p. p\<lparr>p_kstack := 0\<rparr>) s4))
        else Ok (Some i) (upd_mem (\<lambda>m. st32 m (0xfac + k) (forkret_addr s4)) (upd_mem (\<lambda>m. memset m (0xf9c + k) 0 20)
          (upd_proc i (\<lambda>p. p\<lparr>p_context := 0xf9c + k\<rparr>) (upd_mem (\<lambda>m. st32 m (0xfb0 + k) (trapret_addr s4))
            (upd_proc i (\<lambda>p. p\<lparr>p_tf := 0xfb4 + k\<rparr>) (upd_proc i (\<lambda>p. p\<lparr>p_kstack := k\<rparr>) s4))))))) = Ok r t"
      using assms(3) s1 Some
      by (auto simp: allocproc_def Let_def s2_def KSTACKSIZE_def sizeof_trapframe_def sizeof_context_def context_eip_def
          cong: if_cong)
    have "embryo i (cpu_proc (cpu s1)) s2"
      by (rule take_slot [OF ok1 _ i, where p = "newborn s1 (pslot s1 i)"])
        (simp_all add: s2_def newborn_def upd_proc_def core_def np1 assms(2))
    then have "embryo i (cpu_proc (cpu s1)) s4"
      using embryo_cong keepsD [OF tab_view.keeps_release [OF refl] s3] keepsD [OF tab_mem_view.keeps_kalloc [OF refl] s4] by metis
    with t show ?thesis
      by (auto simp: tab_cpu [OF tab1] split: if_splits intro!: embryo_upd_mem embryo_upd embryo_abandon)
  qed
qed

lemma tab_fs_upd [simp]: "tab (upd_file f g s) = tab s" "tab (upd_inode i h t) = tab t"
  by (simp_all add: tab_def core_def upd_file_def upd_inode_def)

lemma keeps_tab_filedup: "tab s = v \<Longrightarrow> keeps tab v (filedup f s)"
  by (auto simp: filedup_def intro!: keeps_bind tab_view.keeps_acquire tab_view.keeps_release)

lemma keeps_tab_idup: "tab s = v \<Longrightarrow> keeps tab v (idup d s)"
  by (auto simp: idup_def intro!: keeps_bind tab_view.keeps_acquire tab_view.keeps_release)

lemma keeps_tab_iget: "tab s = v \<Longrightarrow> keeps tab v (iget dev inum s)"
  by (auto simp: iget_def intro!: keeps_bind tab_view.keeps_acquire tab_view.keeps_release split: option.split)

lemma post_embryo: "keeps tab (tab s) r \<Longrightarrow> embryo np me s \<Longrightarrow> post (embryo np me) r"
  by (erule post_keeps) (rule embryo_cong)

lemma fork_files_table: "embryo np x s \<Longrightarrow> post (embryo np x) (fork_files is me np s)"
proof (induction "is" arbitrary: s)
  case (Cons i "is")
  show ?case
  proof (cases "p_ofile (pslot s me) ! i")
    case None
    with Cons show ?thesis by simp
  next
    case (Some f)
    have "post (embryo np x) (bind (filedup f s) (\<lambda>f s. fork_files is me np
        (upd_proc np (\<lambda>u. u\<lparr>p_ofile := (p_ofile u)[i := Some f]\<rparr>) s)))"
      by (rule post_bind [OF post_embryo [OF keeps_tab_filedup [OF refl] Cons.prems]], rule Cons.IH, rule embryo_upd) simp_all
    with Some show ?thesis by simp
  qed
qed simp

lemma make_runnable_table:
  assumes "embryo np x s"
  shows "post tab_ok (make_runnable np s)"
  unfolding make_runnable_def
proof (rule post_bind [OF post_embryo [OF tab_view.keeps_acquire [OF refl] assms]])
  fix u t assume "embryo np x t"
  then have "tab_ok (upd_proc np (\<lambda>u. u\<lparr>p_state := RUNNABLE, p_priority := ticks t\<rparr>) t)"
    by (intro tab_ok_dead_upd) (auto simp: embryo_def live_def)
  then show "post tab_ok (release PtableLock (upd_proc np (\<lambda>u. u\<lparr>p_state := RUNNABLE, p_priority := ticks t\<rparr>) t))"
    by (rule post_release)
qed

lemma embryo_adopt:
  assumes "embryo np (Some me) s" "\<And>p. p_pid (f p) = p_pid p \<and> p_state (f p) = p_state p \<and> p_parent (f p) = Some me"
  shows "embryo np (Some me) (upd_proc np f s)"
proof -
  have "me < NPROC" "p_state (pslot s me) = RUNNING"
    using assms(1) tab_okD(7) [of s "cur s" me] by (auto simp: embryo_def cpu_def)
  then have "tab_ok (upd_proc np f s)"
    using assms by (intro tab_ok_dead_upd) (auto simp: embryo_def live_def)
  then show ?thesis
    using assms by (auto simp: embryo_def upd_proc_def update_nth cpu_def)
qed

lemma fork_abandon:
  "embryo np x s \<Longrightarrow> post tab_ok (bind (kfree k s) (\<lambda>_ s.
     Ok (- 1) (upd_proc np (\<lambda>u. u\<lparr>p_kstack := 0, p_state := UNUSED\<rparr>) s)))"
  by (rule post_bind [OF post_embryo [OF tab_mem_view.keeps_kfree [OF refl]]], assumption)
    (simp, rule embryo_abandon, simp_all)

lemma fork_body:
  fixes s :: "'z file_state_scheme"
  assumes "embryo np (Some me) s" and f: "\<And>cwd t. embryo np (Some me) t \<Longrightarrow> embryo np (Some me) (f cwd t)"
  shows "post tab_ok (bind (fork_files is me np s) (\<lambda>_ s.
     case p_cwd (pslot s me) of
       None \<Rightarrow> Fault
     | Some d \<Rightarrow> bind (idup d s) (\<lambda>cwd s. bind (make_runnable np (f cwd s)) (\<lambda>_ t. Ok (g cwd s) t))))"
proof (rule post_bind [OF fork_files_table [OF assms(1)]])
  fix u and t :: "'z file_state_scheme"
  assume t: "embryo np (Some me) t"
  have "post tab_ok (bind (idup d t) (\<lambda>cwd s. bind (make_runnable np (f cwd s)) (\<lambda>_ t. Ok (g cwd s) t)))" for d
    by (rule post_bind [OF post_embryo [OF keeps_tab_idup [OF refl] t]],
        rule post_bind [OF make_runnable_table [OF f]]) simp_all
  then show "post tab_ok (case p_cwd (pslot t me) of None \<Rightarrow> Fault
     | Some d \<Rightarrow> bind (idup d t) (\<lambda>cwd s. bind (make_runnable np (f cwd s)) (\<lambda>_ t. Ok (g cwd s) t)))"
    by (simp split: option.split)
qed

lemma fork_table:
  assumes "tab_ok s" "nextpid s \<noteq> - 1"
  shows "post tab_ok (fork s)"
  unfolding fork_def
proof (rule post_any, goal_cases)
  case (1 r t)
  show ?case
  proof (cases r)
    case None
    with allocproc_table [OF assms 1] show ?thesis by simp
  next
    case (Some np)
    with allocproc_table [OF assms 1] have t: "embryo np (cpu_proc (cpu s)) t" by simp
    show ?thesis
    proof (cases "cpu_proc (cpu t)")
      case None
      with Some show ?thesis by (simp add: with_proc_def)
    next
      case run: (Some me)
      with t have t: "embryo np (Some me) t" by (simp add: embryo_def)
      show ?thesis
        unfolding Some with_proc_def run option.case Let_def
        by (rule post_bind [OF post_embryo [OF tab_mem_view.keeps_copyuvm [OF refl] t]], rule post_if)
          ((rule fork_abandon, erule embryo_upd, simp),
           (rule fork_body, rule embryo_upd_mem, rule embryo_upd_mem, rule embryo_adopt, erule embryo_upd, simp, simp,
            rule embryo_upd, erule embryo_upd; simp))
    qed
  qed
qed

text \<open>At boot the table is empty; \<^verbatim>\<open>userinit\<close> names the first process before it can run.\<close>

definition blank_table :: "'z proc_state_scheme \<Rightarrow> bool" where
  "blank_table s \<longleftrightarrow> length (ptable s) = NPROC \<and>
     (\<forall>p \<in> set (ptable s). p_state p = UNUSED \<and> p_pid p = 0 \<and> p_parent p = None) \<and>
     nextpid s = 1 \<and> initproc s = None \<and> (\<forall>c. cpu_proc (cpus s c) = None)"

lemma blank_table_ok: "blank_table s \<Longrightarrow> tab_ok s"
  by (simp add: blank_table_def tab_ok_def table_ok_def all_set_conv_all_nth)

definition first_embryo :: "nat \<Rightarrow> nat option \<Rightarrow> 'z proc_state_scheme \<Rightarrow> bool" where
  "first_embryo p me s \<longleftrightarrow> embryo p me (s\<lparr>initproc := None\<rparr>) \<and> initproc s = Some p"

lemma first_cong: "first_embryo p me s \<Longrightarrow> tab t = tab s \<Longrightarrow> first_embryo p me t"
  using embryo_cong [of p me "s\<lparr>initproc := None\<rparr>" "t\<lparr>initproc := None\<rparr>"]
  by (simp add: first_embryo_def tab_def core_def)

lemma upd_proc_initproc: "(upd_proc i f s)\<lparr>initproc := x\<rparr> = upd_proc i f (s\<lparr>initproc := x\<rparr>)"
  by (rule proc_state.equality) (simp_all add: upd_proc_def)

lemma first_upd:
  assumes "first_embryo p me s" "\<And>p. p_pid (f p) = p_pid p \<and> p_state (f p) = p_state p \<and> p_parent (f p) = p_parent p"
  shows "first_embryo p me (upd_proc i f s)"
  using assms embryo_upd [of p me "s\<lparr>initproc := None\<rparr>" f i] by (simp add: first_embryo_def upd_proc_initproc)

lemma first_upd_mem: "first_embryo p me s \<Longrightarrow> first_embryo p me (upd_mem f s)"
  by (erule first_cong) simp

lemma post_first: "keeps tab (tab s) r \<Longrightarrow> first_embryo p me s \<Longrightarrow> post (first_embryo p me) r"
  by (erule post_keeps) (rule first_cong)

lemma tab_ok_initproc:
  assumes "tab_ok (s\<lparr>initproc := None\<rparr>)" "initproc s = Some k" "k < NPROC" "live (p_state (pslot s k))"
  shows "tab_ok s"
proof -
  have "table_ok (\<lambda>c. cpu_proc (cpus s c)) (nextpid s) None (ptable s)" using assms(1) by (simp add: tab_ok_def)
  then show ?thesis
    unfolding tab_ok_def table_ok_def assms(2) by (elim conjE, intro conjI) (assumption | simp add: assms)+
qed

lemma first_runs:
  assumes "first_embryo p me s"
  shows "tab_ok (upd_proc p (\<lambda>u. u\<lparr>p_state := RUNNABLE, p_priority := n\<rparr>) s)"
proof -
  let ?f = "\<lambda>u. u\<lparr>p_state := RUNNABLE, p_priority := n\<rparr>"
  have e: "embryo p me (s\<lparr>initproc := None\<rparr>)" "initproc s = Some p" using assms by (simp_all add: first_embryo_def)
  then have "tab_ok (upd_proc p ?f (s\<lparr>initproc := None\<rparr>))"
    by (intro tab_ok_dead_upd) (auto simp: embryo_def live_def)
  moreover have "p < NPROC" "length (ptable s) = NPROC"
    using e tab_okD(1) [of "s\<lparr>initproc := None\<rparr>"] by (simp_all add: embryo_def)
  ultimately show ?thesis
    unfolding upd_proc_initproc [symmetric]
    by (intro tab_ok_initproc [of "upd_proc p ?f s" p]) (simp_all add: e(2) pslot_upd_proc live_def)
qed

lemma keeps_tab_namei_root: "tab s = v \<Longrightarrow> keeps tab v (namei (bytes ''/'') s)"
proof -
  assume s: "tab s = v"
  have b: "bytes ''/'' = [slash]" by (simp add: bytes_def slash_def of_char_def)
  have "skipelem [slash] name = None" for name by (simp add: skipelem_def deref_def)
  with s show ?thesis
    by (auto simp: b namei_def namex_def namex_loop.simps deref_def intro!: keeps_bind keeps_tab_iget)
qed

lemma embryo_first:
  assumes "embryo p me s"
  shows "first_embryo p me (s\<lparr>initproc := Some p\<rparr>)"
proof -
  have "table_ok (\<lambda>c. cpu_proc (cpus s c)) (nextpid s) (initproc s) (ptable s)"
    using assms by (simp add: embryo_def tab_ok_def)
  then have "table_ok (\<lambda>c. cpu_proc (cpus s c)) (nextpid s) None (ptable s)"
    unfolding table_ok_def by (elim conjE, intro conjI) (assumption | simp)+
  then show ?thesis
    using assms by (simp add: first_embryo_def embryo_def tab_ok_def cpu_def)
qed

lemma userinit_table:
  assumes "blank_table s"
  shows "post tab_ok (userinit initcode s)"
  unfolding userinit_def Let_def
proof (rule post_any, goal_cases)
  case (1 r t)
  have "nextpid s \<noteq> - 1" using assms by (simp add: blank_table_def)
  note alloc = allocproc_table [OF blank_table_ok [OF assms] this 1]
  show ?case
  proof (cases r)
    case (Some p)
    with alloc have "embryo p (cpu_proc (cpu s)) t" by simp
    then have t: "first_embryo p (cpu_proc (cpu s)) (t\<lparr>initproc := Some p\<rparr>)" by (rule embryo_first)
    show ?thesis
      unfolding Some option.case
      by (rule post_bind [OF post_first [OF tab_mem_view.keeps_setupkvm [OF refl] t]], rule post_if, simp,
          rule post_bind [OF post_first [OF tab_mem_view.keeps_inituvm [OF refl]]], erule first_upd, simp,
          rule post_bind [OF post_first [OF keeps_tab_namei_root [OF refl]]],
          rule first_upd, rule first_upd_mem, erule first_upd, simp, simp,
          rule post_bind [OF post_first [OF tab_view.keeps_acquire [OF refl]]], erule first_upd, simp,
          rule post_release, erule first_runs)
  qed simp
qed

section \<open>Every step keeps the invariant\<close>

inductive table_step :: "'z file_state_scheme \<Rightarrow> 'z file_state_scheme \<Rightarrow> bool" where
  userinit: "blank_table s \<Longrightarrow> userinit initcode s = Ok () t \<Longrightarrow> table_step s t"
| fork: "nextpid s \<noteq> - 1 \<Longrightarrow> fork s = Ok r t \<Longrightarrow> table_step s t"
| wait: "wait s = Ok r t \<Longrightarrow> table_step s t"
| wait22: "wait22 wtime rtime s = Ok r t \<Longrightarrow> table_step s t"
| wait33: "wait33 wtime rtime cid q3rtime q3tatime q2rtime q2tatime s = Ok r t \<Longrightarrow> table_step s t"
| kill: "kill pid s = Ok k t \<Longrightarrow> table_step s t"
| wakeup: "wakeup ch s = Ok () t \<Longrightarrow> table_step s t"
| yield: "yield s = (Switched t :: (unit, 'z file_state_scheme) res) \<Longrightarrow> table_step s (off_cpu t)"
| sleep: "sleep ch lk s = (Switched t :: (unit, 'z file_state_scheme) res) \<Longrightarrow> table_step s (off_cpu t)"
| exit: "\<lbrakk>cpu_proc (cpu s) = Some me; initproc s \<noteq> Some me;
    bind (acquire PtableLock s) (\<lambda>_ s. sched (exit_section me s)) = (Switched t :: (unit, 'z file_state_scheme) res)\<rbrakk>
    \<Longrightarrow> table_step s (off_cpu t)"
| dispatch: "\<lbrakk>cpu_proc (cpu s) = None; i < NPROC; p_state (pslot s i) = RUNNABLE;
    dispatch (\<lambda>_. Switched) stamp i (set_cpu_proc (Some i) s) = Switched t\<rbrakk> \<Longrightarrow> table_step s t"
| on_cpu: "table_step s (s\<lparr>cur := c\<rparr>)"
| other: "\<lbrakk>core t = core s; map p_pid (ptable t) = map p_pid (ptable s); map p_state (ptable t) = map p_state (ptable s);
    map p_parent (ptable t) = map p_parent (ptable s)\<rbrakk> \<Longrightarrow> table_step s t"

lemma tab_ok_other:
  assumes "tab_ok s" "core t = core s" "map p_pid (ptable t) = map p_pid (ptable s)"
    and "map p_state (ptable t) = map p_state (ptable s)" "map p_parent (ptable t) = map p_parent (ptable s)"
  shows "tab_ok t"
proof (rule tab_ok_calm [OF assms(1,2)])
  show len: "length (ptable t) = length (ptable s)" using assms(3) by (rule map_eq_imp_length_eq)
  fix i assume "i < length (ptable s)"
  with len assms(3-5) show "calm (pslot s i) (pslot t i)"
    by (metis calm_def nth_map)
qed

lemma table_step_ok: "table_step s t \<Longrightarrow> tab_ok s \<Longrightarrow> tab_ok t"
proof (induction rule: table_step.induct)
  case (userinit s initcode t) show ?case by (rule postD [OF userinit_table [OF userinit(1)] userinit(2)])
next case (fork s r t) show ?case by (rule postD [OF fork_table [OF fork(3,1)] fork(2)])
next case (wait s r t) show ?case by (rule postD [OF wait_keeps_table(1) [OF wait(2)] wait(1)])
next case (wait22 wtime rtime s r t) show ?case by (rule postD [OF wait_keeps_table(2) [OF wait22(2)] wait22(1)])
next case (wait33 wtime rtime cid q3rtime q3tatime q2rtime q2tatime s r t)
  show ?case by (rule postD [OF wait_keeps_table(3) [OF wait33(2)] wait33(1)])
next case (kill pid s k t) show ?case by (rule postD [OF kill_keeps_table [OF kill(2)] kill(1)])
next case (wakeup ch s t) show ?case by (rule postD [OF wakeup_keeps_table [OF wakeup(2)] wakeup(1)])
next case (yield s t) show ?case by (rule yield_off_table [OF yield(2,1)])
next case (sleep ch lk s t) show ?case by (rule sleep_off_table [OF sleep(2,1)])
next case (exit s me t) show ?case by (rule exit_off_table [OF exit(4,1-3)])
next case (dispatch s i stamp t) show ?case by (rule dispatch_on_table [OF dispatch(5,1-4)])
next case (on_cpu s c) then show ?case by (simp add: tab_ok_def)
next case (other t s) show ?case by (rule tab_ok_other [OF other(5,1-4)])
qed

lemma table_steps_ok: "table_step\<^sup>*\<^sup>* s t \<Longrightarrow> tab_ok s \<Longrightarrow> tab_ok t"
  by (induction rule: rtranclp_induct) (auto intro: table_step_ok)


text \<open>Two processes, the first process and its child, and a CPU that takes the child.\<close>

definition family :: "proc list" where
  "family = (replicate NPROC blank_proc)
     [0 := blank_proc\<lparr>p_state := SLEEPING, p_pid := 1\<rparr>,
      1 := blank_proc\<lparr>p_state := RUNNABLE, p_pid := 2, p_parent := Some 0, p_pgdir := 0x80500000\<rparr>]"

lemma family_nth:
  "j < NPROC \<Longrightarrow> family ! j = (if j = 0 then blank_proc\<lparr>p_state := SLEEPING, p_pid := 1\<rparr>
     else if j = 1 then blank_proc\<lparr>p_state := RUNNABLE, p_pid := 2, p_parent := Some 0, p_pgdir := 0x80500000\<rparr>
     else blank_proc)"
  by (simp add: family_def nth_list_update NPROC_def)

lemma family_ok: "tab_ok (idle_state family 9 2)"
proof -
  have len: "length family = NPROC" by (simp add: family_def)
  show ?thesis
    unfolding tab_ok_def table_ok_def idle_state_sel idle_state_machine
    by (simp add: family_nth len live_def blank_proc_def boot_machine_def idle_cpu_def NPROC_def)
qed


end
