(* ===== verification/PipeQueue.thy ===== *)
theory PipeQueue
  imports Frames Boot
begin

text \<open>
  The pipe is a bounded first-in first-out queue of bytes. The interface of such a queue is a
  locale, with what a client that puts until the queue is full or gets until it is empty can
  rely on; the ring buffer with its two wrapping counters implements it, and what readers get
  from a pipe is what writers put into it, in order, over any sequence of reads and writes,
  however often the counters wrap around.
\<close>

section \<open>Bounded queues\<close>

locale bounded_queue =
  fixes valid :: "'q \<Rightarrow> bool" and view :: "'q \<Rightarrow> 'a list" and cap :: nat
    and full :: "'q \<Rightarrow> bool" and empty :: "'q \<Rightarrow> bool" and put :: "'a \<Rightarrow> 'q \<Rightarrow> 'q" and get :: "'q \<Rightarrow> 'a \<times> 'q"
  assumes view_bound: "valid q \<Longrightarrow> length (view q) \<le> cap"
    and full_iff: "valid q \<Longrightarrow> full q \<longleftrightarrow> length (view q) = cap"
    and empty_iff: "valid q \<Longrightarrow> empty q \<longleftrightarrow> view q = []"
    and put_law: "valid q \<Longrightarrow> \<not> full q \<Longrightarrow> valid (put c q) \<and> view (put c q) = view q @ [c]"
    and get_law: "valid q \<Longrightarrow> \<not> empty q \<Longrightarrow> valid (snd (get q)) \<and> view q = fst (get q) # view (snd (get q))"
begin

text \<open>Put until the list is used up or the queue is full: what is left, and the queue.\<close>

fun put_list :: "'a list \<Rightarrow> 'q \<Rightarrow> 'a list \<times> 'q" where
  "put_list [] q = ([], q)"
| "put_list (c # cs) q = (if full q then (c # cs, q) else put_list cs (put c q))"

fun get_list :: "nat \<Rightarrow> 'q \<Rightarrow> 'a list \<times> 'q" where
  "get_list 0 q = ([], q)"
| "get_list (Suc n) q = (if empty q then ([], q)
     else let (c, q) = get q; (cs, q) = get_list n q in (c # cs, q))"

lemma put_list_law:
  "valid q \<Longrightarrow> put_list cs q = (rest, q') \<Longrightarrow>
    valid q' \<and> (\<exists>sent. cs = sent @ rest \<and> view q' = view q @ sent) \<and> (rest \<noteq> [] \<longrightarrow> length (view q') = cap)"
proof (induction cs arbitrary: q)
  case (Cons c cs)
  show ?case
  proof (cases "full q")
    case True
    with Cons.prems show ?thesis by (auto simp: full_iff)
  next
    case False
    with put_law [OF Cons.prems(1) this] Cons.IH [of "put c q"] Cons.prems(2)
    obtain sent where "valid q'" "cs = sent @ rest" "view q' = view q @ [c] @ sent" "rest \<noteq> [] \<longrightarrow> length (view q') = cap"
      by auto
    then show ?thesis by (intro conjI exI [of _ "c # sent"]) auto
  qed
qed auto

lemma get_list_law:
  "valid q \<Longrightarrow> get_list n q = (cs, q') \<Longrightarrow> valid q' \<and> cs = take n (view q) \<and> view q' = drop n (view q)"
proof (induction n arbitrary: q cs)
  case (Suc n)
  show ?case
  proof (cases "empty q")
    case True
    with Suc.prems show ?thesis by (auto simp: empty_iff)
  next
    case False
    obtain c q1 cs1 where "get q = (c, q1)" "get_list n q1 = (cs1, q')" "cs = c # cs1"
      using Suc.prems(2) False by (auto split: prod.splits)
    with get_law [OF Suc.prems(1) False] Suc.IH [of q1 cs1] show ?thesis by simp
  qed
qed auto

end

section \<open>Windows on a ring buffer\<close>

text \<open>
  The \<open>n\<close> entries of a ring of \<open>N\<close> entries from a running 32-bit index on. The size of the
  ring divides the range of the index, so that slots wrap around with it.
\<close>

definition window :: "'a list \<Rightarrow> nat \<Rightarrow> u32 \<Rightarrow> nat \<Rightarrow> 'a list" where
  "window xs N a n = map (\<lambda>i. xs ! (unat (a + of_nat i) mod N)) [0..<n]"

lemma window_length [simp]: "length (window xs N a n) = n"
  by (simp add: window_def)

lemma window_0 [simp]: "window xs N a 0 = []"
  by (simp add: window_def)

lemma window_snoc: "window xs N a (Suc n) = window xs N a n @ [xs ! (unat (a + of_nat n) mod N)]"
  by (simp add: window_def)

lemma window_append: "window xs N a (m + n) = window xs N a m @ window xs N (a + of_nat m) n"
  by (induction n) (simp_all add: window_snoc add.assoc)

lemma window_Cons: "window xs N a (Suc n) = xs ! (unat a mod N) # window xs N (a + 1) n"
  using window_append [of xs N a 1 n] by (simp add: window_def)

lemma slot_add: "N dvd 2 ^ 32 \<Longrightarrow> unat (a + of_nat i :: u32) mod N = (unat a + i) mod N"
proof -
  assume "N dvd 2 ^ 32"
  moreover have "unat (a + of_nat i :: u32) = (unat a + i) mod 2 ^ 32"
    by (simp add: unat_word_ariths unsigned_of_nat take_bit_eq_mod mod_simps)
  ultimately show ?thesis by (simp add: mod_mod_cancel)
qed

lemma slots_distinct:
  assumes "i < n" "n < N"
  shows "(a + i) mod N \<noteq> (a + n) mod (N :: nat)"
proof
  assume "(a + i) mod N = (a + n) mod N"
  then have "N dvd (a + n) - (a + i)" using assms by (metis mod_eq_dvd_iff_nat add_left_mono less_imp_le)
  with assms show False by (auto dest: dvd_imp_le)
qed

lemma window_put:
  assumes "N dvd 2 ^ 32" "length xs = N" "m + n < N"
  shows "window (xs[unat (a + of_nat m + of_nat n) mod N := c]) N a m = window xs N a m"
    and "window (xs[unat (a + of_nat n) mod N := c]) N a (Suc n) = window xs N a n @ [c]"
proof -
  have other: "xs[unat (a + of_nat k) mod N := c] ! (unat (a + of_nat i) mod N) = xs ! (unat (a + of_nat i) mod N)"
    if "i < k" "k < N" for i k
    using slots_distinct [OF that, of "unat a"] by (simp add: slot_add [OF assms(1)])
  then show "window (xs[unat (a + of_nat m + of_nat n) mod N := c]) N a m = window xs N a m"
    using assms(3) other [of _ "m + n"] by (auto simp: window_def add.assoc)
  have "unat (a + of_nat n) mod N < length xs" using assms by simp
  then show "window (xs[unat (a + of_nat n) mod N := c]) N a (Suc n) = window xs N a n @ [c]"
    using other [of _ n] assms(3) by (simp add: window_def)
qed

section \<open>The ring of a pipe\<close>

text \<open>The bytes in the ring: the distance of the counters, read from \<^verbatim>\<open>nread\<close> on.\<close>

definition ring_view :: "pipe \<Rightarrow> u8 list" where
  "ring_view u = window (pi_data u) PIPESIZE (pi_nread u) (unat (pi_nwrite u - pi_nread u))"

definition ring_ok :: "pipe \<Rightarrow> bool" where
  "ring_ok u \<longleftrightarrow> length (pi_data u) = PIPESIZE \<and> unat (pi_nwrite u - pi_nread u) \<le> PIPESIZE"

lemma ring_view_length [simp]: "length (ring_view u) = unat (pi_nwrite u - pi_nread u)"
  by (simp add: ring_view_def)

lemma counter_step:
  assumes "unat (w - r) < 2 ^ 32 - 1"
  shows "unat (w + 1 - r :: u32) = Suc (unat (w - r))"
proof -
  have "unat ((w - r) + 1) = unat (w - r) + unat (1 :: u32)"
    using assms by (intro unat_plus_nowrap) simp
  then show ?thesis by (simp add: algebra_simps)
qed

lemma pipe_full_iff: "pipe_full u \<longleftrightarrow> unat (pi_nwrite u - pi_nread u) = PIPESIZE"
proof
  assume "pipe_full u"
  then show "unat (pi_nwrite u - pi_nread u) = PIPESIZE" by (simp add: pipe_full_def PIPESIZE_def)
next
  assume n: "unat (pi_nwrite u - pi_nread u) = PIPESIZE"
  then have "of_nat (unat (pi_nwrite u - pi_nread u)) = (of_nat PIPESIZE :: u32)" by (rule arg_cong)
  then have "pi_nwrite u - pi_nread u = of_nat PIPESIZE" by simp
  then show "pipe_full u" by (simp add: pipe_full_def diff_eq_eq add.commute)
qed

lemma PIPESIZE_dvd: "PIPESIZE dvd 2 ^ 32"
  by (simp add: PIPESIZE_def)

lemma ring_put_view:
  assumes "ring_ok u" "\<not> pipe_full u"
  shows "ring_ok (ring_put c u)" "ring_view (ring_put c u) = ring_view u @ [c]"
proof -
  let ?n = "unat (pi_nwrite u - pi_nread u)"
  have lt: "?n < PIPESIZE" using assms by (simp add: ring_ok_def pipe_full_iff)
  then have step: "unat (pi_nwrite u + 1 - pi_nread u) = Suc ?n" by (intro counter_step) (simp add: PIPESIZE_def)
  show "ring_ok (ring_put c u)"
    using assms(1) lt step by (simp add: ring_ok_def ring_put_def)
  show "ring_view (ring_put c u) = ring_view u @ [c]"
    using window_put(2) [OF PIPESIZE_dvd, where xs = "pi_data u" and m = 0 and n = ?n and a = "pi_nread u" and c = c] lt step assms(1)
    by (simp add: ring_view_def ring_put_def ring_ok_def)
qed

lemma ring_get_view:
  assumes "ring_ok u" "\<not> pipe_empty u"
  shows "ring_ok (snd (ring_get u))" "ring_view u = fst (ring_get u) # ring_view (snd (ring_get u))"
proof -
  let ?n = "unat (pi_nwrite u - pi_nread u)"
  have nz: "pi_nwrite u - pi_nread u \<noteq> 0" using assms(2) by (auto simp: pipe_empty_def)
  have n: "unat (pi_nwrite u - (pi_nread u + 1)) = ?n - 1" "0 < ?n"
    using unat_pred [OF nz] nz by (simp_all add: diff_diff_add [symmetric] unat_gt_0)
  show "ring_ok (snd (ring_get u))" using assms(1) n by (auto simp: ring_ok_def ring_get_def)
  show "ring_view u = fst (ring_get u) # ring_view (snd (ring_get u))"
    using window_Cons [of "pi_data u" PIPESIZE "pi_nread u" "?n - 1"] n by (simp add: ring_view_def ring_get_def)
qed

interpretation ring: bounded_queue ring_ok ring_view PIPESIZE pipe_full pipe_empty ring_put ring_get
proof unfold_locales
  fix u c assume u: "ring_ok u"
  show "length (ring_view u) \<le> PIPESIZE" using u by (simp add: ring_ok_def)
  show "pipe_full u \<longleftrightarrow> length (ring_view u) = PIPESIZE"
    by (simp add: pipe_full_iff)
  show "pipe_empty u \<longleftrightarrow> ring_view u = []"
    by (metis length_0_conv pipe_empty_def right_minus_eq ring_view_length unsigned_eq_0_iff)
  show "ring_ok (ring_put c u) \<and> ring_view (ring_put c u) = ring_view u @ [c]" if "\<not> pipe_full u"
    using ring_put_view [OF u that] by simp
  show "ring_ok (snd (ring_get u)) \<and> ring_view u = fst (ring_get u) # ring_view (snd (ring_get u))" if "\<not> pipe_empty u"
    using ring_get_view [OF u that] by simp
qed

section \<open>Reading and writing a pipe\<close>

interpretation pipes_view: table_frame "pipes :: 'z pipe_state_scheme \<Rightarrow> u32 \<Rightarrow> pipe"
  by unfold_locales simp_all

lemma piperead_copy_eq: "piperead_copy n u = ring.get_list n u"
  by (induction n arbitrary: u) simp_all

lemma pipewrite_loop_ring:
  "pipewrite_loop p n cs s = Ok k t \<or> pipewrite_loop p n cs s = Switched t \<Longrightarrow>
    pipes t p = snd (ring.put_list cs (pipes s p)) \<and>
    (pipewrite_loop p n cs s = Ok k t \<longrightarrow> k = (if fst (ring.put_list cs (pipes s p)) = [] then n else - 1)) \<and>
    (pipewrite_loop p n cs s = Switched t \<longrightarrow> fst (ring.put_list cs (pipes s p)) \<noteq> [])"
proof (induction cs arbitrary: s)
  case Nil
  have "keeps pipes (pipes s) (pipewrite_loop p n [] s)"
    by (auto intro!: keeps_bind pipes_view.keeps_wakeup pipes_view.keeps_release)
  with Nil show ?case by (auto simp: bind_eq_Switched)
next
  case (Cons c cs)
  show ?case
  proof (cases "pipe_full (pipes s p)")
    case True
    have "keeps pipes (pipes s) (pipewrite_loop p n (c # cs) s)"
      using True by (auto intro!: keeps_bind keeps_with_proc pipes_view.keeps_wakeup pipes_view.keeps_release pipes_view.keeps_sleep)
    then have "pipes t = pipes s" using Cons.prems by auto
    moreover have "k = - 1" if "pipewrite_loop p n (c # cs) s = Ok k t"
      using that True by (auto simp: with_proc_def split: option.splits if_splits)
    ultimately show ?thesis using True by simp
  next
    case False
    with Cons.IH [of "upd_pipe p (ring_put c) s"] Cons.prems show ?thesis by (simp add: upd_pipe_def)
  qed
qed


lemma piperead_loop_ring:
  "piperead_loop p n s = Ok (k, cs) t \<Longrightarrow>
    k = - 1 \<and> cs = [] \<and> pipes t p = pipes s p \<or>
    k = int (length cs) \<and> (cs, pipes t p) = ring.get_list n (pipes s p)"
proof -
  assume r: "piperead_loop p n s = Ok (k, cs) t"
  show ?thesis
  proof (cases "pipe_empty (pipes s p) \<and> pi_writeopen (pipes s p)")
    case True
    from r True have "release (PipeLock p) s = Ok () t" "k = - 1" "cs = []"
      by (auto simp: piperead_loop_def with_proc_def split: option.splits if_splits)
    then show ?thesis using keepsD [OF pipes_view.keeps_release [OF refl]] by metis
  next
    case False
    obtain ds u where g: "ring.get_list n (pipes s p) = (ds, u)" by (cases "ring.get_list n (pipes s p)")
    let ?s = "upd_pipe p (\<lambda>_. u) s"
    from r False g obtain v where v: "wakeup (ChanPipeWrite p) ?s = Ok () v" "release (PipeLock p) v = Ok () t" "cs = ds" "k = int (length ds)"
      by (auto simp: piperead_loop_def piperead_copy_eq)
    then have "pipes t = pipes ?s"
      using keepsD [OF pipes_view.keeps_wakeup [OF refl] v(1)] keepsD [OF pipes_view.keeps_release [OF refl] v(2)] by simp
    with v g show ?thesis by (simp add: upd_pipe_def)
  qed
qed

lemma piperead_loop_sleeps:
  "piperead_loop p n s = Switched t \<Longrightarrow> pipes t = pipes s"
proof -
  assume r: "piperead_loop p n s = Switched t"
  then have "pipe_empty (pipes s p) \<and> pi_writeopen (pipes s p)"
    by (auto simp: piperead_loop_def Let_def bind_eq_Switched split: prod.splits if_splits)
  then have "keeps pipes (pipes s) (piperead_loop p n s)"
    by (auto simp: piperead_loop_def intro!: keeps_bind keeps_with_proc pipes_view.keeps_release pipes_view.keeps_sleep)
  with r show ?thesis by simp
qed

section \<open>A pipe is a queue\<close>

text \<open>
  The life of pipe \<open>p\<close>: the bytes that writers have put in so far, the bytes that readers have
  taken out, and the state. A writer that leaves the CPU has written as many of its bytes as
  the counter \<^verbatim>\<open>nwrite\<close> has advanced. Anything else the kernel does keeps the ring.
\<close>

definition same_ring :: "pipe \<Rightarrow> pipe \<Rightarrow> bool" where
  "same_ring u v \<longleftrightarrow> pi_data v = pi_data u \<and> pi_nread v = pi_nread u \<and> pi_nwrite v = pi_nwrite u"

inductive pipe_exec :: "u32 \<Rightarrow> 'z pipe_state_scheme \<Rightarrow> u8 list \<Rightarrow> u8 list \<Rightarrow> 'z pipe_state_scheme \<Rightarrow> bool" for p s where
  start: "pipe_exec p s [] [] s"
| other: "pipe_exec p s W R t \<Longrightarrow> same_ring (pipes t p) (pipes u p) \<Longrightarrow> pipe_exec p s W R u"
| wrote: "pipe_exec p s W R t \<Longrightarrow> pipewrite_loop p n cs t = Ok k u \<or> pipewrite_loop p n cs t = Switched u \<Longrightarrow>
    pipe_exec p s (W @ take (unat (pi_nwrite (pipes u p) - pi_nwrite (pipes t p))) cs) R u"
| read: "pipe_exec p s W R t \<Longrightarrow> piperead_loop p n t = Ok (k, cs) u \<Longrightarrow> pipe_exec p s W (R @ cs) u"
| read_sleeps: "pipe_exec p s W R t \<Longrightarrow> piperead_loop p n t = Switched u \<Longrightarrow> pipe_exec p s W R u"

lemma put_list_nread: "pi_nread (snd (ring.put_list cs u)) = pi_nread u"
  by (induction cs arbitrary: u) (simp_all add: ring_put_def)

lemma put_list_count:
  assumes "ring_ok u" "ring.put_list cs u = (rest, v)"
  shows "ring_view v = ring_view u @ take (unat (pi_nwrite v - pi_nwrite u)) cs"
proof -
  from ring.put_list_law [OF assms] obtain sent where v: "ring_ok v" "cs = sent @ rest" "ring_view v = ring_view u @ sent"
    by blast
  have r: "pi_nread v = pi_nread u" using put_list_nread [of cs u] assms(2) by simp
  have "length (ring_view v) = length (ring_view u) + length sent" using v(3) by simp
  then have "unat (pi_nwrite v - pi_nread u) = unat (pi_nwrite u - pi_nread u) + length sent" by (simp add: r)
  moreover have "pi_nwrite v - pi_nwrite u = (pi_nwrite v - pi_nread u) - (pi_nwrite u - pi_nread u)" by simp
  ultimately have "unat (pi_nwrite v - pi_nwrite u) = length sent"
    by (metis add_diff_cancel_left' le_add1 unat_sub word_le_nat_alt)
  with v show ?thesis by simp
qed

lemma pipe_exec_queue:
  assumes "pipe_exec p s W R t" "ring_ok (pipes s p)" "ring_view (pipes s p) = []"
  shows "ring_ok (pipes t p) \<and> W = R @ ring_view (pipes t p)"
  using assms(1)
proof (induction rule: pipe_exec.induct)
  case start
  with assms(2,3) show ?case by simp
next
  case (other W R t u)
  then show ?case by (simp add: same_ring_def ring_ok_def ring_view_def)
next
  case (wrote W R t n cs k u)
  from pipewrite_loop_ring [OF wrote.hyps(2)]
  have u: "ring.put_list cs (pipes t p) = (fst (ring.put_list cs (pipes t p)), pipes u p)" by simp
  from wrote.IH put_list_count [OF _ u] ring.put_list_law [OF _ u] show ?case by simp
next
  case (read W R t n k cs u)
  show ?case using piperead_loop_ring [OF read.hyps(2)] read.IH ring.get_list_law [of "pipes t p" n cs "pipes u p"]
    by auto
next
  case (read_sleeps W R t n u)
  with piperead_loop_sleeps [OF read_sleeps.hyps(2)] show ?case by simp
qed


definition busy_pipe :: life_state where
  "busy_pipe = acq (PipeLock 5) ((idle_state two_waiting 9 1)\<lparr>pipes := (\<lambda>_. blank_pipe\<lparr>pi_nread := - 1, pi_nwrite := - 1\<rparr>)\<rparr>)"

lemma busy_pipe_sel:
  "pipes busy_pipe = (\<lambda>_. blank_pipe\<lparr>pi_nread := - 1, pi_nwrite := - 1\<rparr>)" "holding (PipeLock 5) busy_pipe"
  "\<not> iflag (cpu busy_pipe)" "ncli (cpu busy_pipe) = 1" "ready PtableLock busy_pipe"
proof -
  have c: "cpu ((idle_state two_waiting 9 1)\<lparr>pipes := f\<rparr>) = idle_cpu" for f
    by (simp add: cpu_def boot_machine_def)
  show "pipes busy_pipe = (\<lambda>_. blank_pipe\<lparr>pi_nread := - 1, pi_nwrite := - 1\<rparr>)" "holding (PipeLock 5) busy_pipe"
    "\<not> iflag (cpu busy_pipe)" "ncli (cpu busy_pipe) = 1" "ready PtableLock busy_pipe"
    using idle_state_ready [of PtableLock two_waiting 9 1]
    by (simp_all add: busy_pipe_def ready_def c idle_cpu_def)
qed


end
