(* ===== verification/LineEdit.thy ===== *)
theory LineEdit
  imports PipeQueue
begin

text \<open>
  The console's edit buffer is a line editor: two lists of bytes, those already handed to
  readers and those of the line being typed, which backspace and line kill shorten and which
  a newline, an end of file or a full buffer hand over. The ring buffer with its three running
  indices implements it, and the loops of the interrupt handler end.
\<close>

section \<open>The line editor\<close>

definition edit_line :: "int \<Rightarrow> u8 list \<times> u8 list \<Rightarrow> u8 list \<times> u8 list" where
  "edit_line c v = (case v of (given, typed) \<Rightarrow>
     if c = 16 then (given, typed)
     else if c = 21 then (given, [])
     else if c = 8 \<or> c = 127 then (given, butlast typed)
     else if c \<noteq> 0 \<and> length given + length typed < INPUT_BUF then
       let c = (if c = 13 then 10 else c); typed = typed @ [of_int c]
       in if c = 10 \<or> c = 4 \<or> length given + length typed = INPUT_BUF then (given @ typed, []) else (given, typed)
     else (given, typed))"

section \<open>The buffer as two lists\<close>

definition in_given :: "input_rec \<Rightarrow> u8 list" where
  "in_given i = window (in_buf i) INPUT_BUF (in_r i) (unat (in_w i - in_r i))"

definition in_typed :: "input_rec \<Rightarrow> u8 list" where
  "in_typed i = window (in_buf i) INPUT_BUF (in_w i) (unat (in_e i - in_w i))"

definition input_ok :: "input_rec \<Rightarrow> bool" where
  "input_ok i \<longleftrightarrow> length (in_buf i) = INPUT_BUF \<and> unat (in_w i - in_r i) + unat (in_e i - in_w i) \<le> INPUT_BUF \<and>
     10 \<notin> set (in_typed i)"

lemma in_view_length [simp]:
  "length (in_given i) = unat (in_w i - in_r i)" "length (in_typed i) = unat (in_e i - in_w i)"
  by (simp_all add: in_given_def in_typed_def)

lemma INPUT_BUF_dvd: "INPUT_BUF dvd 2 ^ 32"
  by (simp add: INPUT_BUF_def)

lemma in_total:
  assumes "input_ok i"
  shows "unat (in_e i - in_r i) = unat (in_w i - in_r i) + unat (in_e i - in_w i)"
proof -
  have "in_e i - in_r i = (in_w i - in_r i) + (in_e i - in_w i)" by simp
  moreover have "unat ((in_w i - in_r i) + (in_e i - in_w i)) = unat (in_w i - in_r i) + unat (in_e i - in_w i)"
    using assms by (intro unat_plus_nowrap) (simp add: input_ok_def INPUT_BUF_def)
  ultimately show ?thesis by simp
qed

text \<open>Erasing the last character typed.\<close>

lemma in_erase:
  assumes "input_ok i" "in_e i \<noteq> in_w i"
  shows "input_ok (i\<lparr>in_e := in_e i - 1\<rparr>)" "in_given (i\<lparr>in_e := in_e i - 1\<rparr>) = in_given i"
    "in_typed (i\<lparr>in_e := in_e i - 1\<rparr>) = butlast (in_typed i)"
    "in_typed i = butlast (in_typed i) @ [in_buf i ! in_slot (in_e i - 1)]"
    "unat (in_e i - 1 - in_w i) = unat (in_e i - in_w i) - 1" "0 < unat (in_e i - in_w i)"
proof -
  let ?n = "unat (in_e i - in_w i)"
  have nz: "in_e i - in_w i \<noteq> 0" using assms(2) by simp
  show n: "unat (in_e i - 1 - in_w i) = ?n - 1" "0 < ?n"
    using unat_pred [OF nz] nz by (simp_all add: diff_diff_eq add.commute unat_gt_0)
  have e: "in_w i + of_nat (?n - 1) = in_e i - 1"
    using n(1) [symmetric] by simp
  have snoc: "in_typed i = window (in_buf i) INPUT_BUF (in_w i) (?n - 1) @ [in_buf i ! in_slot (in_e i - 1)]"
    using window_snoc [of "in_buf i" INPUT_BUF "in_w i" "?n - 1"] n(2) e by (simp add: in_typed_def in_slot_def)
  then show "in_typed i = butlast (in_typed i) @ [in_buf i ! in_slot (in_e i - 1)]" by simp
  show typed: "in_typed (i\<lparr>in_e := in_e i - 1\<rparr>) = butlast (in_typed i)"
    using snoc n(1) by (simp add: in_typed_def)
  show "in_given (i\<lparr>in_e := in_e i - 1\<rparr>) = in_given i" by (simp add: in_given_def)
  show "input_ok (i\<lparr>in_e := in_e i - 1\<rparr>)"
    using assms(1) n typed by (auto simp: input_ok_def dest: in_set_butlastD)
qed

text \<open>Adding a character, and handing the line over.\<close>

definition in_add :: "u8 \<Rightarrow> input_rec \<Rightarrow> input_rec" where
  "in_add c i = i\<lparr>in_buf := (in_buf i)[in_slot (in_e i) := c], in_e := in_e i + 1\<rparr>"

lemma in_add_view:
  assumes "input_ok i" "in_e i - in_r i < of_nat INPUT_BUF"
  shows "in_given (in_add c i) = in_given i" "in_typed (in_add c i) = in_typed i @ [c]"
    "length (in_buf (in_add c i)) = INPUT_BUF"
    "unat (in_e (in_add c i) - in_w (in_add c i)) = Suc (unat (in_e i - in_w i))"
    "unat (in_e i - in_r i) < INPUT_BUF"
proof -
  let ?m = "unat (in_w i - in_r i)" and ?n = "unat (in_e i - in_w i)"
  have len: "length (in_buf i) = INPUT_BUF" using assms(1) by (simp add: input_ok_def)
  show room: "unat (in_e i - in_r i) < INPUT_BUF" using assms(2) by (simp add: word_less_nat_alt INPUT_BUF_def)
  then have lt: "?m + ?n < INPUT_BUF" using in_total [OF assms(1)] by simp
  show "length (in_buf (in_add c i)) = INPUT_BUF" using len by (simp add: in_add_def)
  have step: "unat (in_e i + 1 - in_w i) = Suc ?n" using lt by (intro counter_step) (simp add: INPUT_BUF_def)
  then show "unat (in_e (in_add c i) - in_w (in_add c i)) = Suc ?n" by (simp add: in_add_def)
  show "in_given (in_add c i) = in_given i"
    using window_put(1) [OF INPUT_BUF_dvd len lt, of "in_r i" c] by (simp add: in_given_def in_add_def in_slot_def)
  show "in_typed (in_add c i) = in_typed i @ [c]"
    using window_put(2) [OF INPUT_BUF_dvd len, of 0 ?n "in_w i" c] lt step by (simp add: in_typed_def in_add_def in_slot_def)
qed

lemma in_hand_over:
  assumes "length (in_buf i) = INPUT_BUF" "unat (in_w i - in_r i) + unat (in_e i - in_w i) \<le> INPUT_BUF"
  shows "input_ok (i\<lparr>in_w := in_e i\<rparr>)" "in_given (i\<lparr>in_w := in_e i\<rparr>) = in_given i @ in_typed i"
    "in_typed (i\<lparr>in_w := in_e i\<rparr>) = []"
proof -
  have "in_e i - in_r i = (in_w i - in_r i) + (in_e i - in_w i)" by simp
  moreover have "unat ((in_w i - in_r i) + (in_e i - in_w i)) = unat (in_w i - in_r i) + unat (in_e i - in_w i)"
    using assms(2) by (intro unat_plus_nowrap) (simp add: INPUT_BUF_def)
  ultimately have t: "unat (in_e i - in_r i) = unat (in_w i - in_r i) + unat (in_e i - in_w i)" by simp
  show "in_given (i\<lparr>in_w := in_e i\<rparr>) = in_given i @ in_typed i"
    using window_append [of "in_buf i" INPUT_BUF "in_r i" "unat (in_w i - in_r i)" "unat (in_e i - in_w i)"]
    by (simp add: in_given_def in_typed_def t)
  show "in_typed (i\<lparr>in_w := in_e i\<rparr>) = []" by (simp add: in_typed_def)
  then show "input_ok (i\<lparr>in_w := in_e i\<rparr>)" using assms t by (simp add: input_ok_def)
qed

section \<open>The interrupt handler implements the editor\<close>

text \<open>The console can print and the process table can be locked.\<close>

definition tty_ready :: "'z inp_state_scheme \<Rightarrow> bool" where
  "tty_ready s \<longleftrightarrow> cons_ok s \<and> ready PtableLock s"

definition tty_ok :: "'z inp_state_scheme \<Rightarrow> bool" where
  "tty_ok s \<longleftrightarrow> tty_ready s \<and> input_ok (input s)"

lemma consputc_tty:
  assumes "tty_ready s"
  shows "\<exists>t. consputc c s = Ok () t \<and> tty_ready t \<and> input t = input s"
proof -
  from assms consputc_ok [of s c] obtain t out where t: "consputc c s = Ok () t" "cons_ok t" "printed out s t"
    by (auto simp: tty_ready_def)
  from t(3) have "input t = input s" "ready PtableLock t = ready PtableLock s"
    by (auto simp: printed_def ready_def cpu_def)
  with t assms show ?thesis by (auto simp: tty_ready_def)
qed

lemma wakeup_tty:
  assumes "tty_ready s"
  shows "\<exists>t. wakeup ch s = Ok () t \<and> tty_ready t \<and> input t = input s"
proof -
  have "input (wakeup1 (Some ch) (settle s)) = input s" "crt_cursor (wakeup1 (Some ch) (settle s)) = crt_cursor s"
    "panicked (wakeup1 (Some ch) (settle s)) = panicked s"
    by (simp_all add: wakeup1_def settle_def machine_defs)
  with assms show ?thesis by (simp add: tty_ready_def wakeup_eq cons_ok_def)
qed

lemma tty_ready_upd [simp]: "tty_ready (upd_input f s) = tty_ready s"
  by (simp add: tty_ready_def upd_input_def cons_ok_def ready_def cpu_def)

lemma input_upd [simp]: "input (upd_input f s) = f (input s)"
  by (simp add: upd_input_def)

lemma kill_line_ok:
  "tty_ok s \<Longrightarrow> unat (in_e (input s) - in_w (input s)) < n \<Longrightarrow>
    \<exists>t. kill_line n s = Ok () t \<and> tty_ok t \<and> in_given (input t) = in_given (input s) \<and> in_typed (input t) = []"
proof (induction n arbitrary: s)
  case (Suc n)
  let ?i = "input s"
  have ok: "input_ok ?i" using Suc.prems(1) by (simp add: tty_ok_def)
  show ?case
  proof (cases "in_e ?i = in_w ?i")
    case True
    with Suc.prems show ?thesis by (simp add: in_typed_def)
  next
    case False
    note er = in_erase [OF ok False]
    have "in_buf ?i ! in_slot (in_e ?i - 1) \<in> set (in_typed ?i)" by (subst er(4)) simp
    then have nl: "in_buf ?i ! in_slot (in_e ?i - 1) \<noteq> 10" using ok by (auto simp: input_ok_def)
    let ?s = "upd_input (\<lambda>i. i\<lparr>in_e := in_e i - 1\<rparr>) s"
    obtain u where u: "consputc BACKSPACE ?s = Ok () u" "tty_ok u" "input u = ?i\<lparr>in_e := in_e ?i - 1\<rparr>"
      using consputc_tty [of ?s BACKSPACE] Suc.prems(1) er(1) by (auto simp: tty_ok_def)
    have "unat (in_e ?i - 1 - in_w ?i) < n" using er(5,6) Suc.prems(2) by linarith
    with Suc.IH [OF u(2)] u(3)
    obtain t where "kill_line n u = Ok () t" "tty_ok t" "in_given (input t) = in_given (input u)" "in_typed (input t) = []"
      by auto
    with u er(2) False nl show ?thesis by (simp add: Let_def)
  qed
qed simp

definition in_view :: "'z inp_state_scheme \<Rightarrow> u8 list \<times> u8 list" where
  "in_view s = (in_given (input s), in_typed (input s))"

lemma u8_of_int_eq: "0 \<le> c \<Longrightarrow> c < 256 \<Longrightarrow> (of_int c :: u8) = 10 \<longleftrightarrow> c = 10"
proof
  assume c: "0 \<le> c" "c < 256" "(of_int c :: u8) = 10"
  have "uint (of_int c :: u8) = c" using c(1,2) by (simp add: uint_word_of_int)
  with c(3) show "c = 10" by simp
qed simp

lemma in_room: "input_ok i \<Longrightarrow> in_e i - in_r i < of_nat INPUT_BUF \<longleftrightarrow> length (in_given i) + length (in_typed i) < INPUT_BUF"
  using in_total [of i] by (simp add: word_less_nat_alt INPUT_BUF_def)

lemma in_full_iff: "in_e i = in_r i + of_nat INPUT_BUF \<longleftrightarrow> unat (in_e i - in_r i) = INPUT_BUF"
proof
  assume "unat (in_e i - in_r i) = INPUT_BUF"
  then have "of_nat (unat (in_e i - in_r i)) = (of_nat INPUT_BUF :: u32)" by (rule arg_cong)
  then show "in_e i = in_r i + of_nat INPUT_BUF" by (simp add: diff_eq_eq add.commute)
qed (simp add: INPUT_BUF_def)

lemma input_char_ok:
  assumes "tty_ok s" "0 \<le> c" "c < 256" "c \<noteq> 16" "c \<noteq> 21" "c \<noteq> 8" "c \<noteq> 127"
  shows "\<exists>t. input_char c s = Ok () t \<and> tty_ok t \<and> in_view t = edit_line c (in_view s)"
proof (cases "c \<noteq> 0 \<and> in_e (input s) - in_r (input s) < of_nat INPUT_BUF")
  case False
  have ok: "input_ok (input s)" using assms(1) by (simp add: tty_ok_def)
  from False have "input_char c s = Ok () s" unfolding input_char_def by (rule if_not_P)
  moreover have "edit_line c (in_view s) = in_view s"
    using False assms(4-7) in_room [OF ok] by (auto simp: edit_line_def in_view_def)
  ultimately show ?thesis using assms(1) by simp
next
  case True
  let ?i = "input s"
  have ok: "input_ok ?i" using assms(1) by (simp add: tty_ok_def)
  define c' where "c' = (if c = 13 then 10 else c)"
  let ?j = "in_add (of_int c') ?i"
  note add = in_add_view(1-4) [OF ok conjunct2 [OF True], of "of_int c'"] in_add_view(5) [OF ok conjunct2 [OF True]]
  have sum: "unat (in_w ?j - in_r ?j) + unat (in_e ?j - in_w ?j) \<le> INPUT_BUF"
    using add(4,5) in_total [OF ok] by (simp add: in_add_def)
  have total: "unat (in_e ?j - in_r ?j) = unat (in_w ?i - in_r ?i) + Suc (unat (in_e ?i - in_w ?i))"
    using arg_cong [OF in_hand_over(2) [OF add(3) sum], of length] add(4) by (simp add: in_add_def)
  obtain u where u: "consputc c' (upd_input (in_add (of_int c')) s) = Ok () u" "tty_ready u" "input u = ?j"
    using consputc_tty [of "upd_input (in_add (of_int c')) s" c'] assms(1) by (auto simp: tty_ok_def)
  have step: "input_char c s = (if c' = 10 \<or> c' = 4 \<or> in_e ?j = in_r ?j + of_nat INPUT_BUF
      then wakeup ChanInput (upd_input (\<lambda>i. i\<lparr>in_w := in_e i\<rparr>) u) else Ok () u)"
    using True u unfolding input_char_def by (simp add: c'_def [symmetric] in_add_def [symmetric] Let_def)
  have room: "length (in_given ?i) + length (in_typed ?i) < INPUT_BUF" using in_room [OF ok] True by simp
  have edit: "edit_line c (in_view s) = (if c' = 10 \<or> c' = 4 \<or> in_e ?j = in_r ?j + of_nat INPUT_BUF
      then (in_given ?j @ in_typed ?j, []) else (in_given ?j, in_typed ?j))"
    using True assms(4-7) room unfolding edit_line_def in_view_def
    by (simp add: c'_def [symmetric] Let_def add(1,2) in_full_iff total)
  show ?thesis
  proof (cases "c' = 10 \<or> c' = 4 \<or> in_e ?j = in_r ?j + of_nat INPUT_BUF")
    case True
    obtain t where "wakeup ChanInput (upd_input (\<lambda>i. i\<lparr>in_w := in_e i\<rparr>) u) = Ok () t" "tty_ready t"
      "input t = ?j\<lparr>in_w := in_e ?j\<rparr>"
      using wakeup_tty [of "upd_input (\<lambda>i. i\<lparr>in_w := in_e i\<rparr>) u" ChanInput] u by auto
    with True step edit in_hand_over [OF add(3) sum] show ?thesis by (simp add: tty_ok_def in_view_def)
  next
    case False
    then have "(of_int c' :: u8) \<noteq> 10" using u8_of_int_eq [of c'] assms(2,3) by (simp add: c'_def split: if_splits)
    then have "input_ok ?j" using ok add(2,3) sum by (simp add: input_ok_def)
    with False step edit u show ?thesis by (simp add: tty_ok_def in_view_def)
  qed
qed

lemma consoleintr_loop_ok:
  assumes "tty_ok s" "\<forall>c \<in> set cs. 0 \<le> c \<and> c < 256"
  shows "\<exists>t d'. consoleintr_loop cs d s = Ok d' t \<and> tty_ok t \<and> in_view t = fold edit_line cs (in_view s)"
  using assms
proof (induction cs arbitrary: d s)
  case (Cons c cs)
  note ok = Cons.prems(1)
  have rest: "\<forall>c \<in> set cs. 0 \<le> c \<and> c < 256" and c: "0 \<le> c" "c < 256" using Cons.prems(2) by simp_all
  have iok: "input_ok (input s)" using ok by (simp add: tty_ok_def)
  consider "c = 16" | "c = 21" | "c = 8 \<or> c = 127" "in_e (input s) = in_w (input s)"
    | "c = 8 \<or> c = 127" "in_e (input s) \<noteq> in_w (input s)" | "c \<noteq> 16" "c \<noteq> 21" "c \<noteq> 8" "c \<noteq> 127" by blast
  then show ?case
  proof cases
    case 1
    with Cons.IH [OF ok rest] show ?thesis by (simp add: edit_line_def in_view_def)
  next
    case 2
    obtain t where "kill_line (Suc (unat (in_e (input s) - in_w (input s)))) s = Ok () t" "tty_ok t"
      "in_given (input t) = in_given (input s)" "in_typed (input t) = []"
      using kill_line_ok [OF ok] by blast
    with 2 Cons.IH [of t d] rest show ?thesis by (simp add: edit_line_def in_view_def)
  next
    case 3
    with Cons.IH [OF ok rest] show ?thesis by (auto simp: edit_line_def in_view_def in_typed_def)
  next
    case 4
    note er = in_erase [OF iok 4(2)]
    obtain t where t: "consputc BACKSPACE (upd_input (\<lambda>i. i\<lparr>in_e := in_e i - 1\<rparr>) s) = Ok () t" "tty_ok t"
      "input t = (input s)\<lparr>in_e := in_e (input s) - 1\<rparr>"
      using consputc_tty [of "upd_input (\<lambda>i. i\<lparr>in_e := in_e i - 1\<rparr>) s" BACKSPACE] ok er(1) by (auto simp: tty_ok_def)
    have "edit_line c (in_view s) = in_view t" using 4 er t(3) by (auto simp: edit_line_def in_view_def)
    with 4 t Cons.IH [of t d] rest show ?thesis by auto
  next
    case 5
    obtain t where "input_char c s = Ok () t" "tty_ok t" "in_view t = edit_line c (in_view s)"
      using input_char_ok [OF ok c 5] by blast
    with 5 Cons.IH [of t d] rest show ?thesis by simp
  qed
qed simp


text \<open>
  C22: The console interrupt handler is a line editor. Whatever characters arrive, the handler ends
  without a panic, and the bytes handed to readers and the bytes of the line being edited are what
  the editor on two lists computes; the three running indices stay within one buffer length of
  each other.
\<close>

theorem console_is_line_editor:
  assumes "tty_ready s" "input_ok (input s)" "\<forall>c \<in> set cs. 0 \<le> c \<and> c < 256"
  shows "\<exists>t d'. consoleintr_loop cs d s = Ok d' t \<and> input_ok (input t) \<and>
    (in_given (input t), in_typed (input t)) = fold edit_line cs (in_given (input s), in_typed (input s))"
  using consoleintr_loop_ok [of s cs d] assms by (auto simp: tty_ok_def in_view_def)

lemma console_is_line_editor_witness:
  "\<exists>t d'. consoleintr_loop [104, 105, 8, 111, 13, 120] False (idle_state two_waiting 9 1) = Ok d' t \<and>
    in_given (input t) = [104, 111, 10] \<and> in_typed (input t) = [120]"
proof -
  let ?s = "idle_state two_waiting 9 1" and ?cs = "[104, 105, 8, 111, 13, 120] :: int list"
  have 1: "tty_ready ?s"
    by (simp add: tty_ready_def cons_ok_def) (simp add: idle_state_def table_state_def boot_console_def cons_state.defs proc_state.defs
      kmem_state.defs)
  have 2: "input_ok (input ?s)" and v: "in_given (input ?s) = []" "in_typed (input ?s) = []"
    by (simp_all add: input_ok_def in_typed_def in_given_def)
  have 3: "\<forall>c \<in> set ?cs. 0 \<le> c \<and> c < 256" by simp
  have f: "fold edit_line ?cs ([], []) = ([104, 111, 10], [120])"
    by (simp add: edit_line_def INPUT_BUF_def)
  from console_is_line_editor [OF 1 2 3, of False] show ?thesis
    unfolding v f prod.inject by blast
qed

end
