(* ===== verification/Paths.thy ===== *)
theory Paths
  imports Dir
begin

text \<open>
  Path names: \<^verbatim>\<open>skipelem\<close> walks over the elements of a path, which are the maximal runs of
  characters other than the slash, whatever slashes stand before, between and after them.
\<close>

section \<open>The elements of a path\<close>

fun splits :: "u8 list \<Rightarrow> u8 list list" where
  "splits [] = [[]]"
| "splits (c # cs) = (if c = slash then [] # splits cs else (c # hd (splits cs)) # tl (splits cs))"

definition elems :: "u8 list \<Rightarrow> u8 list list" where
  "elems p = filter (\<lambda>e. e \<noteq> []) (splits p)"

lemma splits_not_Nil [simp]: "splits p \<noteq> []"
  by (cases p) auto

lemma splits_hd: "hd (splits p) = takeWhile (\<lambda>c. c \<noteq> slash) p"
  by (induction p) auto

lemma splits_tl: "tl (splits p) = (case dropWhile (\<lambda>c. c \<noteq> slash) p of [] \<Rightarrow> [] | _ # q \<Rightarrow> splits q)"
  by (induction p) auto

lemma elems_Nil [simp]: "elems [] = []"
  by (simp add: elems_def)

lemma elems_slash [simp]: "elems (slash # p) = elems p"
  by (simp add: elems_def)

lemma elems_dropWhile [simp]: "elems (dropWhile (\<lambda>c. c = slash) p) = elems p"
  by (induction p) auto

lemma elems_Cons:
  assumes "c \<noteq> slash"
  shows "elems (c # p) = takeWhile (\<lambda>c. c \<noteq> slash) (c # p) # elems (dropWhile (\<lambda>c. c \<noteq> slash) (c # p))"
proof -
  have "splits (c # p) = takeWhile (\<lambda>c. c \<noteq> slash) (c # p) # tl (splits p)"
    using assms by (simp add: splits_hd)
  moreover have "filter (\<lambda>e. e \<noteq> []) (tl (splits p)) = elems (dropWhile (\<lambda>c. c \<noteq> slash) p)"
  proof (cases "dropWhile (\<lambda>c. c \<noteq> slash) p")
    case (Cons a q)
    then have "a = slash" using hd_dropWhile [of "\<lambda>c. c \<noteq> slash" p] by simp
    with Cons show ?thesis by (simp add: splits_tl) (simp add: elems_def)
  next
    case Nil
    then show ?thesis unfolding splits_tl Nil by simp
  qed
  ultimately show ?thesis using assms by (simp add: elems_def)
qed

section \<open>One step of the walk\<close>

lemma slash_not_0 [simp]: "slash \<noteq> 0"
  by (simp add: slash_def)

lemma cstr_dropWhile_slash: "cstr (dropWhile (\<lambda>c. c = slash) p) = dropWhile (\<lambda>c. c = slash) (cstr p)"
  by (induction p) auto

lemma cstr_dropWhile_elem:
  "cstr (dropWhile (\<lambda>c. c \<noteq> slash \<and> c \<noteq> 0) p) = dropWhile (\<lambda>c. c \<noteq> slash) (cstr p)"
  by (induction p) auto

lemma takeWhile_elem: "takeWhile (\<lambda>c. c \<noteq> slash \<and> c \<noteq> 0) p = takeWhile (\<lambda>c. c \<noteq> slash) (cstr p)"
  by (induction p) auto

lemma cstr_whole: "0 \<notin> set p \<Longrightarrow> cstr p = p" "0 \<notin> set p \<Longrightarrow> cstr (p @ 0 # q) = p"
  by (induction p) auto

text \<open>
  C29: \<^verbatim>\<open>skipelem\<close> parses paths. It fails exactly when the path has no further element; otherwise it
  stores the next element, cut to the 14 characters a directory entry holds, and returns a rest
  whose elements are the remaining ones.
\<close>

theorem skipelem_next:
  "case skipelem path name of
     None \<Rightarrow> elems (cstr path) = []
   | Some (path', name') \<Rightarrow>
       \<exists>e. elems (cstr path) = e # elems (cstr path') \<and> cstr name' = take DIRSIZ e"
proof -
  define p where "p = dropWhile (\<lambda>c. c = slash) path"
  have el: "elems (cstr p) = elems (cstr path)" by (simp add: p_def cstr_dropWhile_slash)
  show ?thesis
  proof (cases "deref p = 0")
    case True
    then have "cstr p = []" by (simp add: cstr_Nil_iff)
    then have "elems (cstr path) = []" using el by simp
    moreover have "skipelem path name = None" using True by (simp add: skipelem_def p_def)
    ultimately show ?thesis by simp
  next
    case False
    then obtain c q where p: "p = c # q" "c \<noteq> 0" by (rule deref_NonzeroE)
    have c: "c \<noteq> slash" using hd_dropWhile [of "\<lambda>c. c = slash" path] p unfolding p_def by force
    define e where "e = takeWhile (\<lambda>c. c \<noteq> slash) (cstr p)"
    define r where "r = dropWhile (\<lambda>c. c = slash) (dropWhile (\<lambda>c. c \<noteq> slash \<and> c \<noteq> 0) p)"
    define n where "n = (if length e \<ge> DIRSIZ then take DIRSIZ e else e @ [0] @ drop (length e + 1) name)"
    have "skipelem path name = Some (r, n)"
      using False by (simp add: skipelem_def p_def [symmetric] r_def n_def e_def takeWhile_elem Let_def)
    moreover have "elems (cstr path) = e # elems (cstr r)"
      using elems_Cons [OF c, of "cstr q"] p el c
      by (simp add: e_def r_def cstr_dropWhile_slash cstr_dropWhile_elem)
    moreover have "0 \<notin> set e"
      unfolding e_def using set_takeWhileD [of 0 "\<lambda>c. c \<noteq> slash" "cstr p"] by (auto simp: cstr_def dest: set_takeWhileD)
    then have "cstr n = take DIRSIZ e"
      using cstr_whole(1) [of "take DIRSIZ e"] cstr_whole(2) [of e] in_set_takeD [of 0 DIRSIZ e] by (auto simp: n_def)
    ultimately show ?thesis by simp
  qed
qed

end
