(* ===== verification/Lru.thy ===== *)
theory Lru
  imports Boot
begin

text \<open>
  The doubly linked list of the buffer cache is a list of buffers in order of their last
  release. The two searches of \<^verbatim>\<open>bget\<close> follow the links, end, and are searches of that list
  from its two ends; \<^verbatim>\<open>brelse\<close> moves a buffer to its front.
\<close>

section \<open>Chains of buffers\<close>

text \<open>From \<open>a\<close> the links lead through \<open>xs\<close> to \<open>z\<close>, and back.\<close>

fun dchain :: "(nat \<Rightarrow> buf) \<Rightarrow> nat \<Rightarrow> nat list \<Rightarrow> nat \<Rightarrow> bool" where
  "dchain B a [] z \<longleftrightarrow> b_next (B a) = z \<and> b_prev (B z) = a"
| "dchain B a (x # xs) z \<longleftrightarrow> b_next (B a) = x \<and> b_prev (B x) = a \<and> dchain B x xs z"

definition lru :: "(nat \<Rightarrow> buf) \<Rightarrow> nat list \<Rightarrow> bool" where
  "lru B xs \<longleftrightarrow> distinct (bhead # xs) \<and> dchain B bhead xs bhead"

lemma dchain_append: "dchain B a (xs @ y # ys) z \<longleftrightarrow> dchain B a xs y \<and> dchain B y ys z"
  by (induction xs arbitrary: a) auto

lemma dchain_cong:
  "\<lbrakk>dchain B a xs z; \<And>x. x \<in> set (a # xs) \<Longrightarrow> b_next (C x) = b_next (B x);
    \<And>x. x \<in> set (xs @ [z]) \<Longrightarrow> b_prev (C x) = b_prev (B x)\<rbrakk> \<Longrightarrow> dchain C a xs z"
  by (induction xs arbitrary: a) auto

lemma dchain_first: "dchain B a xs z \<Longrightarrow> b_next (B a) = hd (xs @ [z])"
  by (cases xs) auto

lemma dchain_last: "dchain B a xs z \<Longrightarrow> b_prev (B z) = last (a # xs)"
  by (induction xs arbitrary: a) auto

lemma lru_data_cong:
  "lru B xs \<Longrightarrow> (\<And>b. b_next (C b) = b_next (B b) \<and> b_prev (C b) = b_prev (B b)) \<Longrightarrow> lru C xs"
  unfolding lru_def by (auto intro: dchain_cong)

section \<open>Relinking\<close>

lemma link_front_lru:
  assumes "lru (bufs s) xs" "b \<noteq> bhead" "b \<notin> set xs"
  shows "lru (bufs (link_front b s)) (b # xs)"
proof -
  let ?h = "bhead" and ?f = "b_next (bufs s bhead)"
  have ch: "dchain (bufs s) ?h xs ?h" and d: "distinct (?h # xs)" using assms(1) by (simp_all add: lru_def)
  have f: "?f \<noteq> b" using dchain_first [OF ch] assms(2,3) by (cases xs) auto
  have nx: "b_next (bufs (link_front b s) x) = (if x = ?h then b else if x = b then ?f else b_next (bufs s x))" for x
    using assms(2) by (auto simp: link_front_def upd_buf_def Let_def)
  have pv: "b_prev (bufs (link_front b s) x) = (if x = ?f then b else if x = b then ?h else b_prev (bufs s x))" for x
    using assms(2) f by (auto simp: link_front_def upd_buf_def Let_def)
  have "dchain (bufs (link_front b s)) b xs ?h"
  proof (cases xs)
    case Nil
    with dchain_first [OF ch] show ?thesis using assms(2) by (simp add: nx pv)
  next
    case (Cons y ys)
    then have fy: "?f = y" using ch by simp
    have "dchain (bufs (link_front b s)) y ys ?h"
      by (rule dchain_cong [of "bufs s"]) (use ch Cons d assms(2,3) in \<open>auto simp: nx pv fy\<close>)
    then show ?thesis using Cons fy assms(2) by (simp add: nx pv)
  qed
  moreover have "b_next (bufs (link_front b s) ?h) = b" "b_prev (bufs (link_front b s) b) = ?h" using f by (simp_all add: nx pv)
  ultimately show ?thesis using d assms(2,3) by (auto simp: lru_def)
qed

lemma dchain_join:
  assumes "dchain B a as b" "dchain B b bs z" "distinct (a # as @ bs)" "z \<notin> set (as @ bs)"
    and "\<And>x. x \<in> set (a # as @ bs) \<Longrightarrow> b_next (C x) = (if x = last (a # as) then hd (bs @ [z]) else b_next (B x))"
    and "\<And>x. x \<in> set (as @ bs @ [z]) \<Longrightarrow> b_prev (C x) = (if x = hd (bs @ [z]) then last (a # as) else b_prev (B x))"
  shows "dchain C a (as @ bs) z"
  using assms
proof (induction as arbitrary: a)
  case Nil
  note prems = Nil
  show ?case
  proof (cases bs)
    case Nil
    with prems(5) [of a] prems(6) [of z] show ?thesis by simp
  next
    case (Cons y ys)
    have "dchain C y ys z"
      by (rule dchain_cong [of B]) (use prems Cons in \<open>auto\<close>)
    with Cons prems(5) [of a] prems(6) [of y] show ?thesis by simp
  qed
next
  case (Cons x as)
  have l: "last (x # as) \<noteq> a" "hd (bs @ [z]) \<noteq> x"
    using Cons.prems(3,4) last_in_set [of "x # as"] hd_in_set [of "bs @ [z]"] by auto
  have "dchain C x (as @ bs) z"
  proof (rule Cons.IH)
    show "b_next (C y) = (if y = last (x # as) then hd (bs @ [z]) else b_next (B y))" if "y \<in> set (x # as @ bs)" for y
      using Cons.prems(5) [of y] that by simp
    show "b_prev (C y) = (if y = hd (bs @ [z]) then last (x # as) else b_prev (B y))" if "y \<in> set (as @ bs @ [z])" for y
      using Cons.prems(6) [of y] that by simp
  qed (use Cons.prems(1-4) in auto)
  then show ?case using Cons.prems(1) Cons.prems(5) [of a] Cons.prems(6) [of x] l by simp
qed

lemma unlink_lru:
  assumes "lru (bufs s) (as @ b # bs)"
  shows "lru (bufs (unlink b s)) (as @ bs)"
proof -
  let ?h = "bhead" and ?p = "b_prev (bufs s b)" and ?n = "b_next (bufs s b)"
  have ch: "dchain (bufs s) ?h as b" "dchain (bufs s) b bs ?h" and d: "distinct (?h # as @ b # bs)"
    using assms by (simp_all add: lru_def dchain_append)
  have p: "?p = last (?h # as)" and n: "?n = hd (bs @ [?h])" using dchain_last [OF ch(1)] dchain_first [OF ch(2)] by simp_all
  have pb: "?p \<noteq> b" "?n \<noteq> b" using p n d last_in_set [of "?h # as"] hd_in_set [of "bs @ [?h]"] by auto
  have nx: "b_next (bufs (unlink b s) x) = (if x = ?p then ?n else b_next (bufs s x))" for x
    using pb by (auto simp: unlink_def upd_buf_def Let_def)
  have pv: "b_prev (bufs (unlink b s) x) = (if x = ?n then ?p else b_prev (bufs s x))" for x
    using pb by (auto simp: unlink_def upd_buf_def Let_def)
  have "dchain (bufs (unlink b s)) ?h (as @ bs) ?h"
    by (rule dchain_join [OF ch]) (use d in \<open>auto simp: nx pv p n\<close>)
  then show ?thesis using d by (auto simp: lru_def)
qed

text \<open>What a buffer holds, besides its links.\<close>

definition payload :: "buf \<Rightarrow> u32 \<times> u32 \<times> u32 \<times> u32 \<times> u8 list" where
  "payload u = (b_flags u, b_dev u, b_blockno u, b_refcnt u, b_data u)"

lemma payload_links [simp]: "payload (u\<lparr>b_next := n\<rparr>) = payload u" "payload (u\<lparr>b_prev := n\<rparr>) = payload u"
  by (simp_all add: payload_def)

lemma payload_upd_buf:
  "(\<And>u. payload (f u) = payload u) \<Longrightarrow> payload (bufs (upd_buf b f s) c) = payload (bufs s c)"
  by (simp add: upd_buf_def)

lemma payload_relink [simp]:
  "payload (bufs (link_front b s) c) = payload (bufs s c)"
  "payload (bufs (unlink b s) c) = payload (bufs s c)"
  by (simp_all add: link_front_def unlink_def Let_def payload_upd_buf)

lemma relink_lru:
  assumes "lru (bufs s) xs" "b \<in> set xs"
  shows "lru (bufs (link_front b (unlink b s))) (b # remove1 b xs)"
proof -
  obtain as bs where xs: "xs = as @ b # bs" "b \<notin> set as" using split_list_first [OF assms(2)] by blast
  have d: "distinct (bhead # xs)" using assms(1) by (simp add: lru_def)
  have "lru (bufs (unlink b s)) (as @ bs)" using unlink_lru assms(1) xs(1) by blast
  moreover have "b \<noteq> bhead" "b \<notin> set (as @ bs)" using d xs by auto
  ultimately have "lru (bufs (link_front b (unlink b s))) (b # as @ bs)" by (rule link_front_lru)
  then show ?thesis using xs by (simp add: remove1_append)
qed

text \<open>
  C26: Unlinking a buffer and linking it in after the head, as \<^verbatim>\<open>brelse\<close> does with the last
  reference, moves the buffer to the front of the list wherever it stood, keeps the order of
  the others, and changes nothing but links.
\<close>

theorem relink_moves_front:
  assumes "lru (bufs s) xs" "b \<in> set xs"
  shows "lru (bufs (link_front b (unlink b s))) (b # remove1 b xs) \<and>
    (\<forall>c. payload (bufs (link_front b (unlink b s)) c) = payload (bufs s c))"
  using relink_lru [OF assms] by simp

section \<open>Searching\<close>

lemma find_cached_list:
  assumes "dchain (bufs s) a xs bhead" "bhead \<notin> set xs" "length xs < n"
  shows "find_cached n (b_next (bufs s a)) dev blockno s =
    Ok (List.find (\<lambda>b. b_dev (bufs s b) = dev \<and> b_blockno (bufs s b) = blockno) xs) s"
  using assms
proof (induction xs arbitrary: a n)
  case Nil
  then show ?case by (cases n) auto
next
  case (Cons x xs)
  then obtain m where "n = Suc m" by (cases n) auto
  with Cons show ?case by auto
qed

lemma dchain_rev: "dchain (\<lambda>b. (B b)\<lparr>b_next := b_prev (B b), b_prev := b_next (B b)\<rparr>) z (rev xs) a \<longleftrightarrow> dchain B a xs z"
proof (induction xs arbitrary: a)
  case (Cons x xs)
  then show ?case by (auto simp: dchain_append)
qed auto

lemma find_unused_list:
  assumes "dchain (\<lambda>b. (bufs s b)\<lparr>b_next := b_prev (bufs s b), b_prev := b_next (bufs s b)\<rparr>) a xs bhead"
    and "bhead \<notin> set xs" "length xs < n"
  shows "find_unused n (b_prev (bufs s a)) s =
    Ok (List.find (\<lambda>b. b_refcnt (bufs s b) = 0 \<and> b_flags (bufs s b) AND B_DIRTY = 0) xs) s"
  using assms
proof (induction xs arbitrary: a n)
  case Nil
  then show ?case by (cases n) auto
next
  case (Cons x xs)
  then obtain m where "n = Suc m" by (cases n) auto
  with Cons show ?case by auto
qed

text \<open>
  C25: The searches of \<^verbatim>\<open>bget\<close> end and find the right buffer: the first, in order of last release, that
  holds the wanted block, or else the clean unreferenced buffer that was released longest ago.
\<close>

theorem bget_searches_end:
  assumes "lru (bufs s) xs" "length xs = NBUF"
  shows "find_cached (Suc NBUF) (b_next (bufs s bhead)) dev blockno s =
      Ok (List.find (\<lambda>b. b_dev (bufs s b) = dev \<and> b_blockno (bufs s b) = blockno) xs) s \<and>
    find_unused (Suc NBUF) (b_prev (bufs s bhead)) s =
      Ok (List.find (\<lambda>b. b_refcnt (bufs s b) = 0 \<and> b_flags (bufs s b) AND B_DIRTY = 0) (rev xs)) s"
  using assms find_cached_list [of s bhead xs "Suc NBUF"] find_unused_list [of s bhead "rev xs" "Suc NBUF"]
  by (auto simp: lru_def dchain_rev)

section \<open>The list after initialisation\<close>

lemma initlock_bufs [simp]: "bufs (initlock L nm s) = bufs s" "bufs (initsleeplock lk nm s) = bufs s"
  by (simp_all add: initlock_def initsleeplock_def upd_slock_def set_lock_def)

lemma binit_lru: "lru (bufs (binit s)) (rev [0..<NBUF])"
proof -
  let ?s = "upd_buf bhead (\<lambda>u. u\<lparr>b_prev := bhead, b_next := bhead\<rparr>) (initlock BcacheLock ''bcache'' s)"
  have "n \<le> NBUF \<Longrightarrow> lru (bufs (fold (\<lambda>b s. link_front b (initsleeplock (BufLock b) ''buffer'' s)) [0..<n] ?s)) (rev [0..<n])" for n
  proof (induction n)
    case 0
    show ?case by (simp add: lru_def upd_buf_def)
  next
    case (Suc n)
    then show ?case by (auto intro: link_front_lru)
  qed
  then show ?thesis by (simp add: binit_def Let_def)
qed

lemma blank_links [simp]:
  "b_next (blank_buf n) = (if n = NBUF then 0 else Suc n)" "b_prev (blank_buf n) = (if n = 0 then NBUF else n - 1)"
  by (simp_all add: blank_buf_def)

lemma blank_chain: "m \<le> n \<Longrightarrow> n < NBUF \<Longrightarrow> dchain blank_buf m [Suc m..<n] n \<or> m = n"
proof (induction n)
  case (Suc n)
  show ?case
  proof (cases "m = n \<or> m = Suc n")
    case False
    with Suc have "dchain blank_buf m [Suc m..<n] n" "Suc m \<le> n" by auto
    then show ?thesis using Suc.prems by (simp add: dchain_append)
  qed (use Suc.prems in auto)
qed simp

lemma blank_lru: "lru blank_buf [0..<NBUF]"
proof -
  have l: "0 < (29::nat)" "NBUF = Suc 29" by (simp_all add: kernel_defs)
  have "dchain blank_buf 0 [Suc 0..<29] 29" using blank_chain [of 0 29] by (simp add: kernel_defs)
  moreover have "[0..<NBUF] = [] @ 0 # [Suc 0..<29] @ 29 # []" using l by (simp add: upt_conv_Cons)
  ultimately show ?thesis
    by (simp only: lru_def dchain_append dchain.simps) (simp add: kernel_defs)
qed

lemma bget_searches_end_witness:
  "find_cached (Suc NBUF) (b_next (bufs (idle_state two_waiting 9 1) bhead)) 1 5 (idle_state two_waiting 9 1) =
      Ok None (idle_state two_waiting 9 1) \<and>
    find_unused (Suc NBUF) (b_prev (bufs (idle_state two_waiting 9 1) bhead)) (idle_state two_waiting 9 1) =
      Ok (Some 29) (idle_state two_waiting 9 1)"
proof -
  have "List.find (\<lambda>b. b_dev (blank_buf b) = 1 \<and> b_blockno (blank_buf b) = 5) [0..<NBUF] = None"
    by (simp add: find_None_iff blank_buf_def)
  moreover have "List.find (\<lambda>b. b_refcnt (blank_buf b) = 0 \<and> b_flags (blank_buf b) AND B_DIRTY = 0) (rev [0..<NBUF]) = Some 29"
    by (simp add: kernel_defs upt_rec blank_buf_def)
  ultimately show ?thesis
    using bget_searches_end [of "idle_state two_waiting 9 1" "[0..<NBUF]" 1 5] blank_lru
    by (simp del: find_cached.simps find_unused.simps)
qed

lemma relink_moves_front_witness:
  "lru (bufs (link_front 7 (unlink 7 (idle_state two_waiting 9 1)))) (7 # remove1 7 [0..<NBUF])"
  using relink_moves_front [of "idle_state two_waiting 9 1" "[0..<NBUF]" 7] blank_lru by (simp add: kernel_defs)

end
