(* ===== verification/Calm.thy ===== *)
theory Calm
  imports Lru
begin

text \<open>
  Total correctness of the code below the log on a quiet machine: a process runs with
  interrupts on and no spin lock is held. Then sleep locks are taken and given back at once,
  and a disk request is started, waited for and finished by its interrupt.
\<close>

section \<open>Code that yields\<close>

fun yields :: "('a \<Rightarrow> 's \<Rightarrow> bool) \<Rightarrow> ('a, 's) res \<Rightarrow> bool" where
  "yields P (Ok a t) \<longleftrightarrow> P a t"
| "yields P r \<longleftrightarrow> False"

lemma yields_bind:
  "\<lbrakk>yields P r; \<And>a t. P a t \<Longrightarrow> yields Q (f a t)\<rbrakk> \<Longrightarrow> yields Q (bind r f)"
  by (cases r) simp_all

lemma yields_last: "yields Q (bind r Ok) \<Longrightarrow> yields Q r"
  by (cases r) simp_all

lemma yields_mono: "\<lbrakk>yields P r; \<And>a t. P a t \<Longrightarrow> Q a t\<rbrakk> \<Longrightarrow> yields Q r"
  by (cases r) simp_all

lemma yields_iff: "yields P r \<longleftrightarrow> (\<exists>a t. r = Ok a t \<and> P a t)"
  by (cases r) simp_all

section \<open>The locks held and the interrupt bookkeeping\<close>

definition held_at :: "lock_id set \<Rightarrow> int \<Rightarrow> bool \<Rightarrow> bool \<Rightarrow> nat \<Rightarrow> 'z machine_scheme \<Rightarrow> bool" where
  "held_at H n i e me s \<longleftrightarrow>
     (\<forall>L \<in> H. holding L s) \<and> (\<forall>L. L \<notin> H \<longrightarrow> free_lock (locks s L)) \<and>
     ncli (cpu s) = n \<and> iflag (cpu s) = i \<and> intena (cpu s) = e \<and> cpu_proc (cpu s) = Some me"

lemma mach_cong:
  "\<lbrakk>cpus t = cpus s; locks t = locks s; cur t = cur s\<rbrakk> \<Longrightarrow> held_at H n i e me t = held_at H n i e me s"
  by (simp add: held_at_def cpu_def holding_def)

lemma mach_upd [simp]:
  "held_at H n i e me (s\<lparr>ptable := p\<rparr>) = held_at H n i e me s"
  "held_at H n i e me (u\<lparr>slocks := k\<rparr>) = held_at H n i e me u"
  "held_at H n i e me (v\<lparr>bufs := b\<rparr>) = held_at H n i e me v"
  "held_at H n i e me (v\<lparr>idequeue := q\<rparr>) = held_at H n i e me v"
  "held_at H n i e me (v\<lparr>disk := d\<rparr>) = held_at H n i e me v"
  "held_at H n i e me (v\<lparr>disk_sel := x\<rparr>) = held_at H n i e me v"
  "held_at H n i e me (v\<lparr>disk_writes := w\<rparr>) = held_at H n i e me v"
  "held_at H n i e me (upd_proc j g s) = held_at H n i e me s"
  "held_at H n i e me (wakeup1 ch s) = held_at H n i e me s"
  "held_at H n i e me (upd_slock lk h u) = held_at H n i e me u"
  "held_at H n i e me (upd_buf j k' v) = held_at H n i e me v"
  by (rule mach_cong; simp add: upd_slock_def upd_buf_def)+

lemma mach_proc: "held_at H n i e me s \<Longrightarrow> cpu_proc (cpu s) = Some me"
  by (simp add: held_at_def)

lemma with_proc_mach: "held_at H n i e me s \<Longrightarrow> with_proc f s = f me s"
  by (simp add: with_proc_def held_at_def)

lemma mach_acquire:
  assumes "held_at H n i e me s" "L \<notin> H"
  obtains c l where "acquire L s = Ok () (s\<lparr>cpus := c, locks := l\<rparr>)"
    "held_at (insert L H) (n + 1) False (if n = 0 then i else e) me (s\<lparr>cpus := c, locks := l\<rparr>)"
proof -
  have "locked (locks s L) = 0" using assms by (simp add: held_at_def free_lock_def)
  then have a: "acquire L s = Ok () (acq L s)" by (rule acquire_free)
  obtain c l where e: "acq L s = s\<lparr>cpus := c, locks := l\<rparr>" by (rule acq_upd)
  have "held_at (insert L H) (n + 1) False (if n = 0 then i else e) me (acq L s)"
    using assms by (auto simp: held_at_def holding_def)
  with a e that show thesis by simp
qed

lemma mach_release:
  assumes "held_at H n False e me s" "L \<in> H" "1 \<le> n"
  obtains c l where "release L s = Ok () (s\<lparr>cpus := c, locks := l\<rparr>)"
    "held_at (H - {L}) (n - 1) (n = 1 \<and> e) e me (s\<lparr>cpus := c, locks := l\<rparr>)"
proof -
  have a: "release L s = Ok () (rel L s)" using assms by (intro release_held) (auto simp: held_at_def holding_def)
  have e: "rel L s = s\<lparr>cpus := cpus (rel L s), locks := locks (rel L s)\<rparr>"
    by (rule machine.equality) (simp_all add: rel_def machine_defs)
  have "held_at (H - {L}) (n - 1) (n = 1 \<and> e) e me (rel L s)"
    using assms by (auto simp: held_at_def rel_def machine_defs free_lock_def holding_def)
  with a e that show thesis by metis
qed

lemma run_acquire:
  assumes "held_at H n i e me s" "L \<notin> H"
    and "\<And>c l. held_at (insert L H) (n + 1) False (if n = 0 then i else e) me (s\<lparr>cpus := c, locks := l\<rparr>) \<Longrightarrow>
      yields Q (f () (s\<lparr>cpus := c, locks := l\<rparr>))"
  shows "yields Q (bind (acquire L s) f)"
  using mach_acquire [OF assms(1,2)] assms(3) by (metis bind.simps(1))

lemma run_release:
  assumes "held_at H n False e me s" "L \<in> H" "1 \<le> n"
    and "\<And>c l. held_at (H - {L}) (n - 1) (n = 1 \<and> e) e me (s\<lparr>cpus := c, locks := l\<rparr>) \<Longrightarrow>
      yields Q (f () (s\<lparr>cpus := c, locks := l\<rparr>))"
  shows "yields Q (bind (release L s) f)"
  using mach_release [OF assms(1-3)] assms(4) by (metis bind.simps(1))

lemma run_wakeup:
  assumes "held_at H n i e me s" "PtableLock \<notin> H" "0 \<le> n" "i \<Longrightarrow> n = 0"
    and "\<And>c l. held_at H n i (if n = 0 then i else e) me (s\<lparr>cpus := c, locks := l\<rparr>) \<Longrightarrow>
      yields Q (f () (wakeup1 (Some ch) (s\<lparr>cpus := c, locks := l\<rparr>)))"
  shows "yields Q (bind (wakeup ch s) f)"
proof -
  obtain c l where a: "acquire PtableLock s = Ok () (s\<lparr>cpus := c, locks := l\<rparr>)"
    and m: "held_at (insert PtableLock H) (n + 1) False (if n = 0 then i else e) me (s\<lparr>cpus := c, locks := l\<rparr>)"
    by (rule mach_acquire [OF assms(1,2)])
  have m1: "held_at (insert PtableLock H) (n + 1) False (if n = 0 then i else e) me (wakeup1 (Some ch) (s\<lparr>cpus := c, locks := l\<rparr>))"
    using m by simp
  obtain c' l' where r: "release PtableLock (wakeup1 (Some ch) (s\<lparr>cpus := c, locks := l\<rparr>)) =
      Ok () ((wakeup1 (Some ch) (s\<lparr>cpus := c, locks := l\<rparr>))\<lparr>cpus := c', locks := l'\<rparr>)"
    and m2: "held_at (insert PtableLock H - {PtableLock}) (n + 1 - 1) (n + 1 = 1 \<and> (if n = 0 then i else e)) (if n = 0 then i else e) me
      ((wakeup1 (Some ch) (s\<lparr>cpus := c, locks := l\<rparr>))\<lparr>cpus := c', locks := l'\<rparr>)"
    by (rule mach_release [OF m1]) (use assms(3) in auto)
  have w: "(wakeup1 (Some ch) (s\<lparr>cpus := c, locks := l\<rparr>))\<lparr>cpus := c', locks := l'\<rparr> = wakeup1 (Some ch) (s\<lparr>cpus := c', locks := l'\<rparr>)"
    by (simp add: wakeup1_def)
  have "(n + 1 = 1 \<and> (if n = 0 then i else e)) = i" using assms(4) by auto
  then have "held_at H n i (if n = 0 then i else e) me (s\<lparr>cpus := c', locks := l'\<rparr>)"
    using m2 assms(2) unfolding w by simp
  with assms(5) show ?thesis by (simp add: wakeup_def a r w)
qed

section \<open>A quiet machine\<close>

definition calm :: "nat \<Rightarrow> 'z bio_state_scheme \<Rightarrow> bool" where
  "calm me s \<longleftrightarrow> (\<exists>e. held_at {} 0 True e me s) \<and> me < length (ptable s) \<and> p_state (pslot s me) = RUNNING \<and>
     idequeue s = [] \<and> \<not> disk_err s \<and> strategy s \<noteq> 2"

definition busy :: "'z sl_state_scheme \<Rightarrow> sleeplock_id set" where
  "busy s = {lk. sl_locked (slocks s lk) \<noteq> 0}"

text \<open>The part of the state the buffer cache and the code above it depend on.\<close>

definition store :: "'z bio_state_scheme \<Rightarrow>
    (nat \<Rightarrow> buf) \<times> sleeplock_id set \<times> disk \<times> ((u32 \<times> u32) \<times> u8 list) list \<times> bool \<times> 'z" where
  "store s = (bufs s, busy s, disk s, disk_writes s, havedisk1 s, bio_state.more s)"

lemmas quiet_defs = calm_def store_def busy_def

lemma calm_upd_buf [simp]: "calm me (upd_buf b f s) = calm me s"
  by (simp add: calm_def upd_buf_def)

lemma busy_upd_buf [simp]: "busy (upd_buf b f s) = busy s"
  by (simp add: busy_def upd_buf_def)

lemma mach_calm:
  "\<lbrakk>held_at {} 0 True e me s; me < length (ptable s); p_state (pslot s me) = RUNNING; idequeue s = [];
    \<not> disk_err s; strategy s \<noteq> 2\<rbrakk> \<Longrightarrow> calm me s"
  by (auto simp: calm_def)

lemma wakeup1_running [simp]:
  "\<lbrakk>me < length (ptable s); p_state (pslot s me) = RUNNING\<rbrakk> \<Longrightarrow> p_state (pslot (wakeup1 ch s) me) = RUNNING"
  by (simp add: pslot_wakeup1)

lemma bio_wakeup1 [simp]:
  "bufs (wakeup1 ch s) = bufs s" "disk (wakeup1 ch s) = disk s" "disk_writes (wakeup1 ch s) = disk_writes s"
  "havedisk1 (wakeup1 ch s) = havedisk1 s" "bio_state.more (wakeup1 ch s) = bio_state.more s"
  "idequeue (wakeup1 ch s) = idequeue s" "disk_err (wakeup1 ch s) = disk_err s" "disk_sel (wakeup1 ch s) = disk_sel s"
  "slocks (wakeup1 ch u) = slocks u"
  by (simp_all add: wakeup1_def)

lemma holdingsleep_calm:
  assumes "calm me s"
  shows "yields (\<lambda>h t. h = (lk \<in> busy s) \<and> calm me t \<and> store t = store s) (holdingsleep lk s)"
proof -
  obtain e where m: "held_at {} 0 True e me s" using assms by (auto simp: calm_def)
  show ?thesis unfolding holdingsleep_def Let_def
    apply (rule run_acquire [OF m], simp)
    apply (rule run_release, assumption, simp, simp)
    using assms by (auto simp: quiet_defs)
qed

lemma releasesleep_calm:
  assumes "calm me s"
  shows "yields (\<lambda>_ t. calm me t \<and> store t = (bufs s, busy s - {lk}, disk s, disk_writes s, havedisk1 s, bio_state.more s))
    (releasesleep lk s)"
proof -
  obtain e where m: "held_at {} 0 True e me s" using assms by (auto simp: calm_def)
  show ?thesis unfolding releasesleep_def Let_def
    apply (rule run_acquire [OF m], simp)
    apply (rule run_wakeup, simp, simp, simp, simp)
    apply (rule yields_last, rule run_release, simp, simp, simp)
    using assms by (auto simp: quiet_defs upd_slock_def)
qed

lemma acquiresleep_calm:
  assumes "calm me s" "lk \<notin> busy s"
  shows "yields (\<lambda>_ t. calm me t \<and> store t = (bufs s, insert lk (busy s), disk s, disk_writes s, havedisk1 s, bio_state.more s))
    (acquiresleep lk s)"
proof -
  obtain e where m: "held_at {} 0 True e me s" using assms by (auto simp: calm_def)
  show ?thesis unfolding acquiresleep_def
    apply (rule run_acquire [OF m], simp)
    using assms(2) apply (simp add: acquiresleep_loop_def busy_def with_proc_mach)
    apply (rule yields_last, rule run_release, simp, simp, simp)
    using assms by (auto simp: quiet_defs upd_slock_def)
qed

section \<open>Waiting for the disk\<close>

lemma sleep_switches:
  fixes s :: "'z bio_state_scheme"
  assumes "held_at {L} 1 False e me s" "me < length (ptable s)" "strategy s \<noteq> 2" "L \<noteq> PtableLock"
  obtains c l where "(sleep ch (Some L) s :: (unit, 'z bio_state_scheme) res) =
      Switched (upd_proc me (\<lambda>p. p\<lparr>p_chan := Some ch, p_state := SLEEPING\<rparr>) (s\<lparr>cpus := c, locks := l\<rparr>))"
    "held_at {PtableLock} 1 False e me (s\<lparr>cpus := c, locks := l\<rparr>)"
proof -
  obtain c l where a: "acquire PtableLock s = Ok () (s\<lparr>cpus := c, locks := l\<rparr>)"
    and m: "held_at {PtableLock, L} 2 False e me (s\<lparr>cpus := c, locks := l\<rparr>)"
    by (rule mach_acquire [OF assms(1), of PtableLock]) (use assms(4) in auto)
  obtain c' l' where r: "release L (s\<lparr>cpus := c, locks := l\<rparr>) = Ok () (s\<lparr>cpus := c', locks := l'\<rparr>)"
    and m': "held_at ({PtableLock, L} - {L}) 1 False e me (s\<lparr>cpus := c', locks := l'\<rparr>)"
    by (rule mach_release [OF m, of L]) auto
  have H: "{PtableLock, L} - {L} = {PtableLock}" using assms(4) by auto
  let ?t = "upd_proc me (\<lambda>p. p\<lparr>p_chan := Some ch, p_state := SLEEPING\<rparr>) (s\<lparr>cpus := c', locks := l'\<rparr>)"
  have mt: "held_at {PtableLock} 1 False e me ?t" using m' unfolding H by simp
  have st: "p_state (pslot ?t me) = SLEEPING" using assms(2) by (simp add: pslot_upd_proc)
  have "sched ?t = (Switched ?t :: (unit, 'z bio_state_scheme) res)"
    using st assms(3) mt by (simp add: sched_def with_proc_mach [OF mt]) (simp add: held_at_def holding_def)
  then have "(sleep ch (Some L) s :: (unit, 'z bio_state_scheme) res) = Switched ?t"
    using mach_proc [OF assms(1)] assms(4) by (simp add: sleep_def a r)
  with that m' H show thesis by simp
qed

lemma mach_set_iflag: "held_at H n i e me s \<Longrightarrow> held_at H n j e me (set_cpu (\<lambda>c. c\<lparr>iflag := j\<rparr>) s)"
  by (simp add: held_at_def holding_def machine_defs)

lemma mach_resume: "held_at H n i e me s \<Longrightarrow> held_at H n i e' me (sched_resume e' s)"
  by (simp add: held_at_def holding_def sched_resume_def machine_defs)

lemma bio_set_cpu [simp]:
  "bufs (set_cpu f s) = bufs s" "disk (set_cpu f s) = disk s" "disk_writes (set_cpu f s) = disk_writes s"
  "havedisk1 (set_cpu f s) = havedisk1 s" "bio_state.more (set_cpu f s) = bio_state.more s"
  "idequeue (set_cpu f s) = idequeue s" "disk_err (set_cpu f s) = disk_err s" "disk_sel (set_cpu f s) = disk_sel s"
  "slocks (set_cpu f u) = slocks u" "ptable (set_cpu f p) = ptable p" "strategy (set_cpu f p) = strategy p"
  by (simp_all add: machine_defs)

lemma bio_resume [simp]:
  "bufs (sched_resume e s) = bufs s" "disk (sched_resume e s) = disk s" "disk_writes (sched_resume e s) = disk_writes s"
  "havedisk1 (sched_resume e s) = havedisk1 s" "bio_state.more (sched_resume e s) = bio_state.more s"
  "idequeue (sched_resume e s) = idequeue s" "disk_err (sched_resume e s) = disk_err s"
  "slocks (sched_resume e u) = slocks u" "ptable (sched_resume e p) = ptable p" "strategy (sched_resume e p) = strategy p"
  by (simp_all add: sched_resume_def)

lemma bio_upd_proc [simp]:
  "bufs (upd_proc i f s) = bufs s" "disk (upd_proc i f s) = disk s" "disk_writes (upd_proc i f s) = disk_writes s"
  "havedisk1 (upd_proc i f s) = havedisk1 s" "bio_state.more (upd_proc i f s) = bio_state.more s"
  "idequeue (upd_proc i f s) = idequeue s" "disk_err (upd_proc i f s) = disk_err s" "disk_sel (upd_proc i f s) = disk_sel s"
  "slocks (upd_proc i f u) = slocks u"
  by (simp_all add: upd_proc_def)

text \<open>What the interrupt of a finished request does to its buffer.\<close>

definition finish :: "nat \<Rightarrow> 'z bio_state_scheme \<Rightarrow> buf" where
  "finish b s = (bufs s b)
     \<lparr>b_data := (if b_flags (bufs s b) AND B_DIRTY = 0 then disk s (disk_sel s) else b_data (bufs s b)),
      b_flags := (b_flags (bufs s b) OR B_VALID) AND NOT B_DIRTY\<rparr>"

lemma finish_cong [simp]: "finish b (s\<lparr>cpus := c\<rparr>) = finish b s" "finish b (s\<lparr>locks := l\<rparr>) = finish b s"
  "finish b (s\<lparr>idequeue := q\<rparr>) = finish b s"
  by (simp_all add: finish_def)

lemma ideintr_section:
  "\<lbrakk>acquire IdeLock s = Ok () u; idequeue u = [b]; \<not> disk_err u\<rbrakk> \<Longrightarrow>
    ideintr s = bind (wakeup (ChanBuf b) (u\<lparr>idequeue := [], bufs := (bufs u)(b := finish b u)\<rparr>)) (\<lambda>_ s.
      bind (case idequeue s of [] \<Rightarrow> Ok () s | b' # _ \<Rightarrow> idestart b' s) (\<lambda>_ s. release IdeLock s))"
  by (cases "b_flags (bufs u b) AND B_DIRTY = 0") (simp_all add: ideintr_def Let_def upd_buf_def finish_def)

lemma ideintr_finishes:
  assumes "held_at {} 0 False e me s" "idequeue s = [b]" "\<not> disk_err s"
  shows "yields (\<lambda>_ t. held_at {} 0 False False me t \<and> (\<exists>c l.
      t = wakeup1 (Some (ChanBuf b)) (s\<lparr>cpus := c, locks := l, idequeue := [], bufs := (bufs s)(b := finish b s)\<rparr>))) (ideintr s)"
proof -
  obtain c l where a: "acquire IdeLock s = Ok () (s\<lparr>cpus := c, locks := l\<rparr>)"
    and m: "held_at {IdeLock} 1 False False me (s\<lparr>cpus := c, locks := l\<rparr>)"
    by (rule mach_acquire [OF assms(1), of IdeLock]) auto
  show ?thesis
    unfolding ideintr_section [OF a, of b, simplified, OF assms(2,3)]
    apply (rule run_wakeup [of "{IdeLock}" 1 False False me]; (simp add: m)?)
    apply (rule yields_last, rule run_release [of "{IdeLock}" 1 False me]; (simp add: m)?)
    apply (intro exI)
    apply (rule bio_state.equality)
    apply (simp_all add: wakeup1_def)
    done
qed

text \<open>The state after a request for buffer \<open>b\<close> has been waited for, up to the process table.\<close>

definition served :: "nat \<Rightarrow> 'z bio_state_scheme \<Rightarrow> 'z bio_state_scheme \<Rightarrow> bool" where
  "served b s t \<longleftrightarrow> (\<exists>c l p. t = s\<lparr>cpus := c, locks := l, ptable := p, idequeue := [], bufs := (bufs s)(b := finish b s)\<rparr> \<and>
     length p = length (ptable s))"

lemma disk_interrupts_one:
  assumes "held_at {} 0 True e me s" "idequeue s = [b]" "\<not> disk_err s" "me < length (ptable s)"
    "p_state (pslot s me) = SLEEPING" "p_chan (pslot s me) = Some (ChanBuf b)"
  shows "yields (\<lambda>_ t. held_at {} 0 True False me t \<and> served b s t) (disk_interrupts (Suc (Suc n)) me s)"
proof -
  let ?u = "set_cpu (\<lambda>c. c\<lparr>iflag := False\<rparr>) s"
  have u: "?u = s\<lparr>cpus := cpus ?u\<rparr>" by (simp add: machine_defs)
  have m: "held_at {} 0 False e me ?u" by (rule mach_set_iflag [OF assms(1)])
  obtain t c l where i: "ideintr ?u = Ok () t" and mt: "held_at {} 0 False False me t"
    and t: "t = wakeup1 (Some (ChanBuf b)) (?u\<lparr>cpus := c, locks := l, idequeue := [], bufs := (bufs ?u)(b := finish b ?u)\<rparr>)"
    using ideintr_finishes [OF m, of b] assms(2,3) by (auto simp: yields_iff)
  have r: "p_state (pslot t me) = RUNNABLE" using assms(4-6) by (simp add: t pslot_wakeup1)
  have f: "finish b ?u = finish b s" by (simp add: finish_def)
  let ?t = "set_cpu (\<lambda>c. c\<lparr>iflag := True\<rparr>) t"
  have "?t = s\<lparr>cpus := cpus ?t, locks := l, ptable := ptable t, idequeue := [], bufs := (bufs s)(b := finish b s)\<rparr>"
    by (rule bio_state.equality) (simp_all add: t f set_cpu_def wakeup1_def)
  then have "served b s ?t" unfolding served_def by (intro exI conjI) (assumption, simp add: t)
  moreover have "held_at {} 0 True False me ?t" by (rule mach_set_iflag [OF mt])
  ultimately show ?thesis using assms(2,5) by (simp add: i r)
qed

lemma reschedule_served:
  assumes "held_at {PtableLock} 1 False True me s" "idequeue s = [b]" "\<not> disk_err s" "me < length (ptable s)"
    "p_state (pslot s me) = SLEEPING" "p_chan (pslot s me) = Some (ChanBuf b)"
  shows "yields (\<lambda>_ t. held_at {PtableLock} 1 False True me t \<and> served b s t \<and> p_state (pslot t me) = RUNNING) (reschedule me s)"
proof -
  obtain c l where r: "release PtableLock s = Ok () (s\<lparr>cpus := c, locks := l\<rparr>)"
    and m: "held_at {} 0 True True me (s\<lparr>cpus := c, locks := l\<rparr>)"
    by (rule mach_release [OF assms(1), of PtableLock]) auto
  let ?u = "set_cpu (\<lambda>c. c\<lparr>iflag := True\<rparr>) (s\<lparr>cpus := c, locks := l\<rparr>)"
  have u: "?u = s\<lparr>cpus := cpus ?u, locks := l\<rparr>" by (rule machine.equality) (simp_all add: machine_defs)
  obtain t where d: "disk_interrupts (Suc (Suc NBUF)) me ?u = Ok () t" and mt: "held_at {} 0 True False me t" and st: "served b ?u t"
    using disk_interrupts_one [OF mach_set_iflag [OF m], of b NBUF] assms by (auto simp: yields_iff simp del: disk_interrupts.simps)
  obtain c' l' where a: "acquire PtableLock t = Ok () (t\<lparr>cpus := c', locks := l'\<rparr>)"
    and ma: "held_at {PtableLock} 1 False True me (t\<lparr>cpus := c', locks := l'\<rparr>)"
    by (rule mach_acquire [OF mt, of PtableLock]) auto
  obtain c2 l2 p where t: "t = ?u\<lparr>cpus := c2, locks := l2, ptable := p, idequeue := [], bufs := (bufs ?u)(b := finish b ?u)\<rparr>"
    and p: "length p = length (ptable s)" using st by (auto simp: served_def)
  have f: "finish b ?u = finish b s" by (simp add: finish_def)
  let ?t = "upd_proc me (\<lambda>p. p\<lparr>p_myquantum := 0, p_state := RUNNING\<rparr>) (t\<lparr>cpus := c', locks := l'\<rparr>)"
  have "?t = s\<lparr>cpus := c', locks := l', ptable := ptable ?t, idequeue := [], bufs := (bufs s)(b := finish b s)\<rparr>"
    by (rule bio_state.equality) (simp_all add: t f upd_proc_def set_cpu_def)
  then have "served b s ?t" unfolding served_def by (intro exI conjI) (assumption, simp add: t p)
  moreover have "p_state (pslot ?t me) = RUNNING" using assms(4) p by (simp add: pslot_upd_proc t)
  ultimately show ?thesis using ma by (simp add: reschedule_def r d a del: disk_interrupts.simps)
qed

lemma ide_sleep_served:
  fixes s :: "'z bio_state_scheme"
  assumes "held_at {IdeLock} 1 False True me s" "idequeue s = [b]" "\<not> disk_err s" "me < length (ptable s)" "strategy s \<noteq> 2"
  shows "yields (\<lambda>_ t. held_at {IdeLock} 1 False True me t \<and> served b s t \<and> p_state (pslot t me) = RUNNING) (ide_sleep b s)"
proof -
  obtain c l where sl: "(sleep (ChanBuf b) (Some IdeLock) s :: (unit, 'z bio_state_scheme) res) =
      Switched (upd_proc me (\<lambda>p. p\<lparr>p_chan := Some (ChanBuf b), p_state := SLEEPING\<rparr>) (s\<lparr>cpus := c, locks := l\<rparr>))"
    and m: "held_at {PtableLock} 1 False True me (s\<lparr>cpus := c, locks := l\<rparr>)"
    by (rule sleep_switches [OF assms(1,4,5), of "ChanBuf b"]) auto
  let ?u = "upd_proc me (\<lambda>p. p\<lparr>p_chan := Some (ChanBuf b), p_state := SLEEPING\<rparr>) (s\<lparr>cpus := c, locks := l\<rparr>)"
  have mu: "held_at {PtableLock} 1 False True me ?u" using m by simp
  have e: "intena (cpu ?u)" using mu by (simp add: held_at_def)
  obtain t where r: "reschedule me ?u = Ok () t" and mt: "held_at {PtableLock} 1 False True me t"
    and st: "served b ?u t" and rt: "p_state (pslot t me) = RUNNING"
    using reschedule_served [OF mu, of b] assms(2-4) by (auto simp: yields_iff pslot_upd_proc)
  let ?v = "upd_proc me (\<lambda>p. p\<lparr>p_chan := None\<rparr>) (sched_resume True t)"
  have mv: "held_at {PtableLock} 1 False True me ?v" using mach_resume [OF mt, of True] by simp
  obtain c1 l1 where rv: "release PtableLock ?v = Ok () (?v\<lparr>cpus := c1, locks := l1\<rparr>)"
    and m1: "held_at {} 0 True True me (?v\<lparr>cpus := c1, locks := l1\<rparr>)"
    by (rule mach_release [OF mv, of PtableLock]) auto
  obtain c2 l2 where av: "acquire IdeLock (?v\<lparr>cpus := c1, locks := l1\<rparr>) = Ok () (?v\<lparr>cpus := c2, locks := l2\<rparr>)"
    and m2: "held_at {IdeLock} 1 False True me (?v\<lparr>cpus := c2, locks := l2\<rparr>)"
    by (rule mach_acquire [OF m1, of IdeLock]) auto
  have res: "sleep_resume True IdeLock t = Ok () (?v\<lparr>cpus := c2, locks := l2\<rparr>)"
    by (simp add: sleep_resume_def Let_def with_proc_mach [OF mach_resume [OF mt]] rv av)
  have "ide_sleep b s = Ok () (?v\<lparr>cpus := c2, locks := l2\<rparr>)"
    using e by (simp add: ide_sleep_def sl with_proc_mach [OF mu] r res)
  moreover obtain c3 l3 p3 where t: "t = ?u\<lparr>cpus := c3, locks := l3, ptable := p3, idequeue := [], bufs := (bufs ?u)(b := finish b ?u)\<rparr>"
    and p3: "length p3 = length (ptable s)" using st by (auto simp: served_def)
  moreover have "finish b ?u = finish b s" by (simp add: finish_def)
  moreover have "served b s (?v\<lparr>cpus := c2, locks := l2\<rparr>)" unfolding served_def
    by (rule exI [of _ c2], rule exI [of _ l2], rule exI [of _ "ptable ?v"])
      (use calculation in \<open>auto intro!: bio_state.equality simp: upd_proc_def sched_resume_def set_cpu_def\<close>)
  moreover have "p_state (pslot (?v\<lparr>cpus := c2, locks := l2\<rparr>) me) = RUNNING"
    using rt assms(4) p3 by (simp add: pslot_upd_proc t)
  ultimately show ?thesis using m2 by simp
qed

text \<open>What a disk request amounts to: a dirty buffer is written, another one is read.\<close>

definition sector :: "buf \<Rightarrow> u32 \<times> u32" where
  "sector u = (b_dev u AND 1, b_blockno u)"

definition transfer :: "nat \<Rightarrow> 'z bio_state_scheme \<Rightarrow>
    (nat \<Rightarrow> buf) \<times> sleeplock_id set \<times> disk \<times> ((u32 \<times> u32) \<times> u8 list) list \<times> bool \<times> 'z" where
  "transfer b s =
     (let u = bufs s b; flags = (b_flags u OR B_VALID) AND NOT B_DIRTY in
      if b_flags u AND B_DIRTY \<noteq> 0
      then ((bufs s)(b := u\<lparr>b_flags := flags\<rparr>), busy s, (disk s)(sector u := b_data u),
        disk_writes s @ [(sector u, b_data u)], havedisk1 s, bio_state.more s)
      else ((bufs s)(b := u\<lparr>b_data := disk s (sector u), b_flags := flags\<rparr>), busy s, disk s,
        disk_writes s, havedisk1 s, bio_state.more s))"

lemma transfer_cong: "store t = store s \<Longrightarrow> transfer b t = transfer b s"
  by (simp add: store_def transfer_def Let_def)

lemma idestart_section:
  assumes "b_blockno (bufs s b) < FSSIZE"
  shows "idestart b s = (let u = bufs s b; s' = s\<lparr>disk_sel := sector u\<rparr> in
    Ok () (if b_flags u AND B_DIRTY \<noteq> 0
      then s'\<lparr>disk := (disk s)(sector u := b_data u), disk_writes := disk_writes s @ [(sector u, b_data u)]\<rparr> else s'))"
  using assms by (simp add: idestart_def sector_def Let_def not_le)

lemma flag_bits: "bit B_VALID n \<longleftrightarrow> n = 1" "bit B_DIRTY n \<longleftrightarrow> n = 2"
proof -
  have "bit (2 ^ k :: u32) n \<longleftrightarrow> n = k" if "k < 32" for k using that by (auto simp: bit_exp_iff)
  from this [of 1] this [of 2] show "bit B_VALID n \<longleftrightarrow> n = 1" "bit B_DIRTY n \<longleftrightarrow> n = 2"
    by (simp_all add: B_VALID_def B_DIRTY_def)
qed

lemma flags_done [simp]: "(((w :: u32) OR B_VALID) AND NOT B_DIRTY) AND (B_VALID OR B_DIRTY) = B_VALID"
  by (rule bit_word_eqI) (auto simp: bit_or_iff bit_and_iff bit_not_iff flag_bits)

lemma iderw_calm:
  assumes "calm me s" "BufLock b \<in> busy s" "b_flags (bufs s b) AND (B_VALID OR B_DIRTY) \<noteq> B_VALID"
    "b_dev (bufs s b) = 0 \<or> havedisk1 s" "b_blockno (bufs s b) < FSSIZE"
  shows "yields (\<lambda>_ t. calm me t \<and> store t = transfer b s) (iderw b s)"
proof -
  obtain t where h: "holdingsleep (BufLock b) s = Ok True t" and t: "calm me t" "store t = store s"
    using holdingsleep_calm [OF assms(1), of "BufLock b"] assms(2) by (auto simp: yields_iff)
  let ?u = "bufs s b"
  have bt: "bufs t = bufs s" "havedisk1 t = havedisk1 s" using t(2) by (simp_all add: store_def)
  obtain e where m: "held_at {} 0 True e me t" using t(1) by (auto simp: calm_def)
  obtain c l where a: "acquire IdeLock t = Ok () (t\<lparr>cpus := c, locks := l\<rparr>)"
    and ma: "held_at {IdeLock} 1 False True me (t\<lparr>cpus := c, locks := l\<rparr>)"
    by (rule mach_acquire [OF m, of IdeLock]) auto
  let ?v = "t\<lparr>cpus := c, locks := l, idequeue := [b], disk_sel := sector ?u\<rparr>"
  define w where "w = (if b_flags ?u AND B_DIRTY \<noteq> 0
    then ?v\<lparr>disk := (disk t)(sector ?u := b_data ?u), disk_writes := disk_writes t @ [(sector ?u, b_data ?u)]\<rparr> else ?v)"
  have i: "idestart b (t\<lparr>cpus := c, locks := l, idequeue := [b]\<rparr>) = Ok () w"
    using assms(5) by (simp add: idestart_section bt w_def Let_def)
  have mw: "held_at {IdeLock} 1 False True me w" using ma by (simp add: w_def)
  have w: "idequeue w = [b]" "disk_err w = disk_err t" "ptable w = ptable t" "strategy w = strategy t" "bufs w = bufs s"
    by (simp_all add: w_def bt)
  obtain x where sl: "ide_sleep b w = Ok () x" and mx: "held_at {IdeLock} 1 False True me x"
    and sx: "served b w x" and rx: "p_state (pslot x me) = RUNNING"
    using ide_sleep_served [OF mw, of b] t(1) w by (auto simp: calm_def yields_iff)
  obtain c' l' p where x: "x = w\<lparr>cpus := c', locks := l', ptable := p, idequeue := [], bufs := (bufs w)(b := finish b w)\<rparr>"
    and p: "length p = length (ptable w)" using sx by (auto simp: served_def)
  have fl: "b_flags (bufs x b) AND (B_VALID OR B_DIRTY) = B_VALID" by (simp add: x finish_def)
  have wt: "ide_wait (Suc (Suc NBUF)) b w = Ok () x" using assms(3) w(5) sl fl by simp
  obtain c2 l2 where r: "release IdeLock x = Ok () (x\<lparr>cpus := c2, locks := l2\<rparr>)"
    and mr: "held_at {} 0 True True me (x\<lparr>cpus := c2, locks := l2\<rparr>)"
    by (rule mach_release [OF mx, of IdeLock]) auto
  have run: "iderw b s = Ok () (x\<lparr>cpus := c2, locks := l2\<rparr>)"
    using assms(3,4) t(1)
    by (auto simp: iderw_def h bt a i wt r calm_def simp del: ide_wait.simps)
  have "calm me (x\<lparr>cpus := c2, locks := l2\<rparr>)"
    by (rule mach_calm [OF mr]) (use t(1) rx p in \<open>auto simp: calm_def x w\<close>)
  moreover have "store (x\<lparr>cpus := c2, locks := l2\<rparr>) = transfer b t"
    by (auto simp: store_def x transfer_def Let_def finish_def w_def bt busy_def)
  ultimately show ?thesis using transfer_cong [OF t(2)] by (simp add: run)
qed

end
