(* ===== verification/Cache.thy ===== *)
theory Cache
  imports Calm Log
begin

text \<open>
  The buffer cache as an abstract memory of blocks. The abstract state has the blocks
  currently held and their buffers, the contents of every block as a reader sees it, and the
  blocks pinned in the cache because they are dirty. The operations of \<^verbatim>\<open>bio.c\<close> on a quiet
  machine return and implement the abstract ones: a block read has its contents, wherever
  they are, a write reaches the disk at once, and no operation loses a pinned block.
\<close>

section \<open>The abstract state\<close>

definition valid :: "buf \<Rightarrow> bool" where "valid u \<longleftrightarrow> b_flags u AND B_VALID \<noteq> 0"
definition dirty :: "buf \<Rightarrow> bool" where "dirty u \<longleftrightarrow> b_flags u AND B_DIRTY \<noteq> 0"

definition tidy :: "u32 \<Rightarrow> (u32 \<rightharpoonup> nat) \<Rightarrow> (u32 \<Rightarrow> u8 list) \<Rightarrow> u32 set \<Rightarrow> sleeplock_id set \<Rightarrow> disk \<Rightarrow> (nat \<Rightarrow> buf) \<Rightarrow> bool" where
  "tidy d H C Q L D B \<longleftrightarrow>
     (\<forall>b c. b < NBUF \<longrightarrow> c < NBUF \<longrightarrow> b_dev (B b) = d \<longrightarrow> b_dev (B c) = d \<longrightarrow> b_blockno (B b) = b_blockno (B c) \<longrightarrow> b = c) \<and>
     (\<forall>k b. H k = Some b \<longrightarrow> b < NBUF \<and> b_dev (B b) = d \<and> b_blockno (B b) = k \<and> valid (B b) \<and> b_refcnt (B b) = 1 \<and> BufLock b \<in> L) \<and>
     (\<forall>b. b < NBUF \<longrightarrow> b \<notin> ran H \<longrightarrow> b_refcnt (B b) = 0 \<and> BufLock b \<notin> L) \<and>
     (\<forall>b. b < NBUF \<longrightarrow> dirty (B b) \<longrightarrow> valid (B b) \<and> b_dev (B b) = d \<and> b_blockno (B b) \<in> Q) \<and>
     (\<forall>k \<in> Q. \<exists>b < NBUF. b_dev (B b) = d \<and> b_blockno (B b) = k \<and> dirty (B b)) \<and>
     (\<forall>b. b < NBUF \<longrightarrow> b_dev (B b) = d \<longrightarrow> valid (B b) \<longrightarrow> b_data (B b) = C (b_blockno (B b))) \<and>
     (\<forall>k. k \<notin> dom H \<union> Q \<longrightarrow> C k = D (d AND 1, k))"

definition cache :: "nat \<Rightarrow> u32 \<Rightarrow> (u32 \<rightharpoonup> nat) \<Rightarrow> (u32 \<Rightarrow> u8 list) \<Rightarrow> u32 set \<Rightarrow> 'z bio_state_scheme \<Rightarrow> bool" where
  "cache me d H C Q s \<longleftrightarrow> calm me s \<and> (d = 0 \<or> havedisk1 s) \<and> (\<exists>xs. lru (bufs s) xs \<and> set xs = {..<NBUF}) \<and>
     tidy d H C Q (busy s) (disk s) (bufs s)"

lemma tidyD:
  assumes "tidy d H C Q L D B"
  shows "\<And>b c. \<lbrakk>b < NBUF; c < NBUF; b_dev (B b) = d; b_dev (B c) = d; b_blockno (B b) = b_blockno (B c)\<rbrakk> \<Longrightarrow> b = c"
    "\<And>k b. H k = Some b \<Longrightarrow> b < NBUF \<and> b_dev (B b) = d \<and> b_blockno (B b) = k \<and> valid (B b) \<and> b_refcnt (B b) = 1 \<and> BufLock b \<in> L"
    "\<And>b. \<lbrakk>b < NBUF; b \<notin> ran H\<rbrakk> \<Longrightarrow> b_refcnt (B b) = 0 \<and> BufLock b \<notin> L"
    "\<And>b. \<lbrakk>b < NBUF; dirty (B b)\<rbrakk> \<Longrightarrow> valid (B b) \<and> b_dev (B b) = d \<and> b_blockno (B b) \<in> Q"
    "\<And>k. k \<in> Q \<Longrightarrow> \<exists>b < NBUF. b_dev (B b) = d \<and> b_blockno (B b) = k \<and> dirty (B b)"
    "\<And>b. \<lbrakk>b < NBUF; b_dev (B b) = d; valid (B b)\<rbrakk> \<Longrightarrow> b_data (B b) = C (b_blockno (B b))"
    "\<And>k. k \<notin> dom H \<union> Q \<Longrightarrow> C k = D (d AND 1, k)"
  apply -
  subgoal by (rule assms [unfolded tidy_def, THEN conjunct1, rule_format])
  subgoal by (rule assms [unfolded tidy_def, THEN conjunct2, THEN conjunct1, rule_format])
  subgoal by (rule assms [unfolded tidy_def, THEN conjunct2, THEN conjunct2, THEN conjunct1, rule_format])
  subgoal by (rule assms [unfolded tidy_def, THEN conjunct2, THEN conjunct2, THEN conjunct2, THEN conjunct1, rule_format])
  subgoal by (rule assms [unfolded tidy_def, THEN conjunct2, THEN conjunct2, THEN conjunct2, THEN conjunct2, THEN conjunct1, rule_format])
  subgoal by (rule assms [unfolded tidy_def, THEN conjunct2, THEN conjunct2, THEN conjunct2, THEN conjunct2, THEN conjunct2, THEN conjunct1, rule_format])
  subgoal by (rule assms [unfolded tidy_def, THEN conjunct2, THEN conjunct2, THEN conjunct2, THEN conjunct2, THEN conjunct2, THEN conjunct2, rule_format])
  done

lemma tidyI:
  assumes "\<And>b c. \<lbrakk>b < NBUF; c < NBUF; b_dev (B b) = d; b_dev (B c) = d; b_blockno (B b) = b_blockno (B c)\<rbrakk> \<Longrightarrow> b = c"
    "\<And>k b. H k = Some b \<Longrightarrow> b < NBUF \<and> b_dev (B b) = d \<and> b_blockno (B b) = k \<and> valid (B b) \<and> b_refcnt (B b) = 1 \<and> BufLock b \<in> L"
    "\<And>b. \<lbrakk>b < NBUF; b \<notin> ran H\<rbrakk> \<Longrightarrow> b_refcnt (B b) = 0 \<and> BufLock b \<notin> L"
    "\<And>b. \<lbrakk>b < NBUF; dirty (B b)\<rbrakk> \<Longrightarrow> valid (B b) \<and> b_dev (B b) = d \<and> b_blockno (B b) \<in> Q"
    "\<And>k. k \<in> Q \<Longrightarrow> \<exists>b < NBUF. b_dev (B b) = d \<and> b_blockno (B b) = k \<and> dirty (B b)"
    "\<And>b. \<lbrakk>b < NBUF; b_dev (B b) = d; valid (B b)\<rbrakk> \<Longrightarrow> b_data (B b) = C (b_blockno (B b))"
    "\<And>k. k \<notin> dom H \<union> Q \<Longrightarrow> C k = D (d AND 1, k)"
  shows "tidy d H C Q L D B"
  unfolding tidy_def by (intro conjI, use assms(1) in blast, use assms(2) in blast, use assms(3) in blast,
    use assms(4) in blast, use assms(5) in blast, use assms(6) in blast, use assms(7) in blast)

lemma flag_tests [simp]:
  "valid u \<longleftrightarrow> bit (b_flags u) 1" "dirty u \<longleftrightarrow> bit (b_flags u) 2"
proof -
  have "w AND v \<noteq> 0 \<longleftrightarrow> bit w k" if "\<And>n. bit v n \<longleftrightarrow> n = k" for w v :: u32 and k
    using that bit_eq_iff [of "w AND v" 0] by (auto simp: bit_and_iff dest: bit_imp_le_length)
  then show "valid u \<longleftrightarrow> bit (b_flags u) 1" "dirty u \<longleftrightarrow> bit (b_flags u) 2"
    using flag_bits by (simp_all add: valid_def dirty_def)
qed

section \<open>Abstract steps\<close>

text \<open>
  Every operation changes one buffer \<open>b\<close>, which then is the one of block \<open>k\<close>, and
  the abstract state at \<open>k\<close> only. What has to hold for it is what concerns that block.
\<close>

lemma tidy_change:
  assumes t: "tidy d H C Q L D B" and b: "b < NBUF" and u: "b_dev u = d" "b_blockno u = k" "valid u" "b_data u = C' k"
    and alone: "\<And>c. \<lbrakk>c < NBUF; c \<noteq> b; b_dev (B c) = d\<rbrakk> \<Longrightarrow> b_blockno (B c) \<noteq> k"
    and old: "dirty (B b) \<Longrightarrow> b_blockno (B b) = k" "\<And>j. H j = Some b \<Longrightarrow> j = k" "\<And>c. H k = Some c \<Longrightarrow> c = b"
    and H': "\<And>j. j \<noteq> k \<Longrightarrow> H' j = H j" "H' k = (if h then Some b else None)"
    and ref: "b_refcnt u = (if h then 1 else 0)" "BufLock b \<in> L' \<longleftrightarrow> h" "\<And>c. c \<noteq> b \<Longrightarrow> BufLock c \<in> L' \<longleftrightarrow> BufLock c \<in> L"
    and Q': "\<And>j. j \<noteq> k \<Longrightarrow> j \<in> Q' \<longleftrightarrow> j \<in> Q" "k \<in> Q' \<longleftrightarrow> dirty u"
    and C': "\<And>j. j \<noteq> k \<Longrightarrow> C' j = C j" and D': "\<And>j. j \<noteq> k \<Longrightarrow> D' (d AND 1, j) = D (d AND 1, j)"
    and clean: "\<not> h \<Longrightarrow> k \<notin> Q' \<Longrightarrow> C' k = D' (d AND 1, k)"
  shows "tidy d H' C' Q' L' D' (B(b := u))"
proof (rule tidyI)
  let ?B = "B(b := u)"
  fix c e assume "c < NBUF" "e < NBUF" "b_dev (?B c) = d" "b_dev (?B e) = d" "b_blockno (?B c) = b_blockno (?B e)"
  then show "c = e" using alone [of c] alone [of e] tidyD(1) [OF t, of c e] u by (cases "c = b"; cases "e = b") auto
next
  let ?B = "B(b := u)"
  fix j c assume j: "H' j = Some c"
  show "c < NBUF \<and> b_dev (?B c) = d \<and> b_blockno (?B c) = j \<and> valid (?B c) \<and> b_refcnt (?B c) = 1 \<and> BufLock c \<in> L'"
  proof (cases "j = k")
    case True
    with j H'(2) have "h" "c = b" by (auto split: if_splits)
    with True b u ref show ?thesis by simp
  next
    case False
    with j H'(1) have "H j = Some c" by simp
    moreover have "c \<noteq> b" using calculation old(2) False by auto
    ultimately show ?thesis using tidyD(2) [OF t, of j c] ref(3) by simp
  qed
next
  let ?B = "B(b := u)"
  fix c assume c: "c < NBUF" "c \<notin> ran H'"
  show "b_refcnt (?B c) = 0 \<and> BufLock c \<notin> L'"
  proof (cases "c = b")
    case True
    then have "\<not> h" using c(2) H'(2) by (auto intro: ranI)
    with True ref show ?thesis by simp
  next
    case False
    have "c \<notin> ran H"
    proof
      assume "c \<in> ran H"
      then obtain j where j: "H j = Some c" by (auto simp: ran_def)
      then have "j \<noteq> k" using old(3) False by auto
      then have "H' j = Some c" using H'(1) j by simp
      with c(2) show False by (auto intro: ranI)
    qed
    with tidyD(3) [OF t c(1)] ref(3) False show ?thesis by simp
  qed
next
  let ?B = "B(b := u)"
  fix c assume c: "c < NBUF" "dirty (?B c)"
  show "valid (?B c) \<and> b_dev (?B c) = d \<and> b_blockno (?B c) \<in> Q'"
  proof (cases "c = b")
    case True
    with c u Q'(2) show ?thesis by simp
  next
    case False
    with c(2) have "dirty (B c)" by simp
    from tidyD(4) [OF t c(1) this] alone [OF c(1) False] Q'(1) False show ?thesis by simp
  qed
next
  let ?B = "B(b := u)"
  fix j assume j: "j \<in> Q'"
  show "\<exists>c<NBUF. b_dev (?B c) = d \<and> b_blockno (?B c) = j \<and> dirty (?B c)"
  proof (cases "j = k")
    case True
    with j Q'(2) u b show ?thesis by (intro exI [of _ b]) simp
  next
    case False
    with j Q'(1) have "j \<in> Q" by simp
    from tidyD(5) [OF t this] obtain c where c: "c < NBUF" "b_dev (B c) = d" "b_blockno (B c) = j" "dirty (B c)" by blast
    moreover have "c \<noteq> b" using c(3,4) old(1) False by auto
    ultimately show ?thesis by (intro exI [of _ c]) simp
  qed
next
  let ?B = "B(b := u)"
  fix c assume c: "c < NBUF" "b_dev (?B c) = d" "valid (?B c)"
  show "b_data (?B c) = C' (b_blockno (?B c))"
    using tidyD(6) [OF t c(1)] alone [OF c(1)] c(2,3) u C' by (cases "c = b") auto
next
  fix j assume j: "j \<notin> dom H' \<union> Q'"
  show "C' j = D' (d AND 1, j)"
  proof (cases "j = k")
    case True
    with j H'(2) have "\<not> h" by auto
    with True j clean show ?thesis by simp
  next
    case False
    with j H'(1) Q'(1) have "j \<notin> dom H \<union> Q" by (auto simp: domIff)
    from tidyD(7) [OF t this] show ?thesis using False C' D' by simp
  qed
qed

section \<open>Getting a buffer\<close>

lemma find_SomeD: "List.find P xs = Some x \<Longrightarrow> x \<in> set xs \<and> P x"
  by (induction xs) (auto split: if_splits)

lemma store_sel:
  assumes "store t = (B, L, D, W, hd1, m)"
  shows "bufs t = B" "busy t = L" "disk t = D" "disk_writes t = W" "havedisk1 t = hd1" "bio_state.more t = m"
  using assms by (simp_all add: store_def)

lemma cache_change:
  assumes "cache me d H C Q s" "calm me t" "store t = ((bufs s)(b := u), L', D', W', havedisk1 s, m)"
    and "b_next u = b_next (bufs s b)" "b_prev u = b_prev (bufs s b)"
    and "tidy d H' C' Q' L' D' ((bufs s)(b := u))"
  shows "cache me d H' C' Q' t"
proof -
  obtain xs where xs: "lru (bufs s) xs" "set xs = {..<NBUF}" using assms(1) by (auto simp: cache_def)
  have "lru (bufs t) xs"
    by (rule lru_data_cong [OF xs(1)]) (use assms(4,5) in \<open>simp add: store_sel(1) [OF assms(3)]\<close>)
  with xs(2) assms(1,2,6) show ?thesis by (auto simp: cache_def store_sel [OF assms(3)])
qed

lemma bget_section:
  assumes "calm me s" "lru (bufs s) xs" "length xs = NBUF"
    and "case List.find (\<lambda>b. b_dev (bufs s b) = d \<and> b_blockno (bufs s b) = k) xs of
        Some c \<Rightarrow> b = c \<and> u = (bufs s b)\<lparr>b_refcnt := b_refcnt (bufs s b) + 1\<rparr>
      | None \<Rightarrow> List.find (\<lambda>b. b_refcnt (bufs s b) = 0 \<and> b_flags (bufs s b) AND B_DIRTY = 0) (rev xs) = Some b \<and>
          u = (bufs s b)\<lparr>b_dev := d, b_blockno := k, b_flags := 0, b_refcnt := 1\<rparr>"
    and "BufLock b \<notin> busy s"
  shows "yields (\<lambda>r t. r = b \<and> calm me t \<and>
    store t = ((bufs s)(b := u), insert (BufLock b) (busy s), disk s, disk_writes s, havedisk1 s, bio_state.more s)) (bget d k s)"
proof -
  obtain e where m: "held_at {} 0 True e me s" using assms(1) by (auto simp: calm_def)
  obtain c l where a: "acquire BcacheLock s = Ok () (s\<lparr>cpus := c, locks := l\<rparr>)"
    and ma: "held_at {BcacheLock} 1 False True me (s\<lparr>cpus := c, locks := l\<rparr>)"
    by (rule mach_acquire [OF m, of BcacheLock]) auto
  let ?s = "s\<lparr>cpus := c, locks := l\<rparr>"
  have ch: "dchain (bufs s) bhead xs bhead" "bhead \<notin> set xs" using assms(2) by (simp_all add: lru_def)
  have f1: "find_cached (Suc NBUF) (b_next (bufs s bhead)) d k ?s = Ok (List.find (\<lambda>b. b_dev (bufs s b) = d \<and> b_blockno (bufs s b) = k) xs) ?s"
    using find_cached_list [of ?s bhead xs "Suc NBUF" d k] ch assms(3) by (simp del: find_cached.simps)
  have f2: "find_unused (Suc NBUF) (b_prev (bufs s bhead)) ?s =
      Ok (List.find (\<lambda>b. b_refcnt (bufs s b) = 0 \<and> b_flags (bufs s b) AND B_DIRTY = 0) (rev xs)) ?s"
    using find_unused_list [of ?s bhead "rev xs" "Suc NBUF"] ch assms(3) by (simp add: dchain_rev del: find_unused.simps)
  let ?v = "?s\<lparr>bufs := (bufs s)(b := u)\<rparr>"
  obtain c' l' where r: "release BcacheLock ?v = Ok () (?v\<lparr>cpus := c', locks := l'\<rparr>)"
    and mr: "held_at {} 0 True True me (?v\<lparr>cpus := c', locks := l'\<rparr>)"
    by (rule mach_release [of "{BcacheLock}" 1 True me ?v BcacheLock]) (use ma in auto)
  let ?w = "?v\<lparr>cpus := c', locks := l'\<rparr>"
  have cw: "calm me ?w" by (rule mach_calm [OF mr]) (use assms(1) in \<open>auto simp: calm_def\<close>)
  have "busy ?w = busy s" by (simp add: busy_def)
  then have q: "yields (\<lambda>_ t. calm me t \<and> store t = ((bufs s)(b := u), insert (BufLock b) (busy s), disk s, disk_writes s, havedisk1 s, bio_state.more s))
      (acquiresleep (BufLock b) ?w)"
    using acquiresleep_calm [OF cw, of "BufLock b"] assms(5) by simp
  have "bget d k s = bind (acquiresleep (BufLock b) ?w) (\<lambda>_ s. Ok b s)"
  proof (cases "List.find (\<lambda>b. b_dev (bufs s b) = d \<and> b_blockno (bufs s b) = k) xs")
    case None
    with assms(4) have "List.find (\<lambda>b. b_refcnt (bufs s b) = 0 \<and> b_flags (bufs s b) AND B_DIRTY = 0) (rev xs) = Some b"
      "u = (bufs s b)\<lparr>b_dev := d, b_blockno := k, b_flags := 0, b_refcnt := 1\<rparr>" by simp_all
    with None r show ?thesis
      by (simp add: bget_def a f1 f2 upd_buf_def del: find_cached.simps find_unused.simps)
  next
    case (Some x)
    with assms(4) have "x = b" "u = (bufs s b)\<lparr>b_refcnt := b_refcnt (bufs s b) + 1\<rparr>" by simp_all
    with Some r show ?thesis
      by (simp add: bget_def a f1 upd_buf_def del: find_cached.simps find_unused.simps)
  qed
  with q show ?thesis by (auto simp: yields_iff)
qed

lemma flag_results [simp]:
  "bit ((w OR B_VALID) AND NOT B_DIRTY) (Suc 0)" "\<not> bit ((w OR B_VALID) AND NOT B_DIRTY) 2"
  "bit (w OR B_DIRTY) (Suc 0) = bit (w :: u32) (Suc 0)" "bit (w OR B_DIRTY) 2"
  using flag_bits by (simp_all add: bit_or_iff bit_and_iff bit_not_iff)

lemma flag_off:
  fixes w :: u32
  shows "w AND B_DIRTY = 0 \<longleftrightarrow> \<not> bit w 2" "w AND B_VALID = 0 \<longleftrightarrow> \<not> bit w 1"
    "w AND (B_VALID OR B_DIRTY) = B_VALID \<longleftrightarrow> bit w 1 \<and> \<not> bit w 2"
proof -
  show "w AND B_DIRTY = 0 \<longleftrightarrow> \<not> bit w 2" "w AND B_VALID = 0 \<longleftrightarrow> \<not> bit w 1"
    using flag_tests [of "\<lparr>b_flags = w, b_dev = 0, b_blockno = 0, b_refcnt = 0, b_prev = 0, b_next = 0, b_data = []\<rparr>"]
    by (simp_all only: valid_def dirty_def buf.simps) auto
  show "w AND (B_VALID OR B_DIRTY) = B_VALID \<longleftrightarrow> bit w 1 \<and> \<not> bit w 2"
  proof
    assume e: "w AND (B_VALID OR B_DIRTY) = B_VALID"
    have "bit (w AND (B_VALID OR B_DIRTY)) n = bit B_VALID n" for n by (simp only: e)
    from this [of 1] this [of 2] show "bit w 1 \<and> \<not> bit w 2" by (simp add: bit_and_iff bit_or_iff flag_bits)
  next
    assume "bit w 1 \<and> \<not> bit w 2"
    then show "w AND (B_VALID OR B_DIRTY) = B_VALID"
      by (intro bit_word_eqI) (auto simp: bit_and_iff bit_or_iff flag_bits)
  qed
qed

lemma room_for_one:
  assumes "tidy d H C Q L D B" "card (dom H \<union> Q) < NBUF"
  obtains b where "b < NBUF" "b \<notin> ran H" "\<not> dirty (B b)"
proof -
  let ?P = "{b. b < NBUF \<and> (b \<in> ran H \<or> dirty (B b))}"
  have k: "b_dev (B b) = d \<and> b_blockno (B b) \<in> dom H \<union> Q" if "b \<in> ?P" for b
    using that tidyD(2,4) [OF assms(1)] by (auto simp: ran_def)
  then have "inj_on (\<lambda>b. b_blockno (B b)) ?P" by (intro inj_onI) (use tidyD(1) [OF assms(1)] in auto)
  moreover have "(\<lambda>b. b_blockno (B b)) ` ?P \<subseteq> dom H \<union> Q" using k by auto
  ultimately have "card ?P \<le> card (dom H \<union> Q)" by (intro card_inj_on_le) auto
  with assms(2) have "card ?P < card {..<NBUF}" by simp
  then have "\<not> {..<NBUF} \<subseteq> ?P" using card_mono [of ?P "{..<NBUF}"] by auto
  then obtain b where "b < NBUF" "b \<notin> ?P" by auto
  then show thesis by (intro that [of b]) auto
qed

lemma iderw_load:
  assumes "calm me t" "store t = (B, L, D, W, hd1, m)" "BufLock b \<in> L"
    "\<not> bit (b_flags (B b)) 1" "\<not> bit (b_flags (B b)) 2" "b_dev (B b) = 0 \<or> hd1" "b_blockno (B b) < FSSIZE"
  shows "yields (\<lambda>_ t'. calm me t' \<and> store t' = (B(b := (B b)\<lparr>b_data := D (b_dev (B b) AND 1, b_blockno (B b)),
      b_flags := (b_flags (B b) OR B_VALID) AND NOT B_DIRTY\<rparr>), L, D, W, hd1, m)) (iderw b t)"
proof -
  note t = store_sel [OF assms(2)]
  have "transfer b t = (B(b := (B b)\<lparr>b_data := D (b_dev (B b) AND 1, b_blockno (B b)),
      b_flags := (b_flags (B b) OR B_VALID) AND NOT B_DIRTY\<rparr>), L, D, W, hd1, m)"
    using assms(5) by (simp add: transfer_def t flag_off sector_def Let_def)
  with iderw_calm [OF assms(1), of b] assms(3-7) show ?thesis by (simp add: t flag_off)
qed

section \<open>The operations\<close>

text \<open>What reading and releasing leave alone.\<close>

definition outside :: "'z bio_state_scheme \<Rightarrow> disk \<times> ((u32 \<times> u32) \<times> u8 list) list \<times> 'z" where
  "outside s = (disk s, disk_writes s, bio_state.more s)"

lemma cacheD:
  assumes "cache me d H C Q s"
  shows "calm me s" "d = 0 \<or> havedisk1 s" "tidy d H C Q (busy s) (disk s) (bufs s)"
    "\<exists>xs. lru (bufs s) xs \<and> set xs = {..<NBUF} \<and> length xs = NBUF"
proof -
  show "\<exists>xs. lru (bufs s) xs \<and> set xs = {..<NBUF} \<and> length xs = NBUF"
  proof -
    obtain xs where xs: "lru (bufs s) xs" "set xs = {..<NBUF}" using assms by (auto simp: cache_def)
    then have "length xs = NBUF" using distinct_card [of xs] by (simp add: lru_def)
    with xs show ?thesis by blast
  qed
qed (use assms in \<open>simp_all add: cache_def\<close>)

lemma cache_held:
  assumes "cache me d H C Q s" "H k = Some b"
  shows "b_data (bufs s b) = C k" "b_blockno (bufs s b) = k" "BufLock b \<in> busy s" "b < NBUF"
  using tidyD(2,6) [OF cacheD(3) [OF assms(1)]] assms(2) by (metis (no_types))+

lemma bread_fills:
  assumes c: "cache me d H C Q s" and k: "H k = None" "k < FSSIZE" and b: "b < NBUF" "b \<notin> ran H" "\<not> dirty (bufs s b)"
    and alone: "\<And>c. \<lbrakk>c < NBUF; c \<noteq> b; b_dev (bufs s c) = d\<rbrakk> \<Longrightarrow> b_blockno (bufs s c) \<noteq> k"
    and u: "b_dev u = d" "b_blockno u = k" "\<not> bit (b_flags u) 1" "\<not> bit (b_flags u) 2" "b_refcnt u = 1"
      "b_next u = b_next (bufs s b)" "b_prev u = b_prev (bufs s b)"
    and t: "calm me t" "store t = ((bufs s)(b := u), insert (BufLock b) (busy s), disk s, disk_writes s, havedisk1 s, bio_state.more s)"
  shows "yields (\<lambda>_ t. cache me d (H(k \<mapsto> b)) C Q t \<and> outside t = outside s) (iderw b t)"
proof -
  note T = cacheD(3) [OF c]
  let ?u = "u\<lparr>b_data := disk s (d AND 1, k), b_flags := (b_flags u OR B_VALID) AND NOT B_DIRTY\<rparr>"
  have kq: "k \<notin> Q" using tidyD(5) [OF T, of k] alone b(3) by metis
  have ck: "C k = disk s (d AND 1, k)" using tidyD(7) [OF T, of k] k(1) kq by (auto simp: domIff)
  have old: "H j \<noteq> Some b" for j using b(2) by (auto intro: ranI)
  have ty: "tidy d (H(k \<mapsto> b)) C Q (insert (BufLock b) (busy s)) (disk s) ((bufs s)(b := ?u))"
    by (rule tidy_change [OF T b(1), where k = k and h = True]) (use u k(1) b(3) ck kq old alone in auto)
  have "yields (\<lambda>_ t'. calm me t' \<and> store t' = ((bufs s)(b := ?u), insert (BufLock b) (busy s), disk s, disk_writes s, havedisk1 s, bio_state.more s)) (iderw b t)"
    using iderw_load [OF t, of b] u k cacheD(2) [OF c] by simp
  then show ?thesis
  proof (rule yields_mono, elim conjE, intro conjI)
    fix x t' assume t': "calm me t'" "store t' = ((bufs s)(b := ?u), insert (BufLock b) (busy s), disk s, disk_writes s, havedisk1 s, bio_state.more s)"
    show "cache me d (H(k \<mapsto> b)) C Q t'" by (rule cache_change [OF c t' _ _ ty]) (simp_all add: u)
    show "outside t' = outside s" by (simp add: outside_def store_sel [OF t'(2)])
  qed
qed

lemma bread_cache:
  assumes c: "cache me d H C Q s" and k: "H k = None" "k < FSSIZE" "k \<in> Q \<or> card (dom H \<union> Q) < NBUF"
  shows "yields (\<lambda>b t. cache me d (H(k \<mapsto> b)) C Q t \<and> outside t = outside s) (bread d k s)"
proof -
  note T = cacheD(3) [OF c]
  obtain xs where xs: "lru (bufs s) xs" "set xs = {..<NBUF}" "length xs = NBUF" using cacheD(4) [OF c] by blast
  let ?cached = "List.find (\<lambda>b. b_dev (bufs s b) = d \<and> b_blockno (bufs s b) = k) xs"
  let ?unused = "List.find (\<lambda>b. b_refcnt (bufs s b) = 0 \<and> b_flags (bufs s b) AND B_DIRTY = 0) (rev xs)"
  show ?thesis
  proof (cases ?cached)
    case (Some b)
    then have b: "b < NBUF" "b_dev (bufs s b) = d" "b_blockno (bufs s b) = k"
      using xs(2) find_SomeD [of _ xs] by force+
    have nb: "b \<notin> ran H" using tidyD(2) [OF T, of _ b] b(3) k(1) by (auto simp: ran_def)
    note free = tidyD(3) [OF T b(1) nb]
    let ?u = "(bufs s b)\<lparr>b_refcnt := 1\<rparr>"
    have alone: "\<And>c. \<lbrakk>c < NBUF; c \<noteq> b; b_dev (bufs s c) = d\<rbrakk> \<Longrightarrow> b_blockno (bufs s c) \<noteq> k"
      using tidyD(1) [OF T b(1)] b by metis
    obtain t where g: "bget d k s = Ok b t" "calm me t"
        "store t = ((bufs s)(b := ?u), insert (BufLock b) (busy s), disk s, disk_writes s, havedisk1 s, bio_state.more s)"
      using bget_section [OF cacheD(1) [OF c] xs(1,3), where d = d and k = k and b = b and u = ?u] Some free by (auto simp: yields_iff)
    show ?thesis
    proof (cases "valid (bufs s b)")
      case True
      have ty: "tidy d (H(k \<mapsto> b)) C Q (insert (BufLock b) (busy s)) (disk s) ((bufs s)(b := ?u))"
        by (rule tidy_change [OF T b(1), where k = k and h = True])
          (use True b nb k(1) alone tidyD(4,6) [OF T b(1)] tidyD(5) [OF T, of k] in \<open>auto intro: ranI\<close>)
      have "cache me d (H(k \<mapsto> b)) C Q t" by (rule cache_change [OF c g(2,3) _ _ ty]) simp_all
      with g True show ?thesis
        by (simp add: bread_def flag_off store_sel [OF g(3)] outside_def)
    next
      case False
      then have nd: "\<not> dirty (bufs s b)" using tidyD(4) [OF T b(1)] by blast
      have "yields (\<lambda>_ t. cache me d (H(k \<mapsto> b)) C Q t \<and> outside t = outside s) (iderw b t)"
        by (rule bread_fills [OF c k(1,2) b(1) nb nd alone _ _ _ _ _ _ _ g(2,3)]) (use b False nd in auto)
      with g False show ?thesis by (auto simp: bread_def flag_off store_sel [OF g(3)] yields_iff)
    qed
  next
    case None
    then have alone: "b_blockno (bufs s c) \<noteq> k" if "c < NBUF" "b_dev (bufs s c) = d" for c
      using that xs(2) by (auto simp: find_None_iff)
    then have "k \<notin> Q" using tidyD(5) [OF T, of k] by metis
    then obtain c' where "c' < NBUF" "c' \<notin> ran H" "\<not> dirty (bufs s c')" using k(3) room_for_one [OF T] by metis
    then have "b_refcnt (bufs s c') = 0" "b_flags (bufs s c') AND B_DIRTY = 0" "c' \<in> set (rev xs)"
      using tidyD(3) [OF T] xs(2) by (auto simp: flag_off)
    then obtain b where f: "?unused = Some b" by (cases ?unused) (auto simp: find_None_iff)
    then have b: "b < NBUF" "b_refcnt (bufs s b) = 0" "b_flags (bufs s b) AND B_DIRTY = 0"
      using xs(2) find_SomeD [of _ "rev xs"] by force+
    have nb: "b \<notin> ran H" using tidyD(2) [OF T, of _ b] b(2) by (auto simp: ran_def)
    let ?u = "(bufs s b)\<lparr>b_dev := d, b_blockno := k, b_flags := 0, b_refcnt := 1\<rparr>"
    obtain t where g: "bget d k s = Ok b t" "calm me t"
        "store t = ((bufs s)(b := ?u), insert (BufLock b) (busy s), disk s, disk_writes s, havedisk1 s, bio_state.more s)"
      using bget_section [OF cacheD(1) [OF c] xs(1,3), where d = d and k = k and b = b and u = ?u] None f tidyD(3) [OF T b(1) nb] by (auto simp: yields_iff)
    have "yields (\<lambda>_ t. cache me d (H(k \<mapsto> b)) C Q t \<and> outside t = outside s) (iderw b t)"
      by (rule bread_fills [OF c k(1,2) b(1) nb _ _ _ _ _ _ _ _ _ g(2,3)]) (use b alone in \<open>auto simp: flag_off\<close>)
    with g show ?thesis by (auto simp: bread_def store_sel [OF g(3)] yields_iff)
  qed
qed

lemma pinned_dirty:
  assumes "tidy d H C Q L D B" "b < NBUF" "b_dev (B b) = d"
  shows "b_blockno (B b) \<in> Q \<longleftrightarrow> dirty (B b)"
proof
  assume "b_blockno (B b) \<in> Q"
  then obtain c where c: "c < NBUF" "b_dev (B c) = d" "b_blockno (B c) = b_blockno (B b)" "dirty (B c)"
    using tidyD(5) [OF assms(1)] by blast
  then have "c = b" using tidyD(1) [OF assms(1) c(1) assms(2)] assms(3) by simp
  with c show "dirty (B b)" by simp
qed (use tidyD(4) [OF assms(1,2)] in blast)

lemma held_change:
  assumes c: "cache me d H C Q s" and h: "H k = Some b"
    and u: "b_dev u = d" "b_blockno u = k" "valid u" "b_data u = C' k" "b_refcnt u = 1"
      "b_next u = b_next (bufs s b)" "b_prev u = b_prev (bufs s b)"
    and Q': "\<And>j. j \<noteq> k \<Longrightarrow> j \<in> Q' \<longleftrightarrow> j \<in> Q" "k \<in> Q' \<longleftrightarrow> dirty u" and C': "\<And>j. j \<noteq> k \<Longrightarrow> C' j = C j"
    and D': "\<And>j. j \<noteq> k \<Longrightarrow> D' (d AND 1, j) = disk s (d AND 1, j)"
    and t: "calm me t" "store t = ((bufs s)(b := u), busy s, D', W', havedisk1 s, m)"
  shows "cache me d H C' Q' t"
proof -
  note T = cacheD(3) [OF c]
  note hb = tidyD(2) [OF T h]
  have alone: "b_blockno (bufs s c) \<noteq> k" if "c < NBUF" "c \<noteq> b" "b_dev (bufs s c) = d" for c
    using tidyD(1) [OF T that(1), of b] hb that by auto
  have own: "j = k" if "H j = Some b" for j using tidyD(2) [OF T that] hb by simp
  have "tidy d H C' Q' (busy s) D' ((bufs s)(b := u))"
  proof (rule tidy_change [OF T, where k = k and h = True])
    show "b_blockno (bufs s c) \<noteq> k" if "c < NBUF" "c \<noteq> b" "b_dev (bufs s c) = d" for c by (rule alone [OF that])
    show "j = k" if "H j = Some b" for j by (rule own [OF that])
  qed (use u Q' C' D' h hb in simp_all)
  then show ?thesis by (rule cache_change [OF c t u(6,7)])
qed

lemma cache_upd_data:
  assumes c: "cache me d H C Q s" and h: "H k = Some b"
  shows "cache me d H (C(k := f (C k))) Q (upd_data b f s)" "outside (upd_data b f s) = outside s"
proof -
  note T = cacheD(3) [OF c]
  note hb = tidyD(2) [OF T h]
  show "cache me d H (C(k := f (C k))) Q (upd_data b f s)"
  proof (rule held_change [OF c h, where u = "(bufs s b)\<lparr>b_data := f (b_data (bufs s b))\<rparr>" and D' = "disk s"])
    show "k \<in> Q \<longleftrightarrow> dirty ((bufs s b)\<lparr>b_data := f (b_data (bufs s b))\<rparr>)"
      using pinned_dirty [OF T] hb by auto
  qed (use hb cache_held [OF c h] cacheD(1) [OF c] in
      \<open>auto simp: upd_data_def upd_buf_def store_def busy_def calm_def\<close>)
  show "outside (upd_data b f s) = outside s" by (simp add: outside_def upd_data_def upd_buf_def)
qed

lemma bwrite_cache:
  assumes c: "cache me d H C Q s" and h: "H k = Some b" "k < FSSIZE"
  shows "yields (\<lambda>_ t. cache me d H C (Q - {k}) t \<and>
    outside t = ((disk s)((d AND 1, k) := C k), disk_writes s @ [((d AND 1, k), C k)], bio_state.more s)) (bwrite b s)"
proof -
  note hb = tidyD(2) [OF cacheD(3) [OF c] h(1)]
  note held = cache_held [OF c h(1)]
  obtain t where t: "holdingsleep (BufLock b) s = Ok True t" "calm me t" "store t = store s"
    using holdingsleep_calm [OF cacheD(1) [OF c], of "BufLock b"] held(3) by (auto simp: yields_iff)
  note st = store_sel [OF t(3) [unfolded store_def [of s]]]
  let ?t = "upd_buf b (\<lambda>u. u\<lparr>b_flags := b_flags u OR B_DIRTY\<rparr>) t"
  let ?u = "(bufs s b)\<lparr>b_flags := ((b_flags (bufs s b) OR B_DIRTY) OR B_VALID) AND NOT B_DIRTY\<rparr>"
  have tr: "transfer b ?t = ((bufs s)(b := ?u), busy s, (disk s)((d AND 1, k) := C k),
      disk_writes s @ [((d AND 1, k), C k)], havedisk1 s, bio_state.more s)"
    using hb held by (simp add: transfer_def Let_def flag_off st sector_def) (simp add: upd_buf_def st)
  have "yields (\<lambda>_ t. calm me t \<and> store t = transfer b ?t) (iderw b ?t)"
    by (rule iderw_calm) (use t(2) held hb h(2) cacheD(2) [OF c] in \<open>auto simp: st flag_off\<close>, auto simp: upd_buf_def st flag_off)
  then have "yields (\<lambda>_ t. cache me d H C (Q - {k}) t \<and>
      outside t = ((disk s)((d AND 1, k) := C k), disk_writes s @ [((d AND 1, k), C k)], bio_state.more s)) (iderw b ?t)"
  proof (rule yields_mono, elim conjE, intro conjI)
    fix x v assume v: "calm me v" "store v = transfer b ?t"
    show "cache me d H C (Q - {k}) v"
      by (rule held_change [OF c h(1) _ _ _ _ _ _ _ _ _ _ _ v(1) v(2) [unfolded tr]]) (use hb held in auto)
    show "outside v = ((disk s)((d AND 1, k) := C k), disk_writes s @ [((d AND 1, k), C k)], bio_state.more s)"
      by (simp add: outside_def store_sel [OF v(2) [unfolded tr]])
  qed
  then show ?thesis by (simp add: bwrite_def t(1))
qed

text \<open>A block may be given back when the disk has its contents or the cache keeps it pinned.\<close>

lemma tidy_payload:
  assumes "tidy d H C Q L D B" "\<And>c. payload (B' c) = payload (B c)"
  shows "tidy d H C Q L D B'"
proof -
  have "b_flags (B' c) = b_flags (B c) \<and> b_dev (B' c) = b_dev (B c) \<and> b_blockno (B' c) = b_blockno (B c) \<and>
      b_refcnt (B' c) = b_refcnt (B c) \<and> b_data (B' c) = b_data (B c)" for c
    using assms(2) [of c] by (simp add: payload_def)
  then show ?thesis using assms(1) by (simp add: tidy_def)
qed

lemma relink_bufs_only: "link_front b (unlink b s) = s\<lparr>bufs := bufs (link_front b (unlink b s))\<rparr>"
  by (simp add: link_front_def unlink_def upd_buf_def Let_def)

lemma brelse_cache:
  assumes c: "cache me d H C Q s" and h: "H k = Some b" "k \<in> Q \<or> C k = disk s (d AND 1, k)"
  shows "yields (\<lambda>_ t. cache me d (H(k := None)) C Q t \<and> outside t = outside s) (brelse b s)"
proof -
  note T = cacheD(3) [OF c]
  note hb = tidyD(2) [OF T h(1)]
  note held = cache_held [OF c h(1)]
  obtain t where t: "holdingsleep (BufLock b) s = Ok True t" "calm me t" "store t = store s"
    using holdingsleep_calm [OF cacheD(1) [OF c], of "BufLock b"] held(3) by (auto simp: yields_iff)
  note st = store_sel [OF t(3) [unfolded store_def [of s]]]
  obtain v where v: "releasesleep (BufLock b) t = Ok () v" "calm me v"
      "store v = (bufs s, busy s - {BufLock b}, disk s, disk_writes s, havedisk1 s, bio_state.more s)"
    using releasesleep_calm [OF t(2), of "BufLock b"] by (auto simp: yields_iff st)
  note sv = store_sel [OF v(3)]
  obtain e where m: "held_at {} 0 True e me v" using v(2) by (auto simp: calm_def)
  obtain x l where a: "acquire BcacheLock v = Ok () (v\<lparr>cpus := x, locks := l\<rparr>)"
    and ma: "held_at {BcacheLock} 1 False True me (v\<lparr>cpus := x, locks := l\<rparr>)"
    by (rule mach_acquire [OF m, of BcacheLock]) auto
  let ?v = "v\<lparr>cpus := x, locks := l\<rparr>"
  let ?w = "upd_buf b (\<lambda>u. u\<lparr>b_refcnt := b_refcnt u - 1\<rparr>) ?v"
  let ?y = "link_front b (unlink b ?w)"
  have run: "brelse b s = release BcacheLock ?y"
    using hb by (simp add: brelse_def t(1) v(1) a Let_def) (simp add: upd_buf_def sv)
  define B where "B = bufs ?y"
  have ye: "?y = ?v\<lparr>bufs := B\<rparr>" unfolding B_def by (subst relink_bufs_only) (simp add: upd_buf_def)
  have my: "held_at {BcacheLock} 1 False True me (?v\<lparr>bufs := B\<rparr>)" using ma by simp
  obtain c' l' where r: "release BcacheLock (?v\<lparr>bufs := B\<rparr>) = Ok () (v\<lparr>bufs := B, cpus := c', locks := l'\<rparr>)"
    and mr: "held_at {} 0 True True me (v\<lparr>bufs := B, cpus := c', locks := l'\<rparr>)"
    by (rule mach_release [OF my, of BcacheLock]) auto
  let ?z = "v\<lparr>bufs := B, cpus := c', locks := l'\<rparr>"
  let ?u = "(bufs s b)\<lparr>b_refcnt := 0\<rparr>"
  have bz: "busy ?z = busy s - {BufLock b}" using sv(2) by (simp add: busy_def)
  have cz: "calm me ?z" by (rule mach_calm [OF mr]) (use v(2) in \<open>auto simp: calm_def\<close>)
  have bw: "bufs ?w = (bufs s)(b := ?u)" using hb by (simp add: upd_buf_def sv)
  obtain xs where xs: "lru (bufs s) xs" "set xs = {..<NBUF}" using cacheD(4) [OF c] by blast
  have "lru (bufs ?w) xs" unfolding bw by (rule lru_data_cong [OF xs(1)]) simp
  then have lz: "lru B (b # remove1 b xs)" unfolding B_def by (rule relink_lru) (use xs(2) held(4) in simp)
  have "set (b # remove1 b xs) = {..<NBUF}" using xs held(4) by (auto simp: lru_def)
  have alone: "b_blockno (bufs s c) \<noteq> k" if "c < NBUF" "c \<noteq> b" "b_dev (bufs s c) = d" for c
    using tidyD(1) [OF T that(1), of b] hb that by auto
  have own: "j = k" if "H j = Some b" for j using tidyD(2) [OF T that] hb by simp
  have "tidy d (H(k := None)) C Q (busy s - {BufLock b}) (disk s) ((bufs s)(b := ?u))"
  proof (rule tidy_change [OF T, where k = k and h = False])
    show "k \<in> Q \<longleftrightarrow> dirty ?u" using pinned_dirty [OF T] hb by auto
    show "b_blockno (bufs s c) \<noteq> k" if "c < NBUF" "c \<noteq> b" "b_dev (bufs s c) = d" for c by (rule alone [OF that])
    show "j = k" if "H j = Some b" for j by (rule own [OF that])
  qed (use h hb held in auto)
  then have "tidy d (H(k := None)) C Q (busy s - {BufLock b}) (disk s) B"
    by (rule tidy_payload) (simp only: B_def payload_relink bw)
  then have "cache me d (H(k := None)) C Q ?z"
    unfolding cache_def bz using cz cacheD(2) [OF c] lz \<open>set (b # remove1 b xs) = {..<NBUF}\<close> by (auto simp: sv)
  then show ?thesis unfolding run ye r by (simp add: sv outside_def)
qed

end
