(* ===== verification/DiskFormat.thy ===== *)
theory DiskFormat
  imports Dir
begin

text \<open>
  The layout of structures in disk blocks: what is stored at an offset is read back, and
  nothing else in the block changes. Inodes, directory entries and the log header survive
  the way to the disk and back.
\<close>

section \<open>Words and half words in a block\<close>

lemma set_word_length [simp]: "length (set_word d i v) = length d"
  by (simp add: set_word_def)

lemma set_half_length [simp]: "length (set_half d i v) = length d"
  by (simp add: set_half_def)

lemma set_word_nth: "j < i \<or> i + 4 \<le> j \<Longrightarrow> set_word d i v ! j = d ! j"
  by (auto simp: set_word_def)

lemma set_half_nth: "j < i \<or> i + 2 \<le> j \<Longrightarrow> set_half d i v ! j = d ! j"
  by (auto simp: set_half_def)

lemma word_set_same [simp]: "i + 4 \<le> length d \<Longrightarrow> word_at (set_word d i v) i = v"
  by (simp add: word_at_def set_word_def bytes_of_u32)

lemma bytes_of_u16:
  fixes v :: u16
  shows "ucast (ucast v :: u8) OR push_bit 8 (ucast (ucast (drop_bit 8 v) :: u8)) = v" (is "?w = v")
proof (rule bit_word_eqI)
  fix n :: nat
  assume "n < LENGTH(16)"
  then consider "n < 8" | "8 \<le> n" "n < 16" by fastforce
  then show "bit ?w n = bit v n"
    by cases (auto simp: bit_simps)
qed

lemma half_set_same [simp]: "i + 2 \<le> length d \<Longrightarrow> half_at (set_half d i v) i = v"
  by (simp add: half_at_def set_half_def bytes_of_u16)

lemma word_at_cong:
  assumes "\<And>k. k < 4 \<Longrightarrow> d ! (j + k) = e ! (j + k)"
  shows "word_at d j = word_at e j"
  using assms [of 0] assms [of 1] assms [of 2] assms [of 3] by (simp add: word_at_def)

lemma half_at_cong:
  assumes "\<And>k. k < 2 \<Longrightarrow> d ! (j + k) = e ! (j + k)"
  shows "half_at d j = half_at e j"
  using assms [of 0] assms [of 1] by (simp add: half_at_def)

lemma word_set_other [simp]: "j + 4 \<le> i \<or> i + 4 \<le> j \<Longrightarrow> word_at (set_word d i v) j = word_at d j"
  by (rule word_at_cong) (auto simp: set_word_nth)

lemma word_set_half_other [simp]: "j + 4 \<le> i \<or> i + 2 \<le> j \<Longrightarrow> word_at (set_half d i v) j = word_at d j"
  by (rule word_at_cong) (auto simp: set_half_nth)

lemma half_set_other [simp]: "j + 2 \<le> i \<or> i + 2 \<le> j \<Longrightarrow> half_at (set_half d i v) j = half_at d j"
  by (rule half_at_cong) (auto simp: set_half_nth)

lemma half_set_word_other [simp]: "j + 2 \<le> i \<or> i + 4 \<le> j \<Longrightarrow> half_at (set_word d i v) j = half_at d j"
  by (rule half_at_cong) (auto simp: set_word_nth)

text \<open>An array of words.\<close>

definition set_words :: "nat \<Rightarrow> (nat \<Rightarrow> u32) \<Rightarrow> nat \<Rightarrow> u8 list \<Rightarrow> u8 list" where
  "set_words o' f n d = fold (\<lambda>k d. set_word d (o' + 4 * k) (f k)) [0..<n] d"

lemma set_words_length [simp]: "length (set_words o' f n d) = length d"
  by (induction n) (simp_all add: set_words_def)

lemma set_words_Suc: "set_words o' f (Suc n) d = set_word (set_words o' f n d) (o' + 4 * n) (f n)"
  by (simp add: set_words_def)

lemma set_words_nth: "j < o' \<or> o' + 4 * n \<le> j \<Longrightarrow> set_words o' f n d ! j = d ! j"
proof (induction n)
  case (Suc n)
  then show ?case by (auto simp: set_words_Suc set_word_nth)
qed (simp add: set_words_def)

lemma word_set_words: "k < n \<Longrightarrow> o' + 4 * n \<le> length d \<Longrightarrow> word_at (set_words o' f n d) (o' + 4 * k) = f k"
proof (induction n)
  case (Suc n)
  then show ?case by (cases "k = n") (simp_all add: set_words_Suc)
qed simp

lemma set_words_other:
  "j + 4 \<le> o' \<or> o' + 4 * n \<le> j \<Longrightarrow> word_at (set_words o' f n d) j = word_at d j"
  "j + 2 \<le> o' \<or> o' + 4 * n \<le> j \<Longrightarrow> half_at (set_words o' f n d) j = half_at d j"
  by (rule word_at_cong; auto simp: set_words_nth) (rule half_at_cong; auto simp: set_words_nth)

section \<open>Inodes\<close>

lemma set_dinode_words:
  "set_dinode d o' ip = set_words (o' + 12) (\<lambda>k. i_addrs ip ! k) (NDIRECT + 1)
     (set_word (set_half (set_half (set_half (set_half d o' (i_type ip)) (o' + 2) (i_major ip)) (o' + 4) (i_minor ip))
       (o' + 6) (i_nlink ip)) (o' + 8) (i_size ip))"
  by (simp add: set_dinode_def set_words_def Let_def)

lemma set_dinode_length [simp]: "length (set_dinode d o' ip) = length d"
  by (simp add: set_dinode_words)

lemma dinode_set_same:
  assumes "o' + DINODE_SIZE \<le> length d" "length (i_addrs ip) = NDIRECT + 1"
  shows "dinode_at (set_dinode d o' ip) o' = dinode.truncate ip"
proof -
  have "map (\<lambda>k. word_at (set_dinode d o' ip) (o' + 12 + 4 * k)) [0..<NDIRECT + 1] = i_addrs ip"
    using assms by (intro nth_equalityI) (simp_all add: set_dinode_words word_set_words kernel_defs del: upt_Suc)
  moreover have "half_at (set_dinode d o' ip) o' = i_type ip" "half_at (set_dinode d o' ip) (o' + 2) = i_major ip"
    "half_at (set_dinode d o' ip) (o' + 4) = i_minor ip" "half_at (set_dinode d o' ip) (o' + 6) = i_nlink ip"
    "word_at (set_dinode d o' ip) (o' + 8) = i_size ip"
    using assms by (simp_all add: set_dinode_words set_words_other kernel_defs)
  ultimately show ?thesis by (simp add: dinode_at_def dinode.defs del: upt_Suc)
qed

lemma set_dinode_nth:
  "j < o' \<or> o' + DINODE_SIZE \<le> j \<Longrightarrow> set_dinode d o' ip ! j = d ! j"
  by (auto simp: set_dinode_words set_words_nth set_word_nth set_half_nth kernel_defs)

text \<open>Slots of different inodes of one block do not overlap and lie inside the block.\<close>

lemma inode_off_inside: "inode_off inum + DINODE_SIZE \<le> BSIZE"
proof -
  have "unat inum mod IPB < IPB" by (simp add: IPB_def BSIZE_def DINODE_SIZE_def)
  then show ?thesis by (simp add: inode_off_def kernel_defs)
qed

lemma inode_off_apart:
  "unat a mod IPB \<noteq> unat b mod IPB \<Longrightarrow> inode_off a + DINODE_SIZE \<le> inode_off b \<or> inode_off b + DINODE_SIZE \<le> inode_off a"
  by (auto simp: inode_off_def kernel_defs)

lemma dinode_at_cong:
  assumes "\<And>k. k < DINODE_SIZE \<Longrightarrow> d ! (o' + k) = e ! (o' + k)"
  shows "dinode_at d o' = dinode_at e o'"
proof -
  have w: "word_at d (o' + j) = word_at e (o' + j)" if "j + 4 \<le> DINODE_SIZE" for j
    using assms that by (intro word_at_cong) (simp add: add.assoc)
  have h: "half_at d (o' + j) = half_at e (o' + j)" if "j + 2 \<le> DINODE_SIZE" for j
    using assms that by (intro half_at_cong) (simp add: add.assoc)
  show ?thesis
    using h [of 0] h [of 2] h [of 4] h [of 6] w [of 8] w [of "12 + 4 * k" for k]
    by (simp add: dinode_at_def kernel_defs add.assoc del: upt_Suc)
qed

text \<open>
  C27: An inode survives the disk. In a block of inodes, the inode that \<^verbatim>\<open>iupdate\<close> stores is the one
  that \<^verbatim>\<open>ilock\<close> loads again, field by field, and every other inode of the block is untouched.
\<close>

theorem dinode_roundtrip:
  assumes "length d = BSIZE" "length (i_addrs ip) = NDIRECT + 1"
  shows "copy_dinode (dinode_at (set_dinode d (inode_off inum) ip) (inode_off inum)) jp =
      jp\<lparr>i_type := i_type ip, i_major := i_major ip, i_minor := i_minor ip, i_nlink := i_nlink ip, i_size := i_size ip,
        i_addrs := i_addrs ip\<rparr> \<and>
    (\<forall>other. unat other mod IPB \<noteq> unat inum mod IPB \<longrightarrow>
      dinode_at (set_dinode d (inode_off inum) ip) (inode_off other) = dinode_at d (inode_off other))"
proof (intro conjI allI impI)
  show "copy_dinode (dinode_at (set_dinode d (inode_off inum) ip) (inode_off inum)) jp =
      jp\<lparr>i_type := i_type ip, i_major := i_major ip, i_minor := i_minor ip, i_nlink := i_nlink ip, i_size := i_size ip,
        i_addrs := i_addrs ip\<rparr>"
    using dinode_set_same [of "inode_off inum" d ip] inode_off_inside [of inum] assms
    by (simp add: copy_dinode_def dinode.defs)
next
  fix other :: u32 assume "unat other mod IPB \<noteq> unat inum mod IPB"
  from inode_off_apart [OF this] show "dinode_at (set_dinode d (inode_off inum) ip) (inode_off other) = dinode_at d (inode_off other)"
    by (intro dinode_at_cong set_dinode_nth) auto
qed

lemma dinode_roundtrip_witness:
  "i_size (copy_dinode (dinode_at (set_dinode (replicate BSIZE 0) (inode_off 3)
      \<lparr>i_type = 2, i_major = 0, i_minor = 0, i_nlink = 1, i_size = 777, i_addrs = replicate 13 58\<rparr>) (inode_off 3))
      \<lparr>i_type = 0, i_major = 0, i_minor = 0, i_nlink = 0, i_size = 0, i_addrs = [], i_dev = 1, i_inum = 3, i_ref = 1, i_flags = 0\<rparr>) = 777"
  using dinode_roundtrip [of "replicate BSIZE 0"
      "\<lparr>i_type = 2, i_major = 0, i_minor = 0, i_nlink = 1, i_size = 777, i_addrs = replicate 13 58\<rparr>" 3
      "\<lparr>i_type = 0, i_major = 0, i_minor = 0, i_nlink = 0, i_size = 0, i_addrs = [], i_dev = 1, i_inum = 3, i_ref = 1, i_flags = 0\<rparr>"]
  by (simp add: NDIRECT_def)


section \<open>Directory entries\<close>

lemma strncpy_bytes: "strncpy (replicate DIRSIZ 0) name DIRSIZ =
    take DIRSIZ (cstr name) @ replicate (DIRSIZ - length (take DIRSIZ (cstr name))) 0"
  using strncpy_eq [of DIRSIZ "replicate DIRSIZ 0" name] by simp

lemma cstr_no_zero: "0 \<notin> set (cstr p)"
  by (induction p) auto

lemma cstr_padded: "0 \<notin> set xs \<Longrightarrow> cstr (xs @ replicate n 0) = xs"
  by (induction xs) (auto, cases n, auto)

lemma cstr_dirent: "cstr (dirent_name (make_dirent name inum)) = take DIRSIZ (cstr name)"
proof -
  have "dirent_name (make_dirent name inum) = strncpy (replicate DIRSIZ 0) name DIRSIZ"
    by (simp add: dirent_name_def make_dirent_def set_half_def)
  moreover have "0 \<notin> set (take DIRSIZ (cstr name))" using cstr_no_zero [of name] in_set_takeD by fast
  ultimately show ?thesis by (simp add: strncpy_bytes cstr_padded del: length_take)
qed

text \<open>
  C28: Directory entries: an entry built for a name and an inode number has 16 bytes and carries the
  number, and looking for a name finds the entry exactly when the first 14 characters of the two
  names are the same.
\<close>

theorem dirent_roundtrip:
  "length (make_dirent name inum) = unat DIRENT_SIZE \<and> dirent_inum (make_dirent name inum) = ucast inum \<and>
   (namecmp wanted (dirent_name (make_dirent name inum)) = 0 \<longleftrightarrow> take DIRSIZ (cstr wanted) = take DIRSIZ (cstr name))"
proof (intro conjI)
  have "length (strncpy (replicate DIRSIZ 0) name DIRSIZ) = DIRSIZ" by (simp add: strncpy_bytes)
  then show "length (make_dirent name inum) = unat DIRENT_SIZE"
    by (simp add: make_dirent_def DIRENT_SIZE_def DIRSIZ_def)
  show "dirent_inum (make_dirent name inum) = ucast inum"
    by (simp add: dirent_inum_def make_dirent_def)
  show "namecmp wanted (dirent_name (make_dirent name inum)) = 0 \<longleftrightarrow> take DIRSIZ (cstr wanted) = take DIRSIZ (cstr name)"
    by (simp add: namecmp_def strncmp_eq_0_iff cstr_dirent)
qed

section \<open>The log header\<close>

definition header_block :: "int \<Rightarrow> u32 list \<Rightarrow> u8 list \<Rightarrow> u8 list" where
  "header_block n bs d = set_words 4 (\<lambda>i. bs ! i) (nat n) (set_word d 0 (of_int n))"

lemma header_length [simp]: "length (header_block n bs d) = length d"
  by (simp add: header_block_def)

lemma header_count: "0 \<le> n \<Longrightarrow> n \<le> int LOGSIZE \<Longrightarrow> length d = BSIZE \<Longrightarrow> sint (word_at (header_block n bs d) 0) = n"
  by (simp add: header_block_def set_words_other kernel_defs signed_of_int signed_take_bit_int_eq_self)

lemma header_entry:
  "0 \<le> n \<Longrightarrow> n \<le> int LOGSIZE \<Longrightarrow> length d = BSIZE \<Longrightarrow> i < nat n \<Longrightarrow> word_at (header_block n bs d) (4 + 4 * i) = bs ! i"
  using word_set_words [of i "nat n" 4 "set_word d 0 (of_int n)" "\<lambda>i. bs ! i"]
  by (simp add: header_block_def kernel_defs)

end
