(* ===== verification/Syscall.thy ===== *)
theory Syscall
  imports Life
begin

text \<open>
  System call arguments (\<^verbatim>\<open>syscall.c\<close>) and the process-related calls (\<^verbatim>\<open>sysproc.c\<close>). User
  memory is read and written through the page table of the running process, as the kernel
  does when it dereferences a user pointer. A failed fetch is \<^const>\<open>None\<close>.
\<close>

section \<open>Fetching arguments\<close>

definition fetchint :: "u32 \<Rightarrow> 'z proc_state_scheme \<Rightarrow> (u32 option, 'z proc_state_scheme) res" where
  "fetchint addr =
     with_proc (\<lambda>me s.
       if addr \<ge> p_sz (pslot s me) \<or> addr + 4 > p_sz (pslot s me) then Ok None s
       else case uld32 addr s of None \<Rightarrow> Fault | Some v \<Rightarrow> Ok (Some v) s)"

fun fetchstr_loop :: "nat \<Rightarrow> u32 \<Rightarrow> 'z proc_state_scheme \<Rightarrow> (u8 list option, 'z proc_state_scheme) res" where
  "fetchstr_loop 0 a s = Ok None s"
| "fetchstr_loop (Suc n) a s =
     (case uld8 a s of
        None \<Rightarrow> Fault
      | Some b \<Rightarrow>
          if b = 0 then Ok (Some []) s
          else bind (fetchstr_loop n (a + 1) s) (\<lambda>r s. Ok (map_option (\<lambda>bs. b # bs) r) s))"

text \<open>The string at \<^verbatim>\<open>addr\<close>, without its terminator, if it ends inside the process.\<close>

definition fetchstr :: "u32 \<Rightarrow> 'z proc_state_scheme \<Rightarrow> (u8 list option, 'z proc_state_scheme) res" where
  "fetchstr addr =
     with_proc (\<lambda>me s.
       if addr \<ge> p_sz (pslot s me) then Ok None s
       else fetchstr_loop (unat (p_sz (pslot s me) - addr)) addr s)"

definition argint :: "u32 \<Rightarrow> 'z proc_state_scheme \<Rightarrow> (u32 option, 'z proc_state_scheme) res" where
  "argint n =
     with_proc (\<lambda>me s. fetchint (ld32 (mem s) (p_tf (pslot s me) + tf_esp) + 4 + 4 * n) s)"

definition argptr :: "u32 \<Rightarrow> u32 \<Rightarrow> 'z proc_state_scheme \<Rightarrow> (u32 option, 'z proc_state_scheme) res" where
  "argptr n nbytes s =
     bind (argint n s) (\<lambda>r s.
     case r of
       None \<Rightarrow> Ok None s
     | Some i \<Rightarrow>
         with_proc (\<lambda>me s.
           if nbytes <s 0 \<or> i \<ge> p_sz (pslot s me) \<or> i + nbytes > p_sz (pslot s me) then Ok None s
           else Ok (Some i) s) s)"

definition argstr :: "u32 \<Rightarrow> 'z proc_state_scheme \<Rightarrow> (u8 list option, 'z proc_state_scheme) res" where
  "argstr n s =
     bind (argint n s) (\<lambda>r s. case r of None \<Rightarrow> Ok None s | Some addr \<Rightarrow> fetchstr addr s)"

text \<open>Whole user buffers.\<close>

fun user_load :: "u32 \<Rightarrow> nat \<Rightarrow> 'z kmem_state_scheme \<Rightarrow> (u8 list, 'z kmem_state_scheme) res" where
  "user_load a 0 s = Ok [] s"
| "user_load a (Suc n) s =
     (case uld8 a s of
        None \<Rightarrow> Fault
      | Some b \<Rightarrow> bind (user_load (a + 1) n s) (\<lambda>bs s. Ok (b # bs) s))"

fun user_store :: "u32 \<Rightarrow> u8 list \<Rightarrow> 'z kmem_state_scheme \<Rightarrow> (unit, 'z kmem_state_scheme) res" where
  "user_store a [] s = Ok () s"
| "user_store a (b # bs) s = bind (ust8 a b s) (\<lambda>_ s. user_store (a + 1) bs s)"

section \<open>Process calls\<close>

definition sys_fork :: "'z life_state_scheme \<Rightarrow> (u32, 'z life_state_scheme) res" where
  "sys_fork s = fork s"

definition sys_exit :: "'z life_state_scheme \<Rightarrow> (u32, 'z life_state_scheme) res" where
  "sys_exit s = exit s"

definition sys_wait :: "'z life_state_scheme \<Rightarrow> (u32, 'z life_state_scheme) res" where
  "sys_wait s = wait s"

definition sys_kill :: "'z life_state_scheme \<Rightarrow> (u32, 'z life_state_scheme) res" where
  "sys_kill s =
     bind (argint 0 s) (\<lambda>r s.
     case r of None \<Rightarrow> Ok (- 1) s | Some pid \<Rightarrow> bind (kill pid s) (\<lambda>r s. Ok (of_int r) s))"

definition sys_getpid :: "'z life_state_scheme \<Rightarrow> (u32, 'z life_state_scheme) res" where
  "sys_getpid = with_proc (\<lambda>me s. Ok (p_pid (pslot s me)) s)"

text \<open>
  The pointers start out null and the results of \<^verbatim>\<open>argptr\<close> are ignored, so that a bad
  argument makes the call store at user address 0.
\<close>

definition arg_or_null :: "u32 \<Rightarrow> 'z proc_state_scheme \<Rightarrow> (u32, 'z proc_state_scheme) res" where
  "arg_or_null n s = bind (argptr n 4 s) (\<lambda>r s. Ok (case r of None \<Rightarrow> 0 | Some a \<Rightarrow> a) s)"

definition sys_getppid :: "'z life_state_scheme \<Rightarrow> (u32, 'z life_state_scheme) res" where
  "sys_getppid s =
     bind (arg_or_null 0 s) (\<lambda>wtime s.
     bind (arg_or_null 1 s) (\<lambda>rtime s.
     with_proc (\<lambda>me s.
       bind (ust8 wtime (ucast ((p_etime (pslot s me) - p_ctime (pslot s me)) - p_rtime (pslot s me))) s) (\<lambda>_ s.
       bind (ust8 rtime (ucast (p_rtime (pslot s me))) s) (\<lambda>_ s.
       Ok 0 s))) s))"

text \<open>The value of a missing argument was never written.\<close>

definition sys_setcid :: "'z life_state_scheme \<Rightarrow> (u32, 'z life_state_scheme) res" where
  "sys_setcid s =
     bind (argint 0 s) (\<lambda>r s.
     case r of
       None \<Rightarrow> Fault
     | Some z \<Rightarrow> with_proc (\<lambda>me s. Ok 1 (upd_proc me (\<lambda>p. p\<lparr>p_cid := z\<rparr>) s)) s)"

definition nice_proc :: "u32 \<Rightarrow> proc \<Rightarrow> proc" where
  "nice_proc now p =
     (let p = (if p_queuelevel p = 3
               then p\<lparr>p_q3rtime := p_rtime p, p_q3tatime := now - p_ctime p\<rparr> else p);
          p = (if p_queuelevel p = 2
               then p\<lparr>p_q2rtime := p_rtime p - p_q3rtime p, p_q2tatime := now - p_ctime p - p_q3tatime p\<rparr> else p)
      in p\<lparr>p_queuelevel := p_queuelevel p - 1\<rparr>)"

definition sys_nice :: "'z life_state_scheme \<Rightarrow> (u32, 'z life_state_scheme) res" where
  "sys_nice =
     with_proc (\<lambda>me s.
       if p_queuelevel (pslot s me) > 1 then Ok 1 (upd_proc me (nice_proc (ticks s)) s)
       else Ok 0 s)"

definition sys_wait2 :: "'z life_state_scheme \<Rightarrow> (u32, 'z life_state_scheme) res" where
  "sys_wait2 s =
     bind (arg_or_null 0 s) (\<lambda>wtime s.
     bind (arg_or_null 1 s) (\<lambda>rtime s. wait22 wtime rtime s))"

definition sys_wait3 :: "'z life_state_scheme \<Rightarrow> (u32, 'z life_state_scheme) res" where
  "sys_wait3 s =
     bind (arg_or_null 0 s) (\<lambda>wtime s.
     bind (arg_or_null 1 s) (\<lambda>rtime s.
     bind (arg_or_null 2 s) (\<lambda>cid s.
     bind (arg_or_null 3 s) (\<lambda>q3rtime s.
     bind (arg_or_null 4 s) (\<lambda>q3tatime s.
     bind (arg_or_null 5 s) (\<lambda>q2rtime s.
     bind (arg_or_null 6 s) (\<lambda>q2tatime s.
     wait33 wtime rtime cid q3rtime q3tatime q2rtime q2tatime s)))))))"

definition sys_sbrk :: "'z life_state_scheme \<Rightarrow> (u32, 'z life_state_scheme) res" where
  "sys_sbrk s =
     bind (argint 0 s) (\<lambda>r s.
     case r of
       None \<Rightarrow> Ok (- 1) s
     | Some n \<Rightarrow>
         with_proc (\<lambda>me s.
           let addr = p_sz (pslot s me)
           in bind (growproc n s) (\<lambda>r s. if r < 0 then Ok (- 1) s else Ok addr s)) s)"

text \<open>The comparison with the signed argument is unsigned.\<close>

definition sys_sleep_loop :: "u32 \<Rightarrow> u32 \<Rightarrow> 'z life_state_scheme \<Rightarrow> (u32, 'z life_state_scheme) res" where
  "sys_sleep_loop ticks0 n s =
     (if ticks s - ticks0 < n then
        with_proc (\<lambda>me s.
          if p_killed (pslot s me) then bind (release TicksLock s) (\<lambda>_ s. Ok (- 1) s)
          else sleep ChanTicks (Some TicksLock) s) s
      else bind (release TicksLock s) (\<lambda>_ s. Ok 0 s))"

definition sys_sleep :: "'z life_state_scheme \<Rightarrow> (u32, 'z life_state_scheme) res" where
  "sys_sleep s =
     bind (argint 0 s) (\<lambda>r s.
     case r of
       None \<Rightarrow> Ok (- 1) s
     | Some n \<Rightarrow> bind (acquire TicksLock s) (\<lambda>_ s. sys_sleep_loop (ticks s) n s))"

definition sys_sleep_resume :: "bool \<Rightarrow> u32 \<Rightarrow> u32 \<Rightarrow> 'z life_state_scheme \<Rightarrow> (u32, 'z life_state_scheme) res" where
  "sys_sleep_resume saved ticks0 n s =
     bind (sleep_resume saved TicksLock s) (\<lambda>_ s. sys_sleep_loop ticks0 n s)"

definition sys_uptime :: "'z life_state_scheme \<Rightarrow> (u32, 'z life_state_scheme) res" where
  "sys_uptime s =
     bind (acquire TicksLock s) (\<lambda>_ s.
     let xticks = ticks s
     in bind (release TicksLock s) (\<lambda>_ s. Ok xticks s))"

end
