(* ===== verification/Sysfile.thy ===== *)
theory Sysfile
  imports Syscall
begin

text \<open>
  The file-related system calls (\<^verbatim>\<open>sysfile.c\<close>) and the dispatch of system calls
  (\<^verbatim>\<open>syscall\<close> of \<^verbatim>\<open>syscall.c\<close>, with the numbers of \<^verbatim>\<open>syscall.h\<close>).
\<close>

section \<open>Descriptors\<close>

definition argfd :: "u32 \<Rightarrow> 'z life_state_scheme \<Rightarrow> ((nat \<times> nat) option, 'z life_state_scheme) res" where
  "argfd n s =
     bind (argint n s) (\<lambda>r s.
     case r of
       None \<Rightarrow> Ok None s
     | Some fd \<Rightarrow>
         if fd <s 0 \<or> sint fd \<ge> int NOFILE then Ok None s
         else with_proc (\<lambda>me s.
           Ok (map_option (\<lambda>f. (unat fd, f)) (p_ofile (pslot s me) ! unat fd)) s) s)"

definition fdalloc :: "nat \<Rightarrow> 'z life_state_scheme \<Rightarrow> (nat option, 'z life_state_scheme) res" where
  "fdalloc f =
     with_proc (\<lambda>me s.
       case scan (\<lambda>x. x = None) (p_ofile (pslot s me)) of
         None \<Rightarrow> Ok None s
       | Some fd \<Rightarrow> Ok (Some fd) (upd_proc me (\<lambda>p. p\<lparr>p_ofile := (p_ofile p)[fd := Some f]\<rparr>) s))"

definition clear_fd :: "nat \<Rightarrow> 'z life_state_scheme \<Rightarrow> (unit, 'z life_state_scheme) res" where
  "clear_fd fd =
     with_proc (\<lambda>me s. Ok () (upd_proc me (\<lambda>p. p\<lparr>p_ofile := (p_ofile p)[fd := None]\<rparr>) s))"

definition sys_dup :: "'z life_state_scheme \<Rightarrow> (u32, 'z life_state_scheme) res" where
  "sys_dup s =
     bind (argfd 0 s) (\<lambda>r s.
     case r of
       None \<Rightarrow> Ok (- 1) s
     | Some (_, f) \<Rightarrow>
         bind (fdalloc f s) (\<lambda>r s.
         case r of
           None \<Rightarrow> Ok (- 1) s
         | Some fd \<Rightarrow> bind (filedup f s) (\<lambda>_ s. Ok (of_nat fd) s)))"

definition arg_buffer :: "'z life_state_scheme \<Rightarrow> ((nat \<times> u32 \<times> u32) option, 'z life_state_scheme) res" where
  "arg_buffer s =
     bind (argfd 0 s) (\<lambda>r s.
     case r of
       None \<Rightarrow> Ok None s
     | Some (_, f) \<Rightarrow>
         bind (argint 2 s) (\<lambda>r s.
         case r of
           None \<Rightarrow> Ok None s
         | Some n \<Rightarrow>
             bind (argptr 1 n s) (\<lambda>r s. Ok (map_option (\<lambda>p. (f, p, n)) r) s)))"

definition sys_read :: "'z life_state_scheme \<Rightarrow> (u32, 'z life_state_scheme) res" where
  "sys_read s =
     bind (arg_buffer s) (\<lambda>r s.
     case r of
       None \<Rightarrow> Ok (- 1) s
     | Some (f, p, n) \<Rightarrow>
         bind (fileread f n s) (\<lambda>(r, bs) s.
         bind (user_store p bs s) (\<lambda>_ s. Ok (of_int r) s)))"

definition sys_write :: "'z life_state_scheme \<Rightarrow> (u32, 'z life_state_scheme) res" where
  "sys_write s =
     bind (arg_buffer s) (\<lambda>r s.
     case r of
       None \<Rightarrow> Ok (- 1) s
     | Some (f, p, n) \<Rightarrow>
         bind (user_load p (unat n) s) (\<lambda>bs s.
         bind (filewrite f bs s) (\<lambda>r s. Ok (of_int r) s)))"

definition sys_close :: "'z life_state_scheme \<Rightarrow> (u32, 'z life_state_scheme) res" where
  "sys_close s =
     bind (argfd 0 s) (\<lambda>r s.
     case r of
       None \<Rightarrow> Ok (- 1) s
     | Some (fd, f) \<Rightarrow>
         bind (clear_fd fd s) (\<lambda>_ s. bind (fileclose f s) (\<lambda>_ s. Ok 0 s)))"

text \<open>\<^verbatim>\<open>struct stat\<close> in user memory, field by field; padding is left alone.\<close>

definition store_stat :: "u32 \<Rightarrow> stat \<Rightarrow> 'z kmem_state_scheme \<Rightarrow> (unit, 'z kmem_state_scheme) res" where
  "store_stat a st s =
     bind (ust32 (a + 4) (st_dev st) s) (\<lambda>_ s.
     bind (ust32 (a + 8) (st_ino st) s) (\<lambda>_ s.
     bind (user_store a [ucast (st_type st), ucast (drop_bit 8 (st_type st))] s) (\<lambda>_ s.
     bind (user_store (a + 12) [ucast (st_nlink st), ucast (drop_bit 8 (st_nlink st))] s) (\<lambda>_ s.
     ust32 (a + 16) (st_size st) s))))"

definition sys_fstat :: "'z life_state_scheme \<Rightarrow> (u32, 'z life_state_scheme) res" where
  "sys_fstat s =
     bind (argfd 0 s) (\<lambda>r s.
     case r of
       None \<Rightarrow> Ok (- 1) s
     | Some (_, f) \<Rightarrow>
         bind (argptr 1 20 s) (\<lambda>r s.
         case r of
           None \<Rightarrow> Ok (- 1) s
         | Some st \<Rightarrow>
             bind (filestat f s) (\<lambda>r s.
             case r of
               None \<Rightarrow> Ok (- 1) s
             | Some v \<Rightarrow> bind (store_stat st v s) (\<lambda>_ s. Ok 0 s))))"

section \<open>Links\<close>

definition fail_op :: "'z life_state_scheme \<Rightarrow> (u32, 'z life_state_scheme) res" where
  "fail_op s = bind (end_op s) (\<lambda>_ s. Ok (- 1) s)"

definition add_nlink :: "u16 \<Rightarrow> nat \<Rightarrow> 'z fs_state_scheme \<Rightarrow> (unit, 'z fs_state_scheme) res" where
  "add_nlink d ip s = iupdate ip (upd_inode ip (\<lambda>u. u\<lparr>i_nlink := i_nlink u + d\<rparr>) s)"

definition sys_link :: "'z life_state_scheme \<Rightarrow> (u32, 'z life_state_scheme) res" where
  "sys_link s =
     bind (argstr 0 s) (\<lambda>r s. case r of None \<Rightarrow> Ok (- 1) s | Some old \<Rightarrow>
     bind (argstr 1 s) (\<lambda>r s. case r of None \<Rightarrow> Ok (- 1) s | Some new \<Rightarrow>
     bind (begin_op s) (\<lambda>_ s.
     bind (namei old s) (\<lambda>r s. case r of None \<Rightarrow> fail_op s | Some ip \<Rightarrow>
     bind (ilock ip s) (\<lambda>_ s.
     if i_type (inode_of s ip) = T_DIR then bind (iunlockput ip s) (\<lambda>_ s. fail_op s)
     else
       bind (add_nlink 1 ip s) (\<lambda>_ s.
       bind (iunlock ip s) (\<lambda>_ s.
       let bad = (\<lambda>s. bind (ilock ip s) (\<lambda>_ s.
             bind (add_nlink (- 1) ip s) (\<lambda>_ s.
             bind (iunlockput ip s) (\<lambda>_ s. fail_op s))))
       in bind (nameiparent new (replicate DIRSIZ 0) s) (\<lambda>r s.
          case r of
            None \<Rightarrow> bad s
          | Some (dp, name) \<Rightarrow>
              bind (ilock dp s) (\<lambda>_ s.
              bind (if i_dev (inode_of s dp) \<noteq> i_dev (inode_of s ip) then Ok (- 1) s
                    else dirlink dp name (i_inum (inode_of s ip)) s) (\<lambda>r s.
              if r < 0 then bind (iunlockput dp s) (\<lambda>_ s. bad s)
              else
                bind (iunlockput dp s) (\<lambda>_ s.
                bind (iput ip s) (\<lambda>_ s.
                bind (end_op s) (\<lambda>_ s. Ok 0 s)))))))))))))"

fun isdirempty_loop :: "nat \<Rightarrow> nat \<Rightarrow> u32 \<Rightarrow> 'z inp_state_scheme \<Rightarrow> (bool, 'z inp_state_scheme) res" where
  "isdirempty_loop 0 dp off s = Spin"
| "isdirempty_loop (Suc n) dp off s =
     (if \<not> off < i_size (inode_of s dp) then Ok True s
      else
        bind (readi dp off DIRENT_SIZE s) (\<lambda>(r, de) s.
        if r \<noteq> uint DIRENT_SIZE then Panic ''isdirempty: readi''
        else if dirent_inum de \<noteq> 0 then Ok False s
        else isdirempty_loop n dp (off + DIRENT_SIZE) s))"

definition isdirempty :: "nat \<Rightarrow> 'z inp_state_scheme \<Rightarrow> (bool, 'z inp_state_scheme) res" where
  "isdirempty dp s = isdirempty_loop (dir_fuel dp s) dp (2 * DIRENT_SIZE) s"

definition unlink_entry :: "nat \<Rightarrow> nat \<Rightarrow> u32 \<Rightarrow> 'z life_state_scheme \<Rightarrow> (u32, 'z life_state_scheme) res" where
  "unlink_entry dp ip off s =
     bind (writei dp (replicate 16 0) off s) (\<lambda>r s.
     if r \<noteq> uint DIRENT_SIZE then Panic ''unlink: writei''
     else
       bind (if i_type (inode_of s ip) = T_DIR then add_nlink (- 1) dp s else Ok () s) (\<lambda>_ s.
       bind (iunlockput dp s) (\<lambda>_ s.
       bind (add_nlink (- 1) ip s) (\<lambda>_ s.
       bind (iunlockput ip s) (\<lambda>_ s.
       bind (end_op s) (\<lambda>_ s. Ok 0 s))))))"

definition sys_unlink :: "'z life_state_scheme \<Rightarrow> (u32, 'z life_state_scheme) res" where
  "sys_unlink s =
     bind (argstr 0 s) (\<lambda>r s. case r of None \<Rightarrow> Ok (- 1) s | Some path \<Rightarrow>
     bind (begin_op s) (\<lambda>_ s.
     bind (nameiparent path (replicate DIRSIZ 0) s) (\<lambda>r s. case r of None \<Rightarrow> fail_op s | Some (dp, name) \<Rightarrow>
     bind (ilock dp s) (\<lambda>_ s.
     let bad = (\<lambda>s. bind (iunlockput dp s) (\<lambda>_ s. fail_op s))
     in if namecmp name (bytes ''.'') = 0 \<or> namecmp name (bytes ''..'') = 0 then bad s
        else
          bind (dirlookup dp name s) (\<lambda>r s.
          case r of
            None \<Rightarrow> bad s
          | Some (ip, off) \<Rightarrow>
              bind (ilock ip s) (\<lambda>_ s.
              if sint (i_nlink (inode_of s ip)) < 1 then Panic ''unlink: nlink < 1''
              else
                bind (if i_type (inode_of s ip) = T_DIR then isdirempty ip s else Ok True s) (\<lambda>empty s.
                if \<not> empty then bind (iunlockput ip s) (\<lambda>_ s. bad s)
                else unlink_entry dp ip off s)))))))"

section \<open>Creating and opening\<close>

definition create :: "u8 list \<Rightarrow> u16 \<Rightarrow> u16 \<Rightarrow> u16 \<Rightarrow> 'z life_state_scheme \<Rightarrow> (nat option, 'z life_state_scheme) res" where
  "create path type major minor s =
     bind (nameiparent path (replicate DIRSIZ 0) s) (\<lambda>r s.
     case r of
       None \<Rightarrow> Ok None s
     | Some (dp, name) \<Rightarrow>
         bind (ilock dp s) (\<lambda>_ s.
         bind (dirlookup dp name s) (\<lambda>r s.
         case r of
           Some (ip, _) \<Rightarrow>
             bind (iunlockput dp s) (\<lambda>_ s.
             bind (ilock ip s) (\<lambda>_ s.
             if type = T_FILE \<and> i_type (inode_of s ip) = T_FILE then Ok (Some ip) s
             else bind (iunlockput ip s) (\<lambda>_ s. Ok None s)))
         | None \<Rightarrow>
             bind (ialloc (i_dev (inode_of s dp)) type s) (\<lambda>ip s.
             bind (ilock ip s) (\<lambda>_ s.
             bind (iupdate ip (upd_inode ip (\<lambda>u. u\<lparr>i_major := major, i_minor := minor, i_nlink := 1\<rparr>) s)) (\<lambda>_ s.
             bind (if type = T_DIR then
                     bind (add_nlink 1 dp s) (\<lambda>_ s.
                     bind (dirlink ip (bytes ''.'') (i_inum (inode_of s ip)) s) (\<lambda>r s.
                     if r < 0 then Panic ''create dots''
                     else
                       bind (dirlink ip (bytes ''..'') (i_inum (inode_of s dp)) s) (\<lambda>r s.
                       if r < 0 then Panic ''create dots'' else Ok () s)))
                   else Ok () s) (\<lambda>_ s.
             bind (dirlink dp name (i_inum (inode_of s ip)) s) (\<lambda>r s.
             if r < 0 then Panic ''create: dirlink''
             else bind (iunlockput dp s) (\<lambda>_ s. Ok (Some ip) s)))))))))"

definition O_RDONLY :: u32 where "O_RDONLY = 0"
definition O_WRONLY :: u32 where "O_WRONLY = 1"
definition O_RDWR :: u32 where "O_RDWR = 2"
definition O_CREATE :: u32 where "O_CREATE = 0x200"

text \<open>The first half of \<^verbatim>\<open>sys_open\<close>: the locked inode, or \<^const>\<open>None\<close> with the operation ended.\<close>

definition open_inode :: "u8 list \<Rightarrow> u32 \<Rightarrow> 'z life_state_scheme \<Rightarrow> (nat option, 'z life_state_scheme) res" where
  "open_inode path omode s =
     (if omode AND O_CREATE \<noteq> 0 then
        bind (create path T_FILE 0 0 s) (\<lambda>r s.
        case r of None \<Rightarrow> bind (end_op s) (\<lambda>_ s. Ok None s) | Some ip \<Rightarrow> Ok (Some ip) s)
      else
        bind (namei path s) (\<lambda>r s.
        case r of
          None \<Rightarrow> bind (end_op s) (\<lambda>_ s. Ok None s)
        | Some ip \<Rightarrow>
            bind (ilock ip s) (\<lambda>_ s.
            if i_type (inode_of s ip) = T_DIR \<and> omode \<noteq> O_RDONLY
            then bind (iunlockput ip s) (\<lambda>_ s. bind (end_op s) (\<lambda>_ s. Ok None s))
            else Ok (Some ip) s)))"

definition sys_open :: "'z life_state_scheme \<Rightarrow> (u32, 'z life_state_scheme) res" where
  "sys_open s =
     bind (argstr 0 s) (\<lambda>r s. case r of None \<Rightarrow> Ok (- 1) s | Some path \<Rightarrow>
     bind (argint 1 s) (\<lambda>r s. case r of None \<Rightarrow> Ok (- 1) s | Some omode \<Rightarrow>
     bind (begin_op s) (\<lambda>_ s.
     bind (open_inode path omode s) (\<lambda>r s. case r of None \<Rightarrow> Ok (- 1) s | Some ip \<Rightarrow>
     let fail = (\<lambda>f s. bind (close_opt f s) (\<lambda>_ s. bind (iunlockput ip s) (\<lambda>_ s. fail_op s)))
     in bind (filealloc s) (\<lambda>r s.
        case r of
          None \<Rightarrow> fail None s
        | Some f \<Rightarrow>
            bind (fdalloc f s) (\<lambda>r s.
            case r of
              None \<Rightarrow> fail (Some f) s
            | Some fd \<Rightarrow>
                bind (iunlock ip s) (\<lambda>_ s.
                bind (end_op s) (\<lambda>_ s.
                Ok (of_nat fd) (upd_file f (\<lambda>u. u\<lparr>f_type := FD_INODE, f_ip := ip, f_off := 0,
                  f_readable := (omode AND O_WRONLY = 0),
                  f_writable := (omode AND O_WRONLY \<noteq> 0 \<or> omode AND O_RDWR \<noteq> 0)\<rparr>) s)))))))))"

definition sys_mkdir :: "'z life_state_scheme \<Rightarrow> (u32, 'z life_state_scheme) res" where
  "sys_mkdir s =
     bind (begin_op s) (\<lambda>_ s.
     bind (argstr 0 s) (\<lambda>r s. case r of None \<Rightarrow> fail_op s | Some path \<Rightarrow>
     bind (create path T_DIR 0 0 s) (\<lambda>r s. case r of None \<Rightarrow> fail_op s | Some ip \<Rightarrow>
     bind (iunlockput ip s) (\<lambda>_ s. bind (end_op s) (\<lambda>_ s. Ok 0 s)))))"

definition sys_mknod :: "'z life_state_scheme \<Rightarrow> (u32, 'z life_state_scheme) res" where
  "sys_mknod s =
     bind (begin_op s) (\<lambda>_ s.
     bind (argstr 0 s) (\<lambda>r s. case r of None \<Rightarrow> fail_op s | Some path \<Rightarrow>
     bind (argint 1 s) (\<lambda>r s. case r of None \<Rightarrow> fail_op s | Some major \<Rightarrow>
     bind (argint 2 s) (\<lambda>r s. case r of None \<Rightarrow> fail_op s | Some minor \<Rightarrow>
     bind (create path T_DEV (ucast major) (ucast minor) s) (\<lambda>r s. case r of None \<Rightarrow> fail_op s | Some ip \<Rightarrow>
     bind (iunlockput ip s) (\<lambda>_ s. bind (end_op s) (\<lambda>_ s. Ok 0 s)))))))"

definition sys_chdir :: "'z life_state_scheme \<Rightarrow> (u32, 'z life_state_scheme) res" where
  "sys_chdir s =
     bind (begin_op s) (\<lambda>_ s.
     bind (argstr 0 s) (\<lambda>r s. case r of None \<Rightarrow> fail_op s | Some path \<Rightarrow>
     bind (namei path s) (\<lambda>r s. case r of None \<Rightarrow> fail_op s | Some ip \<Rightarrow>
     bind (ilock ip s) (\<lambda>_ s.
     if i_type (inode_of s ip) \<noteq> T_DIR then bind (iunlockput ip s) (\<lambda>_ s. fail_op s)
     else
       bind (iunlock ip s) (\<lambda>_.
       with_proc (\<lambda>me s.
         bind (case p_cwd (pslot s me) of None \<Rightarrow> Fault | Some d \<Rightarrow> iput d s) (\<lambda>_ s.
         bind (end_op s) (\<lambda>_ s.
         Ok 0 (upd_proc me (\<lambda>p. p\<lparr>p_cwd := Some ip\<rparr>) s)))))))))"

section \<open>exec and pipe\<close>

fun fetch_argv :: "nat \<Rightarrow> u32 \<Rightarrow> 'z life_state_scheme \<Rightarrow> (u8 list list option, 'z life_state_scheme) res" where
  "fetch_argv 0 a s = Ok None s"
| "fetch_argv (Suc n) a s =
     bind (fetchint a s) (\<lambda>r s.
     case r of
       None \<Rightarrow> Ok None s
     | Some uarg \<Rightarrow>
         if uarg = 0 then Ok (Some []) s
         else
           bind (fetchstr uarg s) (\<lambda>r s.
           case r of
             None \<Rightarrow> Ok None s
           | Some str \<Rightarrow> bind (fetch_argv n (a + 4) s) (\<lambda>r s. Ok (map_option (\<lambda>xs. str # xs) r) s)))"

definition sys_exec :: "'z life_state_scheme \<Rightarrow> (u32, 'z life_state_scheme) res" where
  "sys_exec s =
     bind (argstr 0 s) (\<lambda>r s. case r of None \<Rightarrow> Ok (- 1) s | Some path \<Rightarrow>
     bind (argint 1 s) (\<lambda>r s. case r of None \<Rightarrow> Ok (- 1) s | Some uargv \<Rightarrow>
     bind (fetch_argv MAXARG uargv s) (\<lambda>r s. case r of None \<Rightarrow> Ok (- 1) s | Some argv \<Rightarrow>
     bind (exec path argv s) (\<lambda>r s. Ok (of_int r) s))))"

definition sys_pipe :: "'z life_state_scheme \<Rightarrow> (u32, 'z life_state_scheme) res" where
  "sys_pipe s =
     bind (argptr 0 8 s) (\<lambda>r s. case r of None \<Rightarrow> Ok (- 1) s | Some fd \<Rightarrow>
     bind (pipealloc s) (\<lambda>r s. case r of None \<Rightarrow> Ok (- 1) s | Some (rfile, wfile) \<Rightarrow>
     let fail = (\<lambda>s. bind (fileclose rfile s) (\<lambda>_ s. bind (fileclose wfile s) (\<lambda>_ s. Ok (- 1) s)))
     in bind (fdalloc rfile s) (\<lambda>r s.
        case r of
          None \<Rightarrow> fail s
        | Some fd0 \<Rightarrow>
            bind (fdalloc wfile s) (\<lambda>r s.
            case r of
              None \<Rightarrow> bind (clear_fd fd0 s) (\<lambda>_ s. fail s)
            | Some fd1 \<Rightarrow>
                bind (ust32 fd (of_nat fd0) s) (\<lambda>_ s.
                bind (ust32 (fd + 4) (of_nat fd1) s) (\<lambda>_ s. Ok 0 s))))))"

section \<open>Dispatch\<close>

definition syscalls :: "'z life_state_scheme itself \<Rightarrow> ('z life_state_scheme \<Rightarrow> (u32, 'z life_state_scheme) res) list" where
  "syscalls _ = [sys_fork, sys_exit, sys_wait, sys_pipe, sys_read, sys_kill, sys_exec, sys_fstat, sys_chdir,
     sys_dup, sys_getpid, sys_sbrk, sys_sleep, sys_uptime, sys_open, sys_write, sys_mknod, sys_unlink,
     sys_link, sys_mkdir, sys_close, sys_getppid, sys_nice, sys_wait2, sys_setcid, sys_wait3]"

definition set_eax :: "nat \<Rightarrow> u32 \<Rightarrow> 'z proc_state_scheme \<Rightarrow> 'z proc_state_scheme" where
  "set_eax me v s = upd_mem (\<lambda>m. st32 m (p_tf (pslot s me) + tf_eax) v) s"

definition syscall :: "'z life_state_scheme \<Rightarrow> (unit, 'z life_state_scheme) res" where
  "syscall =
     with_proc (\<lambda>me s.
       let num = sint (ld32 (mem s) (p_tf (pslot s me) + tf_eax))
       in if num > 0 \<and> num < 27 then
            bind ((syscalls TYPE('z life_state_scheme) ! (nat num - 1)) s) (\<lambda>r s. Ok () (set_eax me r s))
          else
            bind (cprintf (''%d %s: unknown sys call %d'' @ [CHR 0x0A])
                    [PInt (p_pid (pslot s me)), PStr (p_name (pslot s me)), PInt (of_int num)] s) (\<lambda>_ s.
            Ok () (set_eax me (- 1) s)))"

end
