(* ===== verification/Trap.thy ===== *)
theory Trap
  imports Sysfile
begin

text \<open>
  Traps and interrupts (\<^verbatim>\<open>trap.c\<close>). The arguments of a trap beyond its frame are what the
  devices deliver: the bytes in the keyboard controller and in the serial port, and the
  faulting address. Leaving the CPU inside the handler is an outcome; what is left to do
  when the process runs again is a definition of its own.
\<close>

definition T_SYSCALL :: u32 where "T_SYSCALL = 64"
definition T_IRQ0 :: u32 where "T_IRQ0 = 32"
definition IRQ_TIMER :: u32 where "IRQ_TIMER = 0"
definition IRQ_KBD :: u32 where "IRQ_KBD = 1"
definition IRQ_COM1 :: u32 where "IRQ_COM1 = 4"
definition IRQ_IDE :: u32 where "IRQ_IDE = 14"
definition IRQ_SPURIOUS :: u32 where "IRQ_SPURIOUS = 31"

lemmas trap_consts = T_SYSCALL_def T_IRQ0_def IRQ_TIMER_def IRQ_KBD_def IRQ_COM1_def IRQ_IDE_def IRQ_SPURIOUS_def

definition tvinit :: "'z machine_scheme \<Rightarrow> 'z machine_scheme" where
  "tvinit s = initlock TicksLock ''time'' s"

definition from_user :: "u32 \<Rightarrow> 'z kmem_state_scheme \<Rightarrow> bool" where
  "from_user tf s \<longleftrightarrow> ld16 (mem s) (tf + tf_cs) AND 3 = 3"

definition from_kernel :: "u32 \<Rightarrow> 'z kmem_state_scheme \<Rightarrow> bool" where
  "from_kernel tf s \<longleftrightarrow> ld16 (mem s) (tf + tf_cs) AND 3 = 0"

section \<open>The clock\<close>

definition tick_lock_section :: "'z proc_state_scheme \<Rightarrow> (unit, 'z proc_state_scheme) res" where
  "tick_lock_section s =
     bind (acquire TicksLock s) (\<lambda>_ s.
     bind (wakeup ChanTicks (s\<lparr>ticks := ticks s + 1\<rparr>)) (\<lambda>_ s.
     release TicksLock s))"

definition timer_intr :: "'z proc_state_scheme \<Rightarrow> (unit, 'z proc_state_scheme) res" where
  "timer_intr s =
     bind (if cur s = 0 then tick_lock_section s else Ok () s) (\<lambda>_ s.
     case cpu_proc (cpu s) of
       None \<Rightarrow> Ok () s
     | Some me \<Rightarrow>
         if p_state (pslot s me) = RUNNING
         then Ok () (upd_proc me (\<lambda>p. p\<lparr>p_rtime := p_rtime p + 1, p_myquantum := p_myquantum p + 1\<rparr>) s)
         else Ok () s)"

section \<open>The handler\<close>

definition exit_if_killed :: "u32 \<Rightarrow> 'z life_state_scheme \<Rightarrow> (unit, 'z life_state_scheme) res" where
  "exit_if_killed tf s =
     (case cpu_proc (cpu s) of
        None \<Rightarrow> Ok () s
      | Some me \<Rightarrow> if p_killed (pslot s me) \<and> from_user tf s then exit s else Ok () s)"

definition trap_syscall :: "u32 \<Rightarrow> 'z life_state_scheme \<Rightarrow> (unit, 'z life_state_scheme) res" where
  "trap_syscall tf =
     with_proc (\<lambda>me s.
       if p_killed (pslot s me) then exit s
       else
         bind (syscall (upd_proc me (\<lambda>p. p\<lparr>p_tf := tf\<rparr>) s)) (\<lambda>_ s.
         if p_killed (pslot s me) then exit s else Ok () s))"

definition trap_fault :: "u32 \<Rightarrow> u32 \<Rightarrow> 'z life_state_scheme \<Rightarrow> (unit, 'z life_state_scheme) res" where
  "trap_fault cr2 tf s =
     (let trapno = ld32 (mem s) (tf + tf_trapno);
          eip = ld32 (mem s) (tf + tf_eip);
          unexpected = bind (cprintf (''unexpected trap %d from cpu %d eip %x (cr2=0x%x)'' @ [CHR 0x0A])
            [PInt trapno, PInt (of_nat (cur s)), PInt eip, PInt cr2] s) (\<lambda>_ s. Panic ''trap'')
      in case cpu_proc (cpu s) of
           None \<Rightarrow> unexpected
         | Some me \<Rightarrow>
             if from_kernel tf s then unexpected
             else
               bind (cprintf (''pid %d %s: trap %d err %d on cpu %d eip 0x%x addr 0x%x--kill proc'' @ [CHR 0x0A])
                 [PInt (p_pid (pslot s me)), PStr (p_name (pslot s me)), PInt trapno,
                  PInt (ld32 (mem s) (tf + tf_err)), PInt (of_nat (cur s)), PInt eip, PInt cr2] s) (\<lambda>_ s.
               Ok () (upd_proc me (\<lambda>p. p\<lparr>p_killed := True\<rparr>) s)))"

definition trap_switch ::
  "u8 list \<Rightarrow> u8 list \<Rightarrow> u32 \<Rightarrow> u32 \<Rightarrow> 'z life_state_scheme \<Rightarrow> (unit, 'z life_state_scheme) res" where
  "trap_switch kbd ser cr2 tf s =
     (let trapno = ld32 (mem s) (tf + tf_trapno)
      in if trapno = T_IRQ0 + IRQ_TIMER then timer_intr s
         else if trapno = T_IRQ0 + IRQ_IDE then ideintr s
         else if trapno = T_IRQ0 + IRQ_IDE + 1 then Ok () s
         else if trapno = T_IRQ0 + IRQ_KBD then kbdintr kbd s
         else if trapno = T_IRQ0 + IRQ_COM1 then uartintr ser s
         else if trapno = T_IRQ0 + 7 \<or> trapno = T_IRQ0 + IRQ_SPURIOUS then
           cprintf (''cpu%d: spurious interrupt at %x:%x'' @ [CHR 0x0A])
             [PInt (of_nat (cur s)), PInt (ucast (ld16 (mem s) (tf + tf_cs))), PInt (ld32 (mem s) (tf + tf_eip))] s
         else trap_fault cr2 tf s)"

definition preempt :: "u32 \<Rightarrow> 'z life_state_scheme \<Rightarrow> (unit, 'z life_state_scheme) res" where
  "preempt tf s =
     (case cpu_proc (cpu s) of
        None \<Rightarrow> Ok () s
      | Some me \<Rightarrow>
          if p_state (pslot s me) = RUNNING \<and> ld32 (mem s) (tf + tf_trapno) = T_IRQ0 + IRQ_TIMER then
            (if strategy s = 1 then
               (if p_myquantum (pslot s me) = QUANTA then yield s else Ok () s)
             else yield s)
          else Ok () s)"

definition trap ::
  "u8 list \<Rightarrow> u8 list \<Rightarrow> u32 \<Rightarrow> u32 \<Rightarrow> 'z life_state_scheme \<Rightarrow> (unit, 'z life_state_scheme) res" where
  "trap kbd ser cr2 tf s =
     (if ld32 (mem s) (tf + tf_trapno) = T_SYSCALL then trap_syscall tf s
      else
        bind (trap_switch kbd ser cr2 tf s) (\<lambda>_ s.
        bind (exit_if_killed tf s) (\<lambda>_ s.
        bind (preempt tf s) (\<lambda>_ s.
        exit_if_killed tf s))))"

text \<open>After the \<^verbatim>\<open>yield\<close> of a preempted process returns.\<close>

definition trap_resume :: "bool \<Rightarrow> u32 \<Rightarrow> 'z life_state_scheme \<Rightarrow> (unit, 'z life_state_scheme) res" where
  "trap_resume saved tf s = bind (yield_resume saved s) (\<lambda>_ s. exit_if_killed tf s)"

end
