(* ===== verification/Clock.thy ===== *)
theory Clock
  imports Boot Trap
begin

text \<open>
  What the timer interrupt does to the running process: the clock is advanced by the first CPU
  only, the running process is charged for the tick, and under round robin it keeps the CPU
  until its quantum is used up.
\<close>

section \<open>One timer interrupt\<close>

text \<open>The state after the part of the interrupt that only the first CPU executes.\<close>

definition clock_tick :: "'z proc_state_scheme \<Rightarrow> 'z proc_state_scheme" where
  "clock_tick s = (if cur s = 0 then wakeup1 (Some ChanTicks) ((settle s)\<lparr>ticks := ticks s + 1\<rparr>) else s)"

lemma cpu_ticks [simp]: "cpu (s\<lparr>ticks := n\<rparr>) = cpu s"
  by (simp add: cpu_def)

lemma wakeup1_mem [simp]: "mem (wakeup1 ch s) = mem s"
  by (simp add: wakeup1_def)

lemma ready_ticks [simp]: "ready L (s\<lparr>ticks := n\<rparr>) = ready L s"
  by (simp add: ready_def cpu_def)

lemma tick_lock_section_eq:
  assumes "ready TicksLock s" "ready PtableLock s"
  shows "tick_lock_section s = Ok () (wakeup1 (Some ChanTicks) ((settle s)\<lparr>ticks := ticks s + 1\<rparr>))"
proof -
  let ?a = "(acq TicksLock s)\<lparr>ticks := ticks s + 1\<rparr>"
  have "ready PtableLock ?a" using assms(2) by (simp add: ready_def)
  moreover have "settle ?a = ?a"
    using assms(1) acq_cpu(2) [of TicksLock s] by (simp add: settle_def machine_defs ready_def)
  ultimately have "wakeup ChanTicks ?a = Ok () (wakeup1 (Some ChanTicks) ?a)" by (simp add: wakeup_eq)
  then show ?thesis
    using assms(1) by (simp add: tick_lock_section_def acquire_ready release_section)
qed

lemma clock_tick_sel [simp]:
  "length (ptable (clock_tick s)) = length (ptable s)" "strategy (clock_tick s) = strategy s" "cur (clock_tick s) = cur s"
  "mem (clock_tick s) = mem s" "ready L (clock_tick s) = ready L s" "cpu_proc (cpu (clock_tick s)) = cpu_proc (cpu s)"
  "ncli (cpu (clock_tick s)) = ncli (cpu s)" "ticks (clock_tick s) = (if cur s = 0 then ticks s + 1 else ticks s)"
  by (simp_all add: clock_tick_def)


lemma clock_tick_slot:
  assumes "me < length (ptable s)" "p_state (pslot s me) = RUNNING"
  shows "pslot (clock_tick s) me = pslot s me"
  using assms by (simp add: clock_tick_def pslot_wakeup1)

text \<open>The running process is charged.\<close>

definition charged :: "nat \<Rightarrow> 'z proc_state_scheme \<Rightarrow> 'z proc_state_scheme" where
  "charged me s = upd_proc me (\<lambda>p. p\<lparr>p_rtime := p_rtime p + 1, p_myquantum := p_myquantum p + 1\<rparr>) (clock_tick s)"

text \<open>A process in user mode that a timer interrupt finds running under round robin.\<close>

definition in_user :: "nat \<Rightarrow> u32 \<Rightarrow> 'z life_state_scheme \<Rightarrow> bool" where
  "in_user me tf s \<longleftrightarrow> ready TicksLock s \<and> ready PtableLock s \<and> ncli (cpu s) = 0 \<and> strategy s = 1 \<and>
     cpu_proc (cpu s) = Some me \<and> me < length (ptable s) \<and> p_state (pslot s me) = RUNNING \<and> \<not> p_killed (pslot s me) \<and>
     ld32 (mem s) (tf + tf_trapno) = T_IRQ0 + IRQ_TIMER"

lemma charged_slot:
  "in_user me tf s \<Longrightarrow> pslot (charged me s) me =
    (pslot s me)\<lparr>p_rtime := p_rtime (pslot s me) + 1, p_myquantum := p_myquantum (pslot s me) + 1\<rparr>"
  by (simp add: in_user_def charged_def pslot_upd_proc clock_tick_slot)

lemma charged_sel [simp]:
  "length (ptable (charged me s)) = length (ptable s)" "strategy (charged me s) = strategy s" "cur (charged me s) = cur s"
  "mem (charged me s) = mem s" "ready L (charged me s) = ready L s" "cpu_proc (cpu (charged me s)) = cpu_proc (cpu s)"
  "ncli (cpu (charged me s)) = ncli (cpu s)" "ticks (charged me s) = (if cur s = 0 then ticks s + 1 else ticks s)"
  by (simp_all add: charged_def)

lemma in_user_charged: "in_user me tf s \<Longrightarrow> in_user me tf (charged me s)"
  using charged_slot [of me tf s] by (simp add: in_user_def)

lemma timer_intr_eq:
  assumes "in_user me tf s"
  shows "timer_intr s = Ok () (charged me s)"
proof -
  have "(if cur s = 0 then tick_lock_section s else Ok () s) = Ok () (clock_tick s)"
    using assms tick_lock_section_eq [of s] by (simp add: in_user_def clock_tick_def)
  then show ?thesis
    using assms clock_tick_slot [of me s] by (simp add: timer_intr_def in_user_def charged_def)
qed

lemma trap_timer:
  fixes s :: "'z life_state_scheme"
  assumes "in_user me tf s"
  shows "trap kbd ser cr2 tf s = (if p_myquantum (pslot s me) + 1 = QUANTA then bind (yield (charged me s) :: (unit, 'z life_state_scheme) res) (\<lambda>_. exit_if_killed tf)
    else Ok () (charged me s))"
proof -
  let ?c = "charged me s"
  note c = in_user_charged [OF assms]
  have sw: "trap_switch kbd ser cr2 tf s = Ok () ?c"
    using assms timer_intr_eq [OF assms] by (simp add: trap_switch_def in_user_def)
  have e: "exit_if_killed tf ?c = Ok () ?c" using c by (simp add: exit_if_killed_def in_user_def)
  have "preempt tf ?c = (if p_myquantum (pslot s me) + 1 = QUANTA then yield ?c else Ok () ?c)"
    using c charged_slot [OF assms] by (simp add: preempt_def in_user_def)
  moreover have "ld32 (mem s) (tf + tf_trapno) \<noteq> T_SYSCALL" using assms by (simp add: in_user_def trap_consts)
  ultimately show ?thesis using sw e by (simp add: trap_def)
qed

lemma yield_switches:
  fixes s :: "'z proc_state_scheme"
  assumes "ready PtableLock s" "ncli (cpu s) = 0" "strategy s \<noteq> 2" "cpu_proc (cpu s) = Some me" "me < length (ptable s)"
  shows "yield s = (Switched (upd_proc me (\<lambda>p. p\<lparr>p_priority := ticks s, p_state := RUNNABLE\<rparr>) (acq PtableLock s)) ::
    ('b, 'z proc_state_scheme) res)"
  using assms
  by (simp add: yield_def acquire_ready with_proc_def) (intro sched_switches [of _ me]; simp add: pslot_upd_proc holding_def)

section \<open>The quantum\<close>

fun timer_traps :: "nat \<Rightarrow> u32 \<Rightarrow> 'z life_state_scheme \<Rightarrow> (unit, 'z life_state_scheme) res" where
  "timer_traps 0 tf s = Ok () s"
| "timer_traps (Suc n) tf s = bind (timer_traps n tf s) (\<lambda>_ s. trap [] [] 0 tf s)"

lemma timer_traps_run:
  assumes "in_user me tf s" "p_myquantum (pslot s me) = 0"
  shows "n < 5 \<Longrightarrow> \<exists>t. timer_traps n tf s = Ok () t \<and> in_user me tf t \<and> p_myquantum (pslot t me) = of_nat n \<and>
    p_rtime (pslot t me) = p_rtime (pslot s me) + of_nat n \<and> ticks t = (if cur s = 0 then ticks s + of_nat n else ticks s) \<and> cur t = cur s"
proof (induction n)
  case 0
  with assms show ?case by simp
next
  case (Suc n)
  then obtain t where t: "timer_traps n tf s = Ok () t" "in_user me tf t" "p_myquantum (pslot t me) = of_nat n"
    "p_rtime (pslot t me) = p_rtime (pslot s me) + of_nat n" "ticks t = (if cur s = 0 then ticks s + of_nat n else ticks s)" "cur t = cur s"
    by auto
  have "n = 0 \<or> n = 1 \<or> n = 2 \<or> n = 3" using Suc.prems by linarith
  then have "of_nat n + 1 \<noteq> QUANTA" by (auto simp: QUANTA_def)
  with t trap_timer [OF t(2)] show ?case
    using in_user_charged [OF t(2)] charged_slot [OF t(2)] by (simp add: add.commute add.left_commute)
qed

text \<open>
  C23: Under round robin a process that is dispatched with a fresh quantum, and is neither killed
  nor put to sleep, survives exactly four timer interrupts: each of them charges it one tick and
  returns, the clock advancing on the first CPU only, and the fifth makes it runnable again and
  leaves the CPU.
\<close>

theorem rr_quantum:
  fixes s :: "'z life_state_scheme"
  assumes "in_user me tf s" "p_myquantum (pslot s me) = 0"
  shows "(\<forall>n < 5. \<exists>t. timer_traps n tf s = Ok () t \<and> p_state (pslot t me) = RUNNING \<and>
      p_rtime (pslot t me) = p_rtime (pslot s me) + of_nat n \<and> ticks t = (if cur s = 0 then ticks s + of_nat n else ticks s)) \<and>
    (\<exists>t. timer_traps 5 tf s = Switched t \<and> p_state (pslot t me) = RUNNABLE \<and>
      p_rtime (pslot t me) = p_rtime (pslot s me) + 5 \<and> holding PtableLock t)"
proof (intro conjI allI impI)
  fix n :: nat assume "n < 5"
  from timer_traps_run [OF assms this] show "\<exists>t. timer_traps n tf s = Ok () t \<and> p_state (pslot t me) = RUNNING \<and>
      p_rtime (pslot t me) = p_rtime (pslot s me) + of_nat n \<and> ticks t = (if cur s = 0 then ticks s + of_nat n else ticks s)"
    by (auto simp: in_user_def)
next
  obtain t where t: "timer_traps 4 tf s = Ok () t" "in_user me tf t" "p_myquantum (pslot t me) = 4"
    "p_rtime (pslot t me) = p_rtime (pslot s me) + 4"
    using timer_traps_run [OF assms, of 4] by auto
  let ?c = "charged me t"
  note c = in_user_charged [OF t(2)]
  have y: "yield ?c = (Switched (upd_proc me (\<lambda>p. p\<lparr>p_priority := ticks ?c, p_state := RUNNABLE\<rparr>) (acq PtableLock ?c)) :: (unit, 'z life_state_scheme) res)"
    using c by (intro yield_switches) (simp_all add: in_user_def)
  have "timer_traps 5 tf s = trap [] [] 0 tf t"
    using t(1) timer_traps.simps(2) [of 4 tf s] by simp
  then show "\<exists>t. timer_traps 5 tf s = Switched t \<and> p_state (pslot t me) = RUNNABLE \<and>
      p_rtime (pslot t me) = p_rtime (pslot s me) + 5 \<and> holding PtableLock t"
    using trap_timer [OF t(2)] t(3,4) y charged_slot [OF t(2)] c
    by (simp add: QUANTA_def in_user_def pslot_upd_proc holding_def)
qed


definition one_running :: life_state where
  "one_running = set_cpu_proc (Some 3) ((idle_state (two_waiting[3 := blank_proc\<lparr>p_state := RUNNING, p_pid := 1\<rparr>]) 9 1)
     \<lparr>mem := st32 (\<lambda>_. 0) (0x80400fb4 + 48) 32\<rparr>)"

lemma one_running_in_user: "in_user 3 0x80400fb4 one_running"
  by (simp add: in_user_def one_running_def ready_def free_lock_def set_cpu_proc_def machine_defs boot_machine_def
      idle_cpu_def two_waiting_def NPROC_def blank_proc_def tf_trapno_def trap_consts ld32_def st32_def)

lemma rr_quantum_witness:
  "\<exists>t. timer_traps 5 0x80400fb4 one_running = Switched t \<and> p_state (pslot t 3) = RUNNABLE \<and> p_rtime (pslot t 3) = 5"
proof -
  have "pslot one_running 3 = blank_proc\<lparr>p_state := RUNNING, p_pid := 1\<rparr>"
    by (simp add: one_running_def set_cpu_proc_def machine_defs two_waiting_def NPROC_def)
  then show ?thesis using rr_quantum [OF one_running_in_user] by (auto simp: blank_proc_def)
qed

end
