(* ===== verification/Crash.thy ===== *)
theory Crash
  imports Cache DiskFormat Clock
begin

text \<open>
  The log makes a transaction atomic. The writes of \<^verbatim>\<open>commit\<close> reach the disk one block at a
  time; whichever prefix of them a crash leaves, \<^verbatim>\<open>recover_from_log\<close> brings every block
  outside the log to its value before the transaction or every one to its value after it.
\<close>

section \<open>Writes\<close>

type_synonym writes = "((u32 \<times> u32) \<times> u8 list) list"

definition apply_writes :: "writes \<Rightarrow> disk \<Rightarrow> disk" where
  "apply_writes ws D = fold (\<lambda>(k, v) D. D(k := v)) ws D"

lemma apply_writes_simps [simp]:
  "apply_writes [] D = D" "apply_writes (w # ws) D = apply_writes ws (D(fst w := snd w))"
  "apply_writes (ws @ ws') D = apply_writes ws' (apply_writes ws D)"
  by (simp_all add: apply_writes_def split_beta)

lemma apply_writes_other: "k \<notin> fst ` set ws \<Longrightarrow> apply_writes ws D k = D k"
  by (induction ws arbitrary: D) auto

lemma apply_writes_in: "distinct (map fst ws) \<Longrightarrow> (k, v) \<in> set ws \<Longrightarrow> apply_writes ws D k = v"
  by (induction ws arbitrary: D) (auto simp: apply_writes_other image_iff)

text \<open>A run that wrote \<open>ws\<close> and left the rest of the state above the cache alone.\<close>

definition wrote :: "writes \<Rightarrow> 'z bio_state_scheme \<Rightarrow> 'z bio_state_scheme \<Rightarrow> bool" where
  "wrote ws s t \<longleftrightarrow> disk t = apply_writes ws (disk s) \<and> disk_writes t = disk_writes s @ ws \<and> bio_state.more t = bio_state.more s"

lemma wrote_trans: "wrote ws s t \<Longrightarrow> wrote ws' t u \<Longrightarrow> wrote (ws @ ws') s u"
  by (simp add: wrote_def)

lemma wrote_outside: "outside t = outside s \<longleftrightarrow> wrote [] s t"
  by (auto simp: wrote_def outside_def)

lemma wrote_one: "outside t = ((disk s)(k := v), disk_writes s @ [(k, v)], bio_state.more s) \<longleftrightarrow> wrote [(k, v)] s t"
  by (auto simp: wrote_def outside_def)

lemma wrote_log: "wrote ws s t \<Longrightarrow> log t = log s" for s :: "'z log_state_scheme"
  by (cases s, cases t) (simp add: wrote_def)

section \<open>Between operations\<close>

text \<open>No block is held, the blocks of \<open>P\<close> are pinned with new contents, the others are as on disk.\<close>

definition seen :: "u32 \<Rightarrow> (u32 \<rightharpoonup> u8 list) \<Rightarrow> disk \<Rightarrow> u32 \<Rightarrow> u8 list" where
  "seen d P D k = (case P k of Some v \<Rightarrow> v | None \<Rightarrow> D (d AND 1, k))"

definition pend :: "nat \<Rightarrow> u32 \<Rightarrow> (u32 \<rightharpoonup> u8 list) \<Rightarrow> 'z bio_state_scheme \<Rightarrow> bool" where
  "pend me d P s \<longleftrightarrow> cache me d Map.empty (seen d P (disk s)) (dom P) s"

lemma pend_intro:
  "\<lbrakk>cache me d Map.empty C Q s; Q = dom P; \<And>k. C k = seen d P (disk s) k\<rbrakk> \<Longrightarrow> pend me d P s"
  unfolding pend_def by (metis ext)

lemma write_step:
  fixes s :: "'z log_state_scheme"
  assumes p: "pend me d P s" and l: "log_dev (log s) = d" "log_start (log s) + of_nat j + 1 = q" "lh_block (log s) ! j = h"
    and h: "P h = Some v" "h < FSSIZE" and q: "q \<notin> dom P" "q < FSSIZE" and n: "card (dom P) < NBUF"
  shows "yields (\<lambda>_ t. pend me d P t \<and> wrote [((d AND 1, q), v)] s t) (write_loop [j] s)"
proof -
  let ?C = "seen d P (disk s)"
  have qh: "q \<noteq> h" using h q by auto
  obtain to t1 where 1: "bread d q s = Ok to t1" "cache me d [q \<mapsto> to] ?C (dom P) t1" "wrote [] s t1"
    using bread_cache [OF p [unfolded pend_def], of q] q n by (auto simp: yields_iff wrote_outside)
  obtain fr t2 where 2: "bread d h t1 = Ok fr t2" "cache me d ([q \<mapsto> to, h \<mapsto> fr]) ?C (dom P) t2" "wrote [] t1 t2"
    using bread_cache [OF 1(2), of h] h qh by (auto simp: yields_iff wrote_outside)
  let ?t3 = "upd_data to (\<lambda>_. b_data (bufs t2 fr)) t2"
  have dat: "b_data (bufs t2 fr) = v" using cache_held(1) [OF 2(2), of h fr] h qh by (simp add: seen_def)
  have 3: "cache me d ([q \<mapsto> to, h \<mapsto> fr]) (?C(q := v)) (dom P) ?t3" "wrote [] t2 ?t3"
    using cache_upd_data [OF 2(2), of q to "\<lambda>_. v"] qh by (simp_all add: dat wrote_outside)
  obtain t4 where 4: "bwrite to ?t3 = Ok () t4" "cache me d ([q \<mapsto> to, h \<mapsto> fr]) (?C(q := v)) (dom P - {q}) t4" "wrote [((d AND 1, q), v)] ?t3 t4"
    using bwrite_cache [OF 3(1), of q to] qh q(2) by (auto simp: yields_iff wrote_one)
  have dq: "dom P - {q} = dom P" using q by auto
  obtain t5 where 5: "brelse fr t4 = Ok () t5" "cache me d [q \<mapsto> to] (?C(q := v)) (dom P) t5" "wrote [] t4 t5"
    using brelse_cache [OF 4(2), of h fr] h qh by (auto simp: yields_iff wrote_outside dq fun_upd_twist)
  have w5: "wrote [((d AND 1, q), v)] s t5"
    using wrote_trans [OF 1(3) wrote_trans [OF 2(3) wrote_trans [OF 3(2) wrote_trans [OF 4(3) 5(3)]]]] by simp
  obtain t6 where 6: "brelse to t5 = Ok () t6" "cache me d Map.empty (?C(q := v)) (dom P) t6" "wrote [] t5 t6"
    using brelse_cache [OF 5(2), of q to] w5 by (auto simp: yields_iff wrote_outside) (auto simp: wrote_def)
  have w6: "wrote [((d AND 1, q), v)] s t6" using wrote_trans [OF w5 6(3)] by simp
  have "pend me d P t6" by (rule pend_intro [OF 6(2)]) (use w6 q in \<open>auto simp: wrote_def seen_def split: option.split\<close>)
  moreover have "write_loop [j] s = Ok () t6"
    using 1(1) 2(1) 4(1) 5(1) 6(1) l wrote_log [OF 1(3)] by (simp add: Let_def)
  ultimately show ?thesis using w6 by (simp del: write_loop.simps)
qed

lemma install_step:
  fixes s :: "'z log_state_scheme"
  assumes p: "pend me d P s" and l: "log_dev (log s) = d" "log_start (log s) + of_nat j + 1 = q" "lh_block (log s) ! j = h"
    and h: "h < FSSIZE" "h \<noteq> q" and q: "q \<notin> dom P" "q < FSSIZE" and n: "card (dom P) < NBUF" "h \<in> dom P \<or> card (dom P) + 1 < NBUF"
  shows "yields (\<lambda>_ t. pend me d (P(h := None)) t \<and> wrote [((d AND 1, h), disk s (d AND 1, q))] s t) (install_loop [j] s)"
proof -
  let ?C = "seen d P (disk s)" and ?v = "disk s (d AND 1, q)"
  have cq: "?C q = ?v" using q by (auto simp: seen_def split: option.split)
  obtain lb t1 where 1: "bread d q s = Ok lb t1" "cache me d [q \<mapsto> lb] ?C (dom P) t1" "wrote [] s t1"
    using bread_cache [OF p [unfolded pend_def], of q] q n by (auto simp: yields_iff wrote_outside)
  have "h \<in> dom P \<or> card (dom [q \<mapsto> lb] \<union> dom P) < NBUF" using n(2) q(1) by auto
  then obtain db t2 where 2: "bread d h t1 = Ok db t2" "cache me d ([q \<mapsto> lb, h \<mapsto> db]) ?C (dom P) t2" "wrote [] t1 t2"
    using bread_cache [OF 1(2), of h] h by (auto simp: yields_iff wrote_outside)
  let ?t3 = "upd_data db (\<lambda>_. b_data (bufs t2 lb)) t2"
  have dat: "b_data (bufs t2 lb) = ?v" using cache_held(1) [OF 2(2), of q lb] h cq by simp
  have 3: "cache me d ([q \<mapsto> lb, h \<mapsto> db]) (?C(h := ?v)) (dom P) ?t3" "wrote [] t2 ?t3"
    using cache_upd_data [OF 2(2), of h db "\<lambda>_. ?v"] by (simp_all add: dat wrote_outside)
  obtain t4 where 4: "bwrite db ?t3 = Ok () t4" "cache me d ([q \<mapsto> lb, h \<mapsto> db]) (?C(h := ?v)) (dom P - {h}) t4" "wrote [((d AND 1, h), ?v)] ?t3 t4"
    using bwrite_cache [OF 3(1), of h db] h by (auto simp: yields_iff wrote_one)
  have w4: "wrote [((d AND 1, h), ?v)] s t4"
    using wrote_trans [OF 1(3) wrote_trans [OF 2(3) wrote_trans [OF 3(2) 4(3)]]] by simp
  obtain t5 where 5: "brelse lb t4 = Ok () t5" "cache me d [h \<mapsto> db] (?C(h := ?v)) (dom P - {h}) t5" "wrote [] t4 t5"
    using brelse_cache [OF 4(2), of q lb] h w4 cq by (auto simp: yields_iff wrote_outside fun_upd_twist) (auto simp: wrote_def)
  have w5: "wrote [((d AND 1, h), ?v)] s t5" using wrote_trans [OF w4 5(3)] by simp
  obtain t6 where 6: "brelse db t5 = Ok () t6" "cache me d Map.empty (?C(h := ?v)) (dom P - {h}) t6" "wrote [] t5 t6"
    using brelse_cache [OF 5(2), of h db] w5 by (auto simp: yields_iff wrote_outside) (auto simp: wrote_def)
  have w6: "wrote [((d AND 1, h), ?v)] s t6" using wrote_trans [OF w5 6(3)] by simp
  have "pend me d (P(h := None)) t6" by (rule pend_intro [OF 6(2)]) (use w6 in \<open>auto simp: wrote_def seen_def split: option.split\<close>)
  moreover have "install_loop [j] s = Ok () t6"
    using 1(1) 2(1) 4(1) 5(1) 6(1) l wrote_log [OF 1(3)] by (simp add: Let_def)
  ultimately show ?thesis using w6 by (simp del: install_loop.simps)
qed

section \<open>The loops\<close>

definition log_block :: "u32 \<Rightarrow> nat \<Rightarrow> u32" where
  "log_block start j = start + of_nat j + 1"

lemma write_loop_Cons: "write_loop (j # js) s = bind (write_loop [j] s) (\<lambda>_ s. write_loop js s)"
  by (simp add: bind_assoc Let_def)

lemma install_loop_Cons: "install_loop (j # js) s = bind (install_loop [j] s) (\<lambda>_ s. install_loop js s)"
  by (simp add: bind_assoc Let_def)

lemma write_loop_run:
  fixes s :: "'z log_state_scheme"
  assumes "pend me d P s" "log_dev (log s) = d" "log_start (log s) = start" "card (dom P) < NBUF"
    and "\<And>j. j \<in> set js \<Longrightarrow> P (lh_block (log s) ! j) = Some (v j) \<and> lh_block (log s) ! j < FSSIZE \<and>
      log_block start j \<notin> dom P \<and> log_block start j < FSSIZE"
  shows "yields (\<lambda>_ t. pend me d P t \<and> wrote (map (\<lambda>j. ((d AND 1, log_block start j), v j)) js) s t) (write_loop js s)"
  using assms
proof (induction js arbitrary: s)
  case Nil
  then show ?case by (simp add: wrote_def)
next
  case (Cons j js)
  from Cons.prems have "yields (\<lambda>_ t. pend me d P t \<and> wrote [((d AND 1, log_block start j), v j)] s t) (write_loop [j] s)"
    by (intro write_step) (auto simp: log_block_def)
  then show ?case unfolding write_loop_Cons [of j js]
  proof (rule yields_bind, elim conjE)
    fix x t assume t: "pend me d P t" "wrote [((d AND 1, log_block start j), v j)] s t"
    have "yields (\<lambda>_ u. pend me d P u \<and> wrote (map (\<lambda>j. ((d AND 1, log_block start j), v j)) js) t u) (write_loop js t)"
      by (rule Cons.IH [OF t(1)]) (use Cons.prems wrote_log [OF t(2)] in auto)
    then show "yields (\<lambda>_ u. pend me d P u \<and> wrote (map (\<lambda>j. ((d AND 1, log_block start j), v j)) (j # js)) s u) (write_loop js t)"
      by (rule yields_mono) (use wrote_trans [OF t(2)] in auto)
  qed
qed

lemma install_loop_run:
  fixes s :: "'z log_state_scheme"
  assumes "pend me d P s" "log_dev (log s) = d" "log_start (log s) = start"
    and "card (dom P) + 1 < NBUF \<or> distinct (map (\<lambda>j. lh_block (log s) ! j) js) \<and>
      (\<forall>j \<in> set js. lh_block (log s) ! j \<in> dom P) \<and> card (dom P) < NBUF"
    and "\<And>j. j \<in> set js \<Longrightarrow> lh_block (log s) ! j < FSSIZE \<and> log_block start j \<notin> dom P \<and> log_block start j < FSSIZE"
    and "\<And>i j. i \<in> set js \<Longrightarrow> j \<in> set js \<Longrightarrow> lh_block (log s) ! i \<noteq> log_block start j"
  shows "yields (\<lambda>_ t. pend me d (P |` (- (\<lambda>j. lh_block (log s) ! j) ` set js)) t \<and>
    wrote (map (\<lambda>j. ((d AND 1, lh_block (log s) ! j), disk s (d AND 1, log_block start j))) js) s t) (install_loop js s)"
  using assms
proof (induction js arbitrary: s P)
  case Nil
  then show ?case by (simp add: wrote_def)
next
  case (Cons j js)
  let ?h = "lh_block (log s) ! j"
  let ?P = "P(?h := None)"
  from Cons.prems have "yields (\<lambda>_ t. pend me d ?P t \<and> wrote [((d AND 1, ?h), disk s (d AND 1, log_block start j))] s t) (install_loop [j] s)"
    by (intro install_step) (auto simp: log_block_def)
  then show ?case unfolding install_loop_Cons [of j js]
  proof (rule yields_bind, elim conjE)
    fix x t assume t: "pend me d ?P t" "wrote [((d AND 1, ?h), disk s (d AND 1, log_block start j))] s t"
    note lt = wrote_log [OF t(2)]
    have dq: "disk t (d AND 1, log_block start i) = disk s (d AND 1, log_block start i)" if "i \<in> set js" for i
      using t(2) Cons.prems(6) [of j i] that by (auto simp: wrote_def)
    have sub: "dom ?P = dom P - {?h}" by simp
    have le: "card (dom ?P) \<le> card (dom P)" unfolding sub by (intro card_mono) auto
    have "yields (\<lambda>_ u. pend me d (?P |` (- (\<lambda>j. lh_block (log t) ! j) ` set js)) u \<and>
        wrote (map (\<lambda>j. ((d AND 1, lh_block (log t) ! j), disk t (d AND 1, log_block start j))) js) t u) (install_loop js t)"
    proof (rule Cons.IH [OF t(1)])
      show "card (dom ?P) + 1 < NBUF \<or> distinct (map (\<lambda>j. lh_block (log t) ! j) js) \<and>
          (\<forall>j \<in> set js. lh_block (log t) ! j \<in> dom ?P) \<and> card (dom ?P) < NBUF"
        using Cons.prems(4)
      proof
        assume "card (dom P) + 1 < NBUF"
        with le show ?thesis by linarith
      next
        assume a: "distinct (map (\<lambda>i. lh_block (log s) ! i) (j # js)) \<and> (\<forall>i \<in> set (j # js). lh_block (log s) ! i \<in> dom P) \<and> card (dom P) < NBUF"
        then have "lh_block (log s) ! i \<noteq> ?h" if "i \<in> set js" for i using that by (metis distinct.simps(2) image_eqI list.map(2) set_map)
        with a le show ?thesis unfolding sub lt by auto
      qed
      show "lh_block (log t) ! i < FSSIZE \<and> log_block start i \<notin> dom ?P \<and> log_block start i < FSSIZE" if "i \<in> set js" for i
        using Cons.prems(5) [of i] that unfolding sub lt by auto
      show "lh_block (log t) ! i \<noteq> log_block start k" if "i \<in> set js" "k \<in> set js" for i k
        using Cons.prems(6) [of i k] that unfolding lt by auto
    qed (use Cons.prems(2,3) lt in auto)
    then show "yields (\<lambda>_ u. pend me d (P |` (- (\<lambda>j. lh_block (log s) ! j) ` set (j # js))) u \<and>
        wrote (map (\<lambda>j. ((d AND 1, lh_block (log s) ! j), disk s (d AND 1, log_block start j))) (j # js)) s u) (install_loop js t)"
    proof (rule yields_mono, elim conjE, intro conjI)
      fix y u assume u: "pend me d (?P |` (- (\<lambda>j. lh_block (log t) ! j) ` set js)) u"
        "wrote (map (\<lambda>j. ((d AND 1, lh_block (log t) ! j), disk t (d AND 1, log_block start j))) js) t u"
      have "?P |` (- (\<lambda>j. lh_block (log s) ! j) ` set js) = P |` (- (\<lambda>j. lh_block (log s) ! j) ` set (j # js))"
        by (rule ext) (auto simp: restrict_map_def)
      with u(1) show "pend me d (P |` (- (\<lambda>j. lh_block (log s) ! j) ` set (j # js))) u" by (simp only: lt)
      have "map (\<lambda>j. ((d AND 1, lh_block (log t) ! j), disk t (d AND 1, log_block start j))) js =
          map (\<lambda>j. ((d AND 1, lh_block (log s) ! j), disk s (d AND 1, log_block start j))) js"
        using dq by (simp add: lt)
      with wrote_trans [OF t(2) u(2)] show "wrote (map (\<lambda>j. ((d AND 1, lh_block (log s) ! j), disk s (d AND 1, log_block start j))) (j # js)) s u"
        by simp
    qed
  qed
qed

section \<open>The header\<close>

lemma pend_upd_log [simp]: "pend me d P (upd_log f s) = pend me d P s"
  by (simp add: pend_def cache_def calm_def busy_def upd_log_def held_at_def holding_def cpu_def)

lemma upd_log_sel [simp]:
  "log (upd_log f s) = f (log s)" "disk (upd_log f s) = disk s" "disk_writes (upd_log f s) = disk_writes s"
  "bufs (upd_log f s) = bufs s"
  by (simp_all add: upd_log_def)

lemma cache_upd_log [simp]: "cache me d H C Q (upd_log f s) = cache me d H C Q s"
  by (simp add: cache_def calm_def busy_def upd_log_def held_at_def holding_def cpu_def)

lemma write_head_run:
  fixes s :: "'z log_state_scheme"
  assumes p: "pend me d P s" and l: "log_dev (log s) = d" "log_start (log s) = start"
    and q: "start \<notin> dom P" "start < FSSIZE" and n: "card (dom P) < NBUF"
  shows "yields (\<lambda>_ t. pend me d P t \<and>
    wrote [((d AND 1, start), header_block (lh_n (log s)) (lh_block (log s)) (disk s (d AND 1, start)))] s t) (write_head s)"
proof -
  let ?C = "seen d P (disk s)" and ?bs = "lh_block (log s)" and ?n = "lh_n (log s)"
  let ?v = "header_block ?n ?bs (disk s (d AND 1, start))"
  have cq: "?C start = disk s (d AND 1, start)" using q by (auto simp: seen_def split: option.split)
  obtain b t1 where 1: "bread d start s = Ok b t1" "cache me d [start \<mapsto> b] ?C (dom P) t1" "wrote [] s t1"
    using bread_cache [OF p [unfolded pend_def], of start] q n by (auto simp: yields_iff wrote_outside)
  note lt = wrote_log [OF 1(3)]
  let ?t2 = "upd_data b (\<lambda>d. set_word d 0 (of_int ?n)) t1"
  let ?t3 = "upd_data b (\<lambda>d. fold (\<lambda>i d. set_word d (4 + 4 * i) (?bs ! i)) [0..<nat ?n] d) ?t2"
  have 2: "cache me d [start \<mapsto> b] (?C(start := set_word (?C start) 0 (of_int ?n))) (dom P) ?t2" "wrote [] t1 ?t2"
    using cache_upd_data [OF 1(2), of start b] by (simp_all add: wrote_outside)
  have 3: "cache me d [start \<mapsto> b] (?C(start := ?v)) (dom P) ?t3" "wrote [] ?t2 ?t3"
    using cache_upd_data [OF 2(1), of start b] cq by (simp_all add: wrote_outside header_block_def set_words_def)
  obtain t4 where 4: "bwrite b ?t3 = Ok () t4" "cache me d [start \<mapsto> b] (?C(start := ?v)) (dom P - {start}) t4" "wrote [((d AND 1, start), ?v)] ?t3 t4"
    using bwrite_cache [OF 3(1), of start b] q by (auto simp: yields_iff wrote_one)
  have w4: "wrote [((d AND 1, start), ?v)] s t4"
    using wrote_trans [OF 1(3) wrote_trans [OF 2(2) wrote_trans [OF 3(2) 4(3)]]] by simp
  obtain t5 where 5: "brelse b t4 = Ok () t5" "cache me d Map.empty (?C(start := ?v)) (dom P - {start}) t5" "wrote [] t4 t5"
    using brelse_cache [OF 4(2), of start b] w4 by (auto simp: yields_iff wrote_outside) (auto simp: wrote_def)
  have w5: "wrote [((d AND 1, start), ?v)] s t5" using wrote_trans [OF w4 5(3)] by simp
  have "pend me d P t5"
    by (rule pend_intro [OF 5(2)]) (use w5 q in \<open>auto simp: wrote_def seen_def split: option.split\<close>)
  moreover have "log ?t2 = log s" using wrote_log [OF wrote_trans [OF 1(3) 2(2)]] .
  then have "write_head s = Ok () t5"
    using 1(1) 4(1) 5(1) l by (simp add: write_head_def Let_def lt)
  ultimately show ?thesis using w5 by simp
qed

lemma read_head_run:
  fixes s :: "'z log_state_scheme"
  assumes p: "pend me d P s" and l: "log_dev (log s) = d" "log_start (log s) = start"
    and q: "start \<notin> dom P" "start < FSSIZE" and c: "card (dom P) < NBUF"
    and n: "n = sint (word_at (disk s (d AND 1, start)) 0)" "n \<le> int LOGSIZE"
  shows "yields (\<lambda>_ t. pend me d P t \<and> disk t = disk s \<and> disk_writes t = disk_writes s \<and>
    log t = (log s)\<lparr>lh_n := n, lh_block := map (\<lambda>i. word_at (disk s (d AND 1, start)) (4 + 4 * i)) [0..<nat n] @ drop (nat n) (lh_block (log s))\<rparr>)
    (read_head s)"
proof -
  let ?C = "seen d P (disk s)" and ?D = "disk s (d AND 1, start)"
  have cq: "?C start = ?D" using q by (auto simp: seen_def split: option.split)
  obtain b t1 where 1: "bread d start s = Ok b t1" "cache me d [start \<mapsto> b] ?C (dom P) t1" "wrote [] s t1"
    using bread_cache [OF p [unfolded pend_def], of start] q c by (auto simp: yields_iff wrote_outside)
  note lt = wrote_log [OF 1(3)]
  have dat: "b_data (bufs t1 b) = ?D" using cache_held(1) [OF 1(2), of start b] cq by simp
  let ?f = "\<lambda>l. l\<lparr>lh_n := n, lh_block := map (\<lambda>i. word_at ?D (4 + 4 * i)) [0..<nat n] @ drop (nat n) (lh_block l)\<rparr>"
  have d1: "disk (upd_log ?f t1) = disk s" "disk_writes (upd_log ?f t1) = disk_writes s" using 1(3) by (simp_all add: wrote_def)
  have "cache me d [start \<mapsto> b] ?C (dom P) (upd_log ?f t1)" using 1(2) by simp
  then obtain t2 where 2: "brelse b (upd_log ?f t1) = Ok () t2" "cache me d Map.empty ?C (dom P) t2" "wrote [] (upd_log ?f t1) t2"
    using brelse_cache [of me d "[start \<mapsto> b]" ?C "dom P" "upd_log ?f t1" start b] cq d1 by (auto simp: yields_iff wrote_outside)
  have d2: "disk t2 = disk s" "disk_writes t2 = disk_writes s" "log t2 = ?f (log s)"
    using 2(3) d1 wrote_log [OF 2(3)] lt by (simp_all add: wrote_def)
  have "read_head s = Ok () t2" using 1(1) 2(1) l n by (simp add: read_head_def Let_def dat)
  moreover have "pend me d P t2" by (rule pend_intro [OF 2(2)]) (simp_all add: d2)
  ultimately show ?thesis using d2 by simp
qed

section \<open>Commit\<close>

definition log_area :: "u32 \<Rightarrow> u32 set" where
  "log_area start = insert start (log_block start ` {..<LOGSIZE})"

lemma log_block_inj: "\<lbrakk>i < LOGSIZE; j < LOGSIZE; log_block start i = log_block start j\<rbrakk> \<Longrightarrow> i = j"
proof -
  assume ij: "i < LOGSIZE" "j < LOGSIZE" and e: "log_block start i = log_block start j"
  then have "unat (of_nat i :: u32) = unat (of_nat j :: u32)" by (simp add: log_block_def)
  with ij show "i = j" by (simp add: unat_of_nat kernel_defs)
qed

lemma log_block_start: "j < LOGSIZE \<Longrightarrow> log_block start j \<noteq> start"
proof
  assume j: "j < LOGSIZE" and e: "log_block start j = start"
  have "(of_nat (Suc j) :: u32) = 0" using e by (simp add: log_block_def add.assoc add.commute)
  then have "Suc j mod 2 ^ 32 = 0" using unat_of_nat [of "Suc j", where ?'a = 32] by (simp del: of_nat_Suc)
  with j show False by (simp add: kernel_defs)
qed

text \<open>A finished transaction: the pinned blocks are the ones listed in the header in memory.\<close>

definition transaction :: "nat \<Rightarrow> u32 \<Rightarrow> (u32 \<rightharpoonup> u8 list) \<Rightarrow> 'z log_state_scheme \<Rightarrow> bool" where
  "transaction me d P s \<longleftrightarrow> pend me d P s \<and> log_dev (log s) = d \<and> 0 < lh_n (log s) \<and> lh_n (log s) \<le> int LOGSIZE \<and>
     nat (lh_n (log s)) < NBUF \<and> length (lh_block (log s)) = LOGSIZE \<and>
     distinct (take (nat (lh_n (log s))) (lh_block (log s))) \<and> set (take (nat (lh_n (log s))) (lh_block (log s))) = dom P \<and>
     (\<forall>k \<in> dom P. k < FSSIZE \<and> k \<notin> log_area (log_start (log s))) \<and> (\<forall>k \<in> log_area (log_start (log s)). k < FSSIZE) \<and>
     length (disk s (d AND 1, log_start (log s))) = BSIZE \<and> word_at (disk s (d AND 1, log_start (log s))) 0 = 0"

definition log_writes :: "u32 \<Rightarrow> (u32 \<rightharpoonup> u8 list) \<Rightarrow> log_rec \<Rightarrow> writes" where
  "log_writes d P l = map (\<lambda>j. ((d AND 1, log_block (log_start l) j), the (P (lh_block l ! j)))) [0..<nat (lh_n l)]"

definition home_writes :: "u32 \<Rightarrow> (u32 \<rightharpoonup> u8 list) \<Rightarrow> log_rec \<Rightarrow> writes" where
  "home_writes d P l = map (\<lambda>j. ((d AND 1, lh_block l ! j), the (P (lh_block l ! j)))) [0..<nat (lh_n l)]"

definition commit_writes :: "u32 \<Rightarrow> (u32 \<rightharpoonup> u8 list) \<Rightarrow> log_rec \<Rightarrow> u8 list \<Rightarrow> writes" where
  "commit_writes d P l hdr =
     (let hdr' = header_block (lh_n l) (lh_block l) hdr
      in log_writes d P l @ [((d AND 1, log_start l), hdr')] @ home_writes d P l @
         [((d AND 1, log_start l), header_block 0 (lh_block l) hdr')])"

lemma log_writes_at:
  assumes "j < nat (lh_n l)" "lh_n l \<le> int LOGSIZE"
  shows "apply_writes (log_writes d P l) D (d AND 1, log_block (log_start l) j) = the (P (lh_block l ! j))"
proof (rule apply_writes_in)
  show "distinct (map fst (log_writes d P l))"
    using assms(2) by (auto simp: log_writes_def distinct_map inj_on_def comp_def dest!: log_block_inj [rotated 2])
qed (use assms(1) in \<open>auto simp: log_writes_def\<close>)

lemma log_writes_keys:
  assumes "lh_n l \<le> int LOGSIZE"
  shows "fst ` set (log_writes d P l) \<subseteq> {(d AND 1, k) | k. k \<in> log_area (log_start l) \<and> k \<noteq> log_start l}"
  using assms log_block_start by (fastforce simp: log_writes_def log_area_def)

lemma transactionD:
  assumes "transaction me d P s"
  shows "pend me d P s" "log_dev (log s) = d" "0 < lh_n (log s)" "lh_n (log s) \<le> int LOGSIZE" "card (dom P) < NBUF"
    "\<And>j. j < nat (lh_n (log s)) \<Longrightarrow> lh_block (log s) ! j \<in> dom P"
    "distinct (map (\<lambda>j. lh_block (log s) ! j) [0..<nat (lh_n (log s))])"
    "\<And>k. k \<in> dom P \<Longrightarrow> k < FSSIZE \<and> k \<notin> log_area (log_start (log s))"
    "\<And>k. k \<in> log_area (log_start (log s)) \<Longrightarrow> k < FSSIZE"
    "(\<lambda>j. lh_block (log s) ! j) ` {..<nat (lh_n (log s))} = dom P"
    "length (disk s (d AND 1, log_start (log s))) = BSIZE" "word_at (disk s (d AND 1, log_start (log s))) 0 = 0"
proof -
  let ?n = "nat (lh_n (log s))" and ?bs = "lh_block (log s)"
  have n: "?n \<le> length ?bs" and t: "distinct (take ?n ?bs)" "set (take ?n ?bs) = dom P" "?n < NBUF"
    using assms by (auto simp: transaction_def)
  have m: "take ?n ?bs = map (\<lambda>j. ?bs ! j) [0..<?n]" using n by (intro nth_equalityI) auto
  show "distinct (map (\<lambda>j. ?bs ! j) [0..<?n])" using t(1) m by simp
  show i: "(\<lambda>j. ?bs ! j) ` {..<?n} = dom P" using t(2) m by (auto simp: atLeast0LessThan)
  then show "?bs ! j \<in> dom P" if "j < ?n" for j using that by auto
  have "card (dom P) = ?n" using distinct_card [OF t(1)] t(2) n by simp
  then show "card (dom P) < NBUF" using t(3) by simp
qed (use assms in \<open>auto simp: transaction_def\<close>)

lemma commit_run:
  fixes s :: "'z log_state_scheme"
  assumes t: "transaction me d P s"
  shows "yields (\<lambda>_ t. pend me d Map.empty t \<and> log t = (log s)\<lparr>lh_n := 0\<rparr> \<and>
    disk t = apply_writes (commit_writes d P (log s) (disk s (d AND 1, log_start (log s)))) (disk s) \<and>
    disk_writes t = disk_writes s @ commit_writes d P (log s) (disk s (d AND 1, log_start (log s)))) (commit s)"
proof -
  note T = transactionD [OF t]
  let ?start = "log_start (log s)" and ?n = "nat (lh_n (log s))" and ?bs = "lh_block (log s)"
  let ?hdr = "disk s (d AND 1, ?start)"
  let ?hdr' = "header_block (lh_n (log s)) ?bs ?hdr"
  have nL: "j < LOGSIZE" if "j < ?n" for j using that T(4) by simp
  then have la: "log_block ?start j \<in> log_area ?start" if "j < ?n" for j using that by (auto simp: log_area_def)
  have sa: "?start \<in> log_area ?start" by (simp add: log_area_def)
  have "yields (\<lambda>_ u. pend me d P u \<and> wrote (map (\<lambda>j. ((d AND 1, log_block ?start j), the (P (?bs ! j)))) [0..<?n]) s u) (write_log s)"
    unfolding write_log_def
  proof (rule write_loop_run [OF T(1,2) refl T(5)])
    fix j assume "j \<in> set [0..<?n]"
    then have j: "j < ?n" by simp
    show "P (?bs ! j) = Some (the (P (?bs ! j))) \<and> ?bs ! j < FSSIZE \<and> log_block ?start j \<notin> dom P \<and> log_block ?start j < FSSIZE"
      using T(6) [OF j] T(8) T(9) la [OF j] by auto
  qed
  then obtain t1 where 1: "write_log s = Ok () t1" "pend me d P t1" "wrote (log_writes d P (log s)) s t1"
    by (auto simp: yields_iff log_writes_def)
  note l1 = wrote_log [OF 1(3)]
  have h1: "disk t1 (d AND 1, ?start) = ?hdr"
    using 1(3) log_writes_keys [OF T(4), of d P] by (auto simp: wrote_def intro!: apply_writes_other)
  obtain t2 where 2: "write_head t1 = Ok () t2" "pend me d P t2" "wrote [((d AND 1, ?start), ?hdr')] t1 t2"
    using write_head_run [OF 1(2), of ?start] T(2,5,8,9) sa h1 by (auto simp: yields_iff l1)
  have w2: "wrote (log_writes d P (log s) @ [((d AND 1, ?start), ?hdr')]) s t2" by (rule wrote_trans [OF 1(3) 2(3)])
  note l2 = wrote_log [OF w2]
  have d2: "disk t2 (d AND 1, log_block ?start j) = the (P (?bs ! j))" if "j < ?n" for j
    using w2 log_writes_at [OF that T(4)] log_block_start [OF nL [OF that]] by (simp add: wrote_def)
  have "yields (\<lambda>_ u. pend me d (P |` (- (\<lambda>j. lh_block (log t2) ! j) ` set [0..<?n])) u \<and>
      wrote (map (\<lambda>j. ((d AND 1, lh_block (log t2) ! j), disk t2 (d AND 1, log_block ?start j))) [0..<?n]) t2 u) (install_loop [0..<?n] t2)"
  proof (rule install_loop_run [OF 2(2)])
    show "lh_block (log t2) ! j < FSSIZE \<and> log_block ?start j \<notin> dom P \<and> log_block ?start j < FSSIZE" if "j \<in> set [0..<?n]" for j
      using that T(6,8,9) la unfolding l2 by (metis atLeastLessThan_iff set_upt)
    show "lh_block (log t2) ! i \<noteq> log_block ?start j" if "i \<in> set [0..<?n]" "j \<in> set [0..<?n]" for i j
      using that T(6,8) la unfolding l2 by (metis atLeastLessThan_iff set_upt)
  qed (use T(2,5,6,7) in \<open>auto simp: l2\<close>)
  moreover have "P |` (- (\<lambda>j. ?bs ! j) ` set [0..<?n]) = Map.empty"
    using T(10) by (auto simp: restrict_map_def atLeast0LessThan domIff fun_eq_iff)
  moreover have "map (\<lambda>j. ((d AND 1, ?bs ! j), disk t2 (d AND 1, log_block ?start j))) [0..<?n] = home_writes d P (log s)"
    using d2 by (simp add: home_writes_def)
  ultimately obtain t3 where 3: "install_trans t2 = Ok () t3" "pend me d Map.empty t3" "wrote (home_writes d P (log s)) t2 t3"
    by (auto simp: yields_iff l2 install_trans_def)
  have w3: "wrote ((log_writes d P (log s) @ [((d AND 1, ?start), ?hdr')]) @ home_writes d P (log s)) s t3"
    by (rule wrote_trans [OF w2 3(3)])
  note l3 = wrote_log [OF w3]
  have "(d AND 1, ?start) \<notin> fst ` set (home_writes d P (log s))" using T(6,8) sa by (fastforce simp: home_writes_def)
  then have h3: "disk t3 (d AND 1, ?start) = ?hdr'" using w3 by (simp add: wrote_def apply_writes_other)
  let ?u = "upd_log (\<lambda>l. l\<lparr>lh_n := 0\<rparr>) t3"
  obtain t4 where 4: "write_head ?u = Ok () t4" "pend me d Map.empty t4" "wrote [((d AND 1, ?start), header_block 0 ?bs ?hdr')] ?u t4"
    using write_head_run [of me d Map.empty ?u ?start] 3(2) T(2,9) sa h3 by (auto simp: yields_iff l3 kernel_defs)
  have "disk t4 = apply_writes (commit_writes d P (log s) ?hdr) (disk s)" "disk_writes t4 = disk_writes s @ commit_writes d P (log s) ?hdr"
    using w3 4(3) by (simp_all add: wrote_def commit_writes_def Let_def)
  moreover have "log t4 = (log s)\<lparr>lh_n := 0\<rparr>" using wrote_log [OF 4(3)] l3 by simp
  moreover have "commit s = Ok () t4" using 1(1) 2(1) 3(1) 4(1) T(3) by (simp add: commit_def)
  ultimately show ?thesis using 4(2) by simp
qed

section \<open>Recovery\<close>

definition header_blocks :: "u8 list \<Rightarrow> u32 list" where
  "header_blocks hdr = map (\<lambda>i. word_at hdr (4 + 4 * i)) [0..<nat (sint (word_at hdr 0))]"

lemma recover_run:
  fixes s :: "'z log_state_scheme"
  assumes p: "pend me d Map.empty s" and l: "log_dev (log s) = d" "log_start (log s) = start"
    and area: "\<And>k. k \<in> log_area start \<Longrightarrow> k < FSSIZE"
    and hdr: "hdr = disk s (d AND 1, start)" "sint (word_at hdr 0) \<le> int LOGSIZE"
    and home: "\<And>k. k \<in> set (header_blocks hdr) \<Longrightarrow> k < FSSIZE \<and> k \<notin> log_area start"
  shows "yields (\<lambda>_ t. \<exists>hdr'. disk t = apply_writes
    (map (\<lambda>j. ((d AND 1, header_blocks hdr ! j), disk s (d AND 1, log_block start j))) [0..<length (header_blocks hdr)] @
     [((d AND 1, start), hdr')]) (disk s)) (recover_from_log s)"
proof -
  let ?n = "sint (word_at hdr 0)" and ?bs = "header_blocks hdr"
  have sa: "start \<in> log_area start" by (simp add: log_area_def)
  have len: "length ?bs = nat ?n" by (simp add: header_blocks_def)
  have la: "log_block start j \<in> log_area start" if "j < nat ?n" for j using that hdr(2) by (auto simp: log_area_def)
  obtain t1 where 1: "read_head s = Ok () t1" "pend me d Map.empty t1" "disk t1 = disk s"
      "log t1 = (log s)\<lparr>lh_n := ?n, lh_block := ?bs @ drop (nat ?n) (lh_block (log s))\<rparr>"
    using read_head_run [OF p l, of ?n] area [OF sa] hdr by (auto simp: yields_iff header_blocks_def kernel_defs)
  have nth: "lh_block (log t1) ! j = ?bs ! j" if "j < nat ?n" for j using that len by (simp add: 1(4) nth_append)
  have "yields (\<lambda>_ u. pend me d (Map.empty |` (- (\<lambda>j. lh_block (log t1) ! j) ` set [0..<nat ?n])) u \<and>
      wrote (map (\<lambda>j. ((d AND 1, lh_block (log t1) ! j), disk t1 (d AND 1, log_block start j))) [0..<nat ?n]) t1 u) (install_loop [0..<nat ?n] t1)"
  proof (rule install_loop_run [OF 1(2)])
    have mem: "lh_block (log t1) ! j \<in> set ?bs" if "j < nat ?n" for j using that len by (simp add: nth)
    show "lh_block (log t1) ! j < FSSIZE \<and> log_block start j \<notin> dom (Map.empty :: u32 \<rightharpoonup> u8 list) \<and> log_block start j < FSSIZE"
      if "j \<in> set [0..<nat ?n]" for j using that mem home area la by auto
    show "lh_block (log t1) ! i \<noteq> log_block start j" if "i \<in> set [0..<nat ?n]" "j \<in> set [0..<nat ?n]" for i j
      using that mem home la by fastforce
  qed (use l in \<open>auto simp: 1(4) kernel_defs\<close>)
  moreover have "map (\<lambda>j. ((d AND 1, lh_block (log t1) ! j), disk t1 (d AND 1, log_block start j))) [0..<nat ?n] =
      map (\<lambda>j. ((d AND 1, ?bs ! j), disk s (d AND 1, log_block start j))) [0..<nat ?n]"
    using nth by (simp add: 1(3))
  moreover have "install_trans t1 = install_loop [0..<nat ?n] t1" by (simp add: install_trans_def 1(4))
  ultimately obtain t2 where 2: "install_trans t1 = Ok () t2" "pend me d Map.empty t2"
      "wrote (map (\<lambda>j. ((d AND 1, ?bs ! j), disk s (d AND 1, log_block start j))) [0..<nat ?n]) t1 t2"
    by (auto simp: yields_iff)
  note l2 = wrote_log [OF 2(3)]
  let ?u = "upd_log (\<lambda>l. l\<lparr>lh_n := 0\<rparr>) t2"
  obtain t3 hdr' where 3: "write_head ?u = Ok () t3" "wrote [((d AND 1, start), hdr')] ?u t3"
    using write_head_run [of me d Map.empty ?u start] 2(2) l area [OF sa] by (auto simp: yields_iff l2 1(4) kernel_defs)
  have "recover_from_log s = Ok () t3" using 1(1) 2(1) 3(1) by (simp add: recover_from_log_def)
  moreover have "disk t3 = apply_writes (map (\<lambda>j. ((d AND 1, ?bs ! j), disk s (d AND 1, log_block start j))) [0..<nat ?n] @ [((d AND 1, start), hdr')]) (disk s)"
    using 2(3) 3(2) 1(3) by (simp add: wrote_def)
  ultimately show ?thesis using len by auto
qed

section \<open>Crashes\<close>

lemma home_writes_at:
  assumes "transaction me d P s"
  shows "apply_writes (home_writes d P (log s)) D (d AND 1, k) = (case P k of Some v \<Rightarrow> v | None \<Rightarrow> D (d AND 1, k))"
proof (cases "P k")
  case None
  then have "k \<notin> (\<lambda>j. lh_block (log s) ! j) ` {..<nat (lh_n (log s))}" unfolding transactionD(10) [OF assms] by auto
  then have "(d AND 1, k) \<notin> fst ` set (home_writes d P (log s))" by (auto simp: home_writes_def)
  with None show ?thesis by (simp add: apply_writes_other)
next
  case (Some v)
  then have "k \<in> (\<lambda>j. lh_block (log s) ! j) ` {..<nat (lh_n (log s))}" unfolding transactionD(10) [OF assms] by auto
  then obtain j where j: "j < nat (lh_n (log s))" "lh_block (log s) ! j = k" by auto
  have "map fst (home_writes d P (log s)) = map (Pair (d AND 1)) (map (\<lambda>j. lh_block (log s) ! j) [0..<nat (lh_n (log s))])"
    by (simp add: home_writes_def)
  then have "distinct (map fst (home_writes d P (log s)))"
    using transactionD(7) [OF assms] by (simp only: distinct_map [of "Pair (d AND 1)"]) (simp add: inj_on_def)
  moreover have "((d AND 1, k), v) \<in> set (home_writes d P (log s))" 
    using j Some by (auto simp: home_writes_def intro!: image_eqI [of _ _ j])
  ultimately show ?thesis using Some by (simp add: apply_writes_in)
qed

lemma home_keys:
  assumes "transaction me d P s"
  shows "fst ` set (home_writes d P (log s)) \<subseteq> {(d AND 1, k) | k. k \<in> dom P}"
  using transactionD(6) [OF assms] by (auto simp: home_writes_def)

lemma header_blocks_written:
  assumes "transaction me d P s" "hdr = header_block (lh_n (log s)) (lh_block (log s)) (disk s (d AND 1, log_start (log s)))"
  shows "sint (word_at hdr 0) = lh_n (log s)" "header_blocks hdr = map (\<lambda>j. lh_block (log s) ! j) [0..<nat (lh_n (log s))]"
proof -
  note T = transactionD [OF assms(1)]
  show n: "sint (word_at hdr 0) = lh_n (log s)" using header_count [of "lh_n (log s)"] T(3,4,11) by (simp add: assms(2))
  show "header_blocks hdr = map (\<lambda>j. lh_block (log s) ! j) [0..<nat (lh_n (log s))]"
    unfolding header_blocks_def n using header_entry [of "lh_n (log s)"] T(3,4,11) by (simp add: assms(2))
qed

text \<open>The three kinds of disk a crash may leave: header not yet written, written, cleared again.\<close>

lemma crash_cases:
  assumes "transaction me d P s" and "W = commit_writes d P (log s) hdr" and "hdr' = header_block (lh_n (log s)) (lh_block (log s)) hdr"
    and "i \<le> length W"
  obtains (Before) j where "take i W = take j (log_writes d P (log s))"
  | (During) j where "take i W = log_writes d P (log s) @ [((d AND 1, log_start (log s)), hdr')] @ take j (home_writes d P (log s))"
  | (After) "take i W = W"
proof -
  let ?A = "log_writes d P (log s)" and ?B = "home_writes d P (log s)"
  let ?c = "[((d AND 1, log_start (log s)), hdr')]" and ?e = "[((d AND 1, log_start (log s)), header_block 0 (lh_block (log s)) hdr')]"
  have W: "W = ?A @ ?c @ ?B @ ?e" by (simp add: assms(2,3) commit_writes_def Let_def)
  consider "i \<le> length ?A" | "length ?A < i" "i \<le> length ?A + 1 + length ?B" | "length ?A + 1 + length ?B < i" by linarith
  then show thesis
  proof cases
    case 1
    then show thesis using Before [of i] by (simp add: W)
  next
    case 2
    then have "take i W = ?A @ ?c @ take (i - length ?A - 1) ?B" by (cases "i - length ?A") (auto simp: W)
    then show thesis by (rule During)
  next
    case 3
    then have "length W \<le> i" by (simp add: W)
    then show thesis using After by simp
  qed
qed

lemma recover_nothing:
  fixes r :: "'z log_state_scheme"
  assumes "pend me d Map.empty r" "log_dev (log r) = d" "log_start (log r) = start" "\<And>k. k \<in> log_area start \<Longrightarrow> k < FSSIZE"
    and "sint (word_at (disk r (d AND 1, start)) 0) = 0"
  shows "yields (\<lambda>_ u. \<forall>k. k \<notin> log_area start \<longrightarrow> disk u (d AND 1, k) = disk r (d AND 1, k)) (recover_from_log r)"
proof -
  have "header_blocks (disk r (d AND 1, start)) = []" using assms(5) by (simp add: header_blocks_def)
  then have "yields (\<lambda>_ t. \<exists>hdr'. disk t = apply_writes [((d AND 1, start), hdr')] (disk r)) (recover_from_log r)"
    using recover_run [OF assms(1-4) refl] assms(5) by simp
  then show ?thesis by (rule yields_mono) (auto simp: log_area_def)
qed


section \<open>Concrete states\<close>

lemma idle_state_bio [simp]:
  "slocks (idle_state ps now st) lk = \<lparr>sl_locked = 0, sl_name = [], sl_pid = 0\<rparr>" "havedisk1 (idle_state ps now st)"
  "disk (idle_state ps now st) = (\<lambda>_. replicate BSIZE 0)" "\<not> disk_err (idle_state ps now st)" "disk_writes (idle_state ps now st) = []"
  "log (idle_state ps now st) = \<lparr>log_start = 2, log_size = 30, log_outstanding = 0, log_committing = False, log_dev = 1, lh_n = 0,
        lh_block = replicate LOGSIZE 0\<rparr>"
  by (simp_all add: idle_state_def table_state_def cons_state.defs proc_state.defs)

lemma set_cpu_proc_bio [simp]:
  "bufs (set_cpu_proc p s) = bufs s" "disk (set_cpu_proc p s) = disk s" "havedisk1 (set_cpu_proc p s) = havedisk1 s"
  "idequeue (set_cpu_proc p s) = idequeue s" "disk_err (set_cpu_proc p s) = disk_err s" "disk_writes (set_cpu_proc p s) = disk_writes s"
  "slocks (set_cpu_proc p t) = slocks t" "ptable (set_cpu_proc p u) = ptable u" "strategy (set_cpu_proc p u) = strategy u"
  "log (set_cpu_proc p v) = log v"
  by (simp_all add: set_cpu_proc_def machine_defs)

lemma one_running_calm: "calm 3 one_running"
  by (rule mach_calm [where e = False])
    (simp_all add: held_at_def one_running_def set_cpu_proc_def machine_defs free_lock_def boot_machine_def idle_cpu_def
      two_waiting_def NPROC_def)

text \<open>A clean cache, and one with block 100 modified and logged.\<close>

lemma one_running_pend: "pend 3 1 Map.empty one_running"
proof -
  have "tidy 1 Map.empty (seen 1 Map.empty (disk one_running)) {} (busy one_running) (disk one_running) (bufs one_running)"
    by (rule tidyI) (auto simp: one_running_def blank_buf_def busy_def seen_def)
  moreover have "lru (bufs one_running) [0..<NBUF]" using blank_lru by (simp add: one_running_def)
  moreover have "set [0..<NBUF] = {..<NBUF}" by auto
  moreover have "havedisk1 one_running" by (simp add: one_running_def)
  ultimately show ?thesis unfolding pend_def cache_def using one_running_calm by auto
qed

definition one_logged :: life_state where
  "one_logged = upd_log (\<lambda>l. l\<lparr>lh_n := 1, lh_block := (lh_block l)[0 := 100]\<rparr>)
     (upd_buf 0 (\<lambda>u. u\<lparr>b_flags := B_VALID OR B_DIRTY, b_dev := 1, b_blockno := 100, b_data := replicate BSIZE 7\<rparr>) one_running)"

lemma small_log_area: "k \<in> log_area 2 \<Longrightarrow> k < 100 \<and> k < FSSIZE"
proof -
  have "3 + of_nat j < (100 :: u32) \<and> 3 + of_nat j < (1000 :: u32)" if "j < 30" for j
  proof -
    have "(3 :: u32) + of_nat j = of_nat (3 + j)" by simp
    then have "unat ((3 :: u32) + of_nat j) = 3 + j" using that by (simp only: unat_of_nat) simp
    then show ?thesis using that by (simp add: word_less_nat_alt)
  qed
  moreover have "(2 :: u32) < 100 \<and> (2 :: u32) < 1000" by simp
  ultimately show "k \<in> log_area 2 \<Longrightarrow> k < 100 \<and> k < FSSIZE"
    unfolding log_area_def log_block_def LOGSIZE_def MAXOPBLOCKS_def FSSIZE_def by (auto simp: add.commute)
qed

lemma one_logged_transaction: "transaction 3 1 [100 \<mapsto> replicate BSIZE 7] one_logged"
proof -
  let ?P = "[100 \<mapsto> replicate BSIZE 7] :: u32 \<rightharpoonup> u8 list"
  let ?u = "(blank_buf 0)\<lparr>b_flags := B_VALID OR B_DIRTY, b_dev := 1, b_blockno := 100, b_data := replicate BSIZE 7\<rparr>"
  have b: "bufs one_logged = blank_buf(0 := ?u)" by (simp add: one_logged_def upd_buf_def one_running_def)
  have d: "disk one_logged = (\<lambda>_. replicate BSIZE 0)" "busy one_logged = {}" "havedisk1 one_logged"
    by (simp_all add: one_logged_def upd_log_def upd_buf_def busy_def one_running_def)
  have l: "log one_logged = \<lparr>log_start = 2, log_size = 30, log_outstanding = 0, log_committing = False, log_dev = 1, lh_n = 1,
        lh_block = (replicate LOGSIZE 0)[0 := 100]\<rparr>"
    by (simp add: one_logged_def upd_buf_def one_running_def)
  have "bit (B_VALID OR B_DIRTY) (Suc 0)" "bit (B_VALID OR B_DIRTY) 2" using flag_bits by (simp_all add: bit_or_iff)
  then have "tidy 1 Map.empty (seen 1 ?P (disk one_logged)) (dom ?P) {} (disk one_logged) (blank_buf(0 := ?u))"
    by (intro tidyI) (auto simp: blank_buf_def seen_def kernel_defs split: if_splits)
  moreover have "lru (blank_buf(0 := ?u)) [0..<NBUF]" by (rule lru_data_cong [OF blank_lru]) simp
  moreover have "set [0..<NBUF] = {..<NBUF}" by auto
  moreover have "calm 3 one_logged"
    using one_running_calm by (simp add: one_logged_def calm_def upd_log_def upd_buf_def held_at_def holding_def cpu_def)
  ultimately have "pend 3 1 ?P one_logged" unfolding pend_def cache_def b d(2) using d(3) by blast
  moreover have "take 1 ((replicate LOGSIZE (0 :: u32))[0 := 100]) = [100]"
  proof -
    have "replicate LOGSIZE (0 :: u32) = 0 # replicate 29 0"
      unfolding replicate_Suc [symmetric] by (simp add: kernel_defs)
    then show ?thesis by simp
  qed
  moreover have "word_at (replicate BSIZE 0) 0 = 0" by (simp add: word_at_def kernel_defs)
  ultimately show ?thesis
    using small_log_area by (auto simp: transaction_def l d(1)) (auto simp: kernel_defs)
qed


section \<open>The buffer cache as a memory of blocks\<close>

text \<open>
  C24: The buffer cache is a memory of blocks: \<^verbatim>\<open>bread\<close> returns a locked buffer with the
  contents of the block, from the cache or the disk, recycling a buffer if it has to; after
  its data is replaced, \<^verbatim>\<open>bwrite\<close> and \<^verbatim>\<open>brelse\<close> put the new contents on the disk
  and leave every other block, pinned ones included, as it was.
\<close>

theorem bcache_block_memory:
  assumes "cache me d H C Q s" "H k = None" "k < FSSIZE" "k \<in> Q \<or> card (dom H \<union> Q) < NBUF"
  shows "\<exists>b t u w. bread d k s = Ok b t \<and> b_data (bufs t b) = C k \<and> BufLock b \<in> busy t \<and> outside t = outside s \<and>
    bwrite b (upd_data b (\<lambda>_. v) t) = Ok () u \<and> brelse b u = Ok () w \<and> cache me d H (C(k := v)) (Q - {k}) w \<and>
    disk w = (disk s)((d AND 1, k) := v) \<and> disk_writes w = disk_writes s @ [((d AND 1, k), v)]"
proof -
  obtain b t where 1: "bread d k s = Ok b t" "cache me d (H(k \<mapsto> b)) C Q t" "outside t = outside s"
    using bread_cache [OF assms] by (auto simp: yields_iff)
  have 2: "cache me d (H(k \<mapsto> b)) (C(k := v)) Q (upd_data b (\<lambda>_. v) t)" "outside (upd_data b (\<lambda>_. v) t) = outside s"
    using cache_upd_data [OF 1(2), of k b "\<lambda>_. v"] 1(3) by simp_all
  obtain u where 3: "bwrite b (upd_data b (\<lambda>_. v) t) = Ok () u" "cache me d (H(k \<mapsto> b)) (C(k := v)) (Q - {k}) u"
      "disk u = (disk s)((d AND 1, k) := v)" "disk_writes u = disk_writes s @ [((d AND 1, k), v)]"
    using bwrite_cache [OF 2(1), of k b] assms(3) 2(2) by (auto simp: yields_iff outside_def)
  obtain w where 4: "brelse b u = Ok () w" "cache me d H (C(k := v)) (Q - {k}) w" "outside w = outside u"
    using brelse_cache [OF 3(2), of k b] 3(3) assms(2) by (auto simp: yields_iff fun_upd_idem)
  show ?thesis
    using 1 2 3 4 cache_held [OF 1(2), of k b] by (auto simp: outside_def)
qed

lemma bcache_block_memory_witness:
  "\<exists>b t u w. bread 1 5 one_running = Ok b t \<and> b_data (bufs t b) = replicate BSIZE 0 \<and>
    bwrite b (upd_data b (\<lambda>_. replicate BSIZE 9) t) = Ok () u \<and> brelse b u = Ok () w \<and> disk w (1, 5) = replicate BSIZE 9"
proof -
  have "card (dom (Map.empty :: u32 \<rightharpoonup> nat) \<union> dom (Map.empty :: u32 \<rightharpoonup> u8 list)) < NBUF" by (simp add: kernel_defs)
  moreover have "(5 :: u32) < FSSIZE" by (simp add: FSSIZE_def)
  moreover have "seen 1 Map.empty (disk one_running) 5 = replicate BSIZE 0" by (simp add: seen_def one_running_def)
  ultimately show ?thesis
    using bcache_block_memory [OF one_running_pend [unfolded pend_def], of 5 "replicate BSIZE 9"] by auto
qed

end
