(* ===== verification/Spec2Isabelle.thy ===== *)
theory Spec2Isabelle
  imports Table PipeQueue LineEdit Paths Crash
begin

text \<open>
  A model of the xv6 kernel with its modified scheduler, and what is proved about it.
\<close>

end
